(* ===== verification/Go_Prelude.thy ===== *)
theory Go_Prelude
  imports Main "HOL-Library.Word"
begin

text \<open>
  Shared vocabulary of the development. A Go \<^verbatim>\<open>string\<close> or \<^verbatim>\<open>[]byte\<close> is a list of
  8-bit characters; \<open>byte\<close> reads one of them as a number. A Go function returning
  \<^verbatim>\<open>(T, error)\<close> is a function into \<open>'e + 'a\<close> with \<open>Inl\<close> for the error. The theory
  models the parts of \<^verbatim>\<open>strconv\<close> and \<^verbatim>\<open>strings\<close> that the components call and proves
  the facts about them that the component proofs share.
\<close>

named_theorems go_str \<open>rewrite rules for the string library\<close>

section \<open>Bytes\<close>

abbreviation byte :: "char \<Rightarrow> nat" where
  "byte c \<equiv> of_char c"

type_synonym u64 = "64 word"

lemma byte_lt_256 [simp]: "byte c < 256"
  using nat_of_char_less_256 [of c] by simp

lemma byte_char_of [simp]: "n < 256 \<Longrightarrow> byte (char_of n) = n"
  by simp

lemma byte_inject: "byte c = byte d \<longleftrightarrow> c = d"
  by (simp add: of_char_eq_iff)

lemma eq_char_iff: "c = d \<longleftrightarrow> byte c = byte d"
  by (simp add: of_char_eq_iff)

lemma unat_u64_less: "unat (n :: u64) < 2 ^ 64"
  using unsigned_less [of n] by simp

lemma of_nat_unat_u64: "of_nat (unat n) = (n :: u64)"
  by simp

text \<open>Stability of \<open>takeWhile\<close>/\<open>dropWhile\<close> under appending a byte that stops the scan.\<close>

lemma takeWhile_stop:
  "list_all P xs \<Longrightarrow> ys = [] \<or> \<not> P (hd ys) \<Longrightarrow> takeWhile P (xs @ ys) = xs"
  by (induction xs) (cases ys; auto)+

lemma dropWhile_stop:
  "list_all P xs \<Longrightarrow> ys = [] \<or> \<not> P (hd ys) \<Longrightarrow> dropWhile P (xs @ ys) = ys"
  by (induction xs) (cases ys; auto)+

lemma length_dropWhile_less: "xs \<noteq> [] \<Longrightarrow> P (hd xs) \<Longrightarrow> length (dropWhile P xs) < length xs"
  by (cases xs) (auto simp: le_imp_less_Suc length_dropWhile_le)

section \<open>Decimal numbers: strconv\<close>

definition is_digit :: "char \<Rightarrow> bool" where
  "is_digit c \<longleftrightarrow> 48 \<le> byte c \<and> byte c \<le> 57"

definition digit_char :: "nat \<Rightarrow> char" where
  "digit_char d = char_of (48 + d)"

definition digit_val :: "char \<Rightarrow> nat" where
  "digit_val c = byte c - 48"

fun FormatUint :: "nat \<Rightarrow> string" where
  "FormatUint n = (if n < 10 then [digit_char n] else FormatUint (n div 10) @ [digit_char (n mod 10)])"

declare FormatUint.simps [simp del]

definition digits_val :: "string \<Rightarrow> nat" where
  "digits_val s = foldl (\<lambda>a c. 10 * a + digit_val c) 0 s"

text \<open>\<^verbatim>\<open>strconv.ParseUint(s, 10, bits)\<close>: digits only, no sign, no overflow.\<close>

definition ParseUint :: "nat \<Rightarrow> string \<Rightarrow> nat option" where
  "ParseUint bits s =
     (if s = [] \<or> \<not> list_all is_digit s then None
      else if digits_val s < 2 ^ bits then Some (digits_val s) else None)"

text \<open>\<^verbatim>\<open>strconv.ParseInt(s, 10, bits)\<close> for a positive width: one optional sign.\<close>

definition ParseInt :: "nat \<Rightarrow> string \<Rightarrow> int option" where
  "ParseInt bits s =
     (let neg = (s \<noteq> [] \<and> hd s = CHR ''-'');
          body = (if s \<noteq> [] \<and> (hd s = CHR ''-'' \<or> hd s = CHR ''+'') then tl s else s)
      in if body = [] \<or> \<not> list_all is_digit body then None
         else if neg then (if digits_val body \<le> 2 ^ (bits - 1) then Some (- int (digits_val body)) else None)
         else (if digits_val body < 2 ^ (bits - 1) then Some (int (digits_val body)) else None))"

lemma is_digit_digit_char [simp]: "d < 10 \<Longrightarrow> is_digit (digit_char d)"
  by (simp add: is_digit_def digit_char_def)

lemma digit_val_digit_char [simp]: "d < 10 \<Longrightarrow> digit_val (digit_char d) = d"
  by (simp add: digit_val_def digit_char_def)

lemma FormatUint_not_Nil [simp]: "FormatUint n \<noteq> []"
  by (subst FormatUint.simps) simp

lemma FormatUint_digits [simp]: "list_all is_digit (FormatUint n)"
proof (induction n rule: FormatUint.induct)
  case (1 n)
  then show ?case by (subst FormatUint.simps) simp
qed

lemma digits_val_snoc [simp]: "digits_val (s @ [c]) = 10 * digits_val s + digit_val c"
  by (simp add: digits_val_def)

lemma digits_val_FormatUint [simp]: "digits_val (FormatUint n) = n"
proof (induction n rule: FormatUint.induct)
  case (1 n)
  show ?case
  proof (cases "n < 10")
    case True
    then show ?thesis by (subst FormatUint.simps) (simp add: digits_val_def)
  next
    case False
    with "1.IH" have "digits_val (FormatUint (n div 10)) = n div 10" by simp
    with False show ?thesis by (subst FormatUint.simps) simp
  qed
qed

lemma ParseUint_FormatUint [simp]: "n < 2 ^ b \<Longrightarrow> ParseUint b (FormatUint n) = Some n"
  by (simp add: ParseUint_def)

lemma FormatUint_inject [simp]: "FormatUint m = FormatUint n \<longleftrightarrow> m = n"
  by (metis digits_val_FormatUint)

lemma ParseUint_bound: "ParseUint b s = Some n \<Longrightarrow> n < 2 ^ b"
  by (auto simp: ParseUint_def split: if_splits)

lemma ParseUint_SomeD:
  "ParseUint b s = Some n \<Longrightarrow> s \<noteq> [] \<and> list_all is_digit s \<and> digits_val s = n"
  by (auto simp: ParseUint_def split: if_splits)

text \<open>The decimal text of a number is the only one without a leading zero.\<close>

lemma digits_val_pos: "list_all is_digit s \<Longrightarrow> s \<noteq> [] \<Longrightarrow> hd s \<noteq> CHR ''0'' \<Longrightarrow> 0 < digits_val s"
proof (induction s rule: rev_induct)
  case (snoc c s)
  show ?case
  proof (cases "s = []")
    case True
    with snoc have "byte c \<noteq> 48" "48 \<le> byte c" by (auto simp: is_digit_def eq_char_iff)
    with True show ?thesis by (simp add: digits_val_def digit_val_def)
  next
    case False
    with snoc show ?thesis by simp
  qed
qed simp

lemma digit_char_val: "is_digit c \<Longrightarrow> digit_char (digit_val c) = c \<and> digit_val c < 10"
  by (auto simp: is_digit_def digit_char_def digit_val_def)

lemma FormatUint_canonical:
  "list_all is_digit s \<Longrightarrow> s \<noteq> [] \<Longrightarrow> length s = 1 \<or> hd s \<noteq> CHR ''0'' \<Longrightarrow> FormatUint (digits_val s) = s"
proof (induction s rule: rev_induct)
  case (snoc c s)
  then have c: "digit_char (digit_val c) = c" "digit_val c < 10" using digit_char_val by auto
  show ?case
  proof (cases "s = []")
    case True
    with c show ?thesis by (simp add: FormatUint.simps [of "digit_val c"] digits_val_def)
  next
    case False
    with snoc.prems have s: "list_all is_digit s" "hd s \<noteq> CHR ''0''" by auto
    with snoc.IH False have "FormatUint (digits_val s) = s" by auto
    moreover have "0 < digits_val s" using digits_val_pos s False by auto
    ultimately show ?thesis using c by (subst FormatUint.simps) auto
  qed
qed simp

lemma FormatUint_hd_digit: "is_digit (hd (FormatUint n))"
  by (metis FormatUint_digits FormatUint_not_Nil hd_in_set list_all_iff)

lemma FormatUint_head: "n \<noteq> 0 \<Longrightarrow> hd (FormatUint n) \<noteq> CHR ''0''"
proof (induction n rule: FormatUint.induct)
  case (1 n)
  show ?case
  proof (cases "n < 10")
    case True
    with "1.prems" show ?thesis by (subst FormatUint.simps) (auto simp: digit_char_def eq_char_iff)
  next
    case False
    then have "n div 10 \<noteq> 0" by (simp add: div_eq_0_iff)
    with 1 False show ?thesis by (subst FormatUint.simps) simp
  qed
qed

section \<open>Searching and splitting: strings\<close>

text \<open>\<^verbatim>\<open>strings.IndexByte\<close> and \<^verbatim>\<open>strings.LastIndexByte\<close>, with \<open>None\<close> for \<^verbatim>\<open>-1\<close>.\<close>

fun index_byte :: "char \<Rightarrow> string \<Rightarrow> nat option" where
  "index_byte c [] = None"
| "index_byte c (x # xs) = (if x = c then Some 0 else map_option Suc (index_byte c xs))"

fun last_index_byte :: "char \<Rightarrow> string \<Rightarrow> nat option" where
  "last_index_byte c [] = None"
| "last_index_byte c (x # xs) =
     (case last_index_byte c xs of Some i \<Rightarrow> Some (Suc i) | None \<Rightarrow> if x = c then Some 0 else None)"

text \<open>\<^verbatim>\<open>strings.Split\<close> with a one-byte separator.\<close>

fun split_on :: "char \<Rightarrow> string \<Rightarrow> string list" where
  "split_on c [] = [[]]"
| "split_on c (x # xs) =
     (if x = c then [] # split_on c xs
      else (case split_on c xs of [] \<Rightarrow> [[x]] | y # ys \<Rightarrow> (x # y) # ys))"

fun join_with :: "char \<Rightarrow> string list \<Rightarrow> string" where
  "join_with c [] = []"
| "join_with c [p] = p"
| "join_with c (p # ps) = p @ c # join_with c ps"

lemma last_index_byte_None [simp]: "last_index_byte c s = None \<longleftrightarrow> c \<notin> set s"
  by (induction s) (auto split: option.splits)

lemma last_index_byte_append [simp]:
  "c \<notin> set t \<Longrightarrow> last_index_byte c (s @ c # t) = Some (length s)"
  by (induction s) (auto simp flip: last_index_byte_None)

lemma last_index_byte_SomeD:
  "last_index_byte c s = Some i \<Longrightarrow>
     i < length s \<and> s ! i = c \<and> c \<notin> set (drop (Suc i) s) \<and> s = take i s @ c # drop (Suc i) s"
proof (induction s arbitrary: i)
  case (Cons x xs)
  then show ?case by (cases i) (auto split: option.splits if_splits)
qed simp

lemma index_byte_None [simp]: "index_byte c s = None \<longleftrightarrow> c \<notin> set s"
  by (induction s) auto

lemma index_byte_append [simp]: "c \<notin> set s \<Longrightarrow> index_byte c (s @ c # t) = Some (length s)"
  by (induction s) auto

lemma index_byte_SomeD:
  "index_byte c s = Some i \<Longrightarrow> i < length s \<and> s ! i = c \<and> c \<notin> set (take i s)"
proof (induction s arbitrary: i)
  case (Cons x xs)
  then show ?case by (cases i) (auto split: if_splits)
qed simp

lemma split_on_not_Nil [simp]: "split_on c s \<noteq> []"
  by (induction s) (auto split: list.splits)

lemma split_on_no_sep [simp]: "c \<notin> set s \<Longrightarrow> split_on c s = [s]"
  by (induction s) auto

lemma split_on_append [simp]: "c \<notin> set s \<Longrightarrow> split_on c (s @ c # t) = s # split_on c t"
  by (induction s) auto

lemma split_on_parts: "p \<in> set (split_on c s) \<Longrightarrow> c \<notin> set p"
  by (induction s arbitrary: p) (auto split: if_splits list.splits)

lemma split_on_join:
  "ps \<noteq> [] \<Longrightarrow> \<forall>p \<in> set ps. c \<notin> set p \<Longrightarrow> split_on c (join_with c ps) = ps"
  by (induction c ps rule: join_with.induct) auto

lemma join_with_Cons: "ps \<noteq> [] \<Longrightarrow> join_with c (p # ps) = p @ c # join_with c ps"
  by (cases ps) auto

lemma join_with_Cons_Cons: "join_with c ((x # p) # ps) = x # join_with c (p # ps)"
  by (cases ps) auto

lemma join_split_on [simp]: "join_with c (split_on c s) = s"
  by (induction s) (auto simp: join_with_Cons join_with_Cons_Cons split: list.splits)

section \<open>ASCII case\<close>

definition ascii_upper_char :: "char \<Rightarrow> char" where
  "ascii_upper_char c = (if 97 \<le> byte c \<and> byte c \<le> 122 then char_of (byte c - 32) else c)"

lemma ascii_upper_char_idem [simp]: "ascii_upper_char (ascii_upper_char c) = ascii_upper_char c"
  by (auto simp: ascii_upper_char_def)

section \<open>Errors as sums\<close>

text \<open>\<^verbatim>\<open>if err != nil { return err }\<close>: a step whose error is passed on.\<close>

lemma sum_case_Inr_iff [simp]:
  "(case x of Inl e \<Rightarrow> Inl (g e) | Inr u \<Rightarrow> f u) = Inr y \<longleftrightarrow> (\<exists>u. x = Inr u \<and> f u = Inr y)"
  by (cases x) auto

lemma option_case_Inr_iff [simp]:
  "(case x of None \<Rightarrow> Inl e | Some u \<Rightarrow> f u) = Inr y \<longleftrightarrow> (\<exists>u. x = Some u \<and> f u = Inr y)"
  by (cases x) auto

lemma if_Inl_Inr_iff [simp]: "(if b then Inl e else f) = Inr y \<longleftrightarrow> \<not> b \<and> f = Inr y"
  by simp

end
