(* ===== verification/Go_Utf8.thy ===== *)
theory Go_Utf8
  imports Go_Prelude
begin

text \<open>
  The parts of Go's \<^verbatim>\<open>unicode/utf8\<close> and of \<^verbatim>\<open>range\<close> over a string that the components
  use: decoding the first rune of a byte string (an ill-formed sequence is the rune
  U+FFFD of width one), encoding a rune, validity of a whole string, and the offset/rune
  pairs a \<^verbatim>\<open>for i, r := range s\<close> loop visits. Runes are natural numbers. The main facts:
  decoding then encoding gives the bytes back on well-formed input, and encoding then
  decoding gives the rune back.
\<close>

section \<open>Decoding one rune\<close>

definition RuneError :: nat where
  "RuneError = 0xFFFD"

definition cont_byte :: "char \<Rightarrow> bool" where
  "cont_byte c \<longleftrightarrow> 0x80 \<le> byte c \<and> byte c \<le> 0xBF"

definition second_ok :: "nat \<Rightarrow> char \<Rightarrow> bool" where
  "second_ok b0 c \<longleftrightarrow>
     (if b0 = 0xE0 then 0xA0 else if b0 = 0xF0 then 0x90 else 0x80) \<le> byte c \<and>
     byte c \<le> (if b0 = 0xED then 0x9F else if b0 = 0xF4 then 0x8F else 0xBF)"

text \<open>The runes that two, three and four bytes stand for.\<close>

definition rune2 :: "char \<Rightarrow> char \<Rightarrow> nat" where
  "rune2 a b = (byte a - 0xC0) * 64 + (byte b - 0x80)"

definition rune3 :: "char \<Rightarrow> char \<Rightarrow> char \<Rightarrow> nat" where
  "rune3 a b c = (byte a - 0xE0) * 4096 + (byte b - 0x80) * 64 + (byte c - 0x80)"

definition rune4 :: "char \<Rightarrow> char \<Rightarrow> char \<Rightarrow> char \<Rightarrow> nat" where
  "rune4 a b c d = (byte a - 0xF0) * 262144 + (byte b - 0x80) * 4096 + (byte c - 0x80) * 64 + (byte d - 0x80)"

definition DecodeRune :: "string \<Rightarrow> nat \<times> nat" where
  "DecodeRune s = (case s of
     [] \<Rightarrow> (RuneError, 0)
   | c # cs \<Rightarrow>
       (let b0 = byte c in
        if b0 < 0x80 then (b0, 1)
        else if b0 < 0xC2 \<or> 0xF4 < b0 then (RuneError, 1)
        else if b0 < 0xE0 then
          (case cs of
             c1 # _ \<Rightarrow> if second_ok b0 c1 then (rune2 c c1, 2) else (RuneError, 1)
           | _ \<Rightarrow> (RuneError, 1))
        else if b0 < 0xF0 then
          (case cs of
             c1 # c2 # _ \<Rightarrow>
               if second_ok b0 c1 \<and> cont_byte c2
               then (rune3 c c1 c2, 3)
               else (RuneError, 1)
           | _ \<Rightarrow> (RuneError, 1))
        else
          (case cs of
             c1 # c2 # c3 # _ \<Rightarrow>
               if second_ok b0 c1 \<and> cont_byte c2 \<and> cont_byte c3
               then (rune4 c c1 c2 c3, 4)
               else (RuneError, 1)
           | _ \<Rightarrow> (RuneError, 1))))"

definition valid_rune :: "nat \<Rightarrow> bool" where
  "valid_rune r \<longleftrightarrow> r < 0xD800 \<or> (0xDFFF < r \<and> r \<le> 0x10FFFF)"

text \<open>\<^verbatim>\<open>string(r)\<close> and \<^verbatim>\<open>WriteRune\<close>: an invalid rune is written as U+FFFD.\<close>

definition EncodeRune :: "nat \<Rightarrow> string" where
  "EncodeRune r =
     (if r < 0x80 then [char_of r]
      else if r < 0x800 then [char_of (0xC0 + r div 64), char_of (0x80 + r mod 64)]
      else if \<not> valid_rune r then [char_of (0xEF::nat), char_of (0xBF::nat), char_of (0xBD::nat)]
      else if r < 0x10000 then
        [char_of (0xE0 + r div 4096), char_of (0x80 + r div 64 mod 64), char_of (0x80 + r mod 64)]
      else [char_of (0xF0 + r div 262144), char_of (0x80 + r div 4096 mod 64),
            char_of (0x80 + r div 64 mod 64), char_of (0x80 + r mod 64)])"

lemma DecodeRune_width_pos: "s \<noteq> [] \<Longrightarrow> 1 \<le> snd (DecodeRune s)"
  by (cases s) (auto simp: DecodeRune_def Let_def split: list.splits)

lemma DecodeRune_width_le: "s \<noteq> [] \<Longrightarrow> snd (DecodeRune s) \<le> length s"
  by (cases s) (auto simp: DecodeRune_def Let_def split: list.splits)

lemma drop_DecodeRune_less: "s \<noteq> [] \<Longrightarrow> length s - snd (DecodeRune s) < length s"
  using DecodeRune_width_pos [of s] by (cases s) auto

lemma DecodeRune_ascii [simp]: "byte c < 0x80 \<Longrightarrow> DecodeRune (c # cs) = (byte c, 1)"
  by (simp add: DecodeRune_def)

section \<open>Whole strings\<close>

function ValidString :: "string \<Rightarrow> bool" where
  "ValidString s =
     (if s = [] then True
      else if DecodeRune s = (RuneError, 1) then False
      else ValidString (drop (snd (DecodeRune s)) s))"
  by pat_completeness auto
termination
  by (relation "measure length") (auto simp: drop_DecodeRune_less)

function runes_at :: "nat \<Rightarrow> string \<Rightarrow> (nat \<times> nat) list" where
  "runes_at i s =
     (if s = [] then []
      else (i, fst (DecodeRune s)) # runes_at (i + snd (DecodeRune s)) (drop (snd (DecodeRune s)) s))"
  by pat_completeness auto
termination
  by (relation "measure (\<lambda>(i, s). length s)") (auto simp: drop_DecodeRune_less)

declare ValidString.simps [simp del] runes_at.simps [simp del]

lemma ValidString_Nil [simp]: "ValidString []"
  by (simp add: ValidString.simps)

lemma runes_at_Nil [simp]: "runes_at i [] = []"
  by (simp add: runes_at.simps)

lemma runes_at_ascii [simp]:
  "byte c < 0x80 \<Longrightarrow> runes_at i (c # cs) = (i, byte c) # runes_at (Suc i) cs"
  by (subst runes_at.simps) simp

lemma ValidString_ascii [simp]: "byte c < 0x80 \<Longrightarrow> ValidString (c # cs) = ValidString cs"
  by (subst ValidString.simps) (simp add: RuneError_def)

lemma ValidString_ascii_all: "list_all (\<lambda>c. byte c < 0x80) s \<Longrightarrow> ValidString s"
  by (induction s) auto

lemma ValidString_drop:
  "s \<noteq> [] \<Longrightarrow> ValidString s \<Longrightarrow>
     DecodeRune s \<noteq> (RuneError, 1) \<and> ValidString (drop (snd (DecodeRune s)) s)"
  by (subst (asm) ValidString.simps) (auto split: if_splits)

section \<open>Decoding and encoding are inverse\<close>

lemma radix64: "r < 64 \<Longrightarrow> (x * 64 + r) div 64 = x" "r < 64 \<Longrightarrow> (x * 64 + r) mod 64 = (r::nat)"
  by auto

lemma EncodeRune_rune2:
  assumes "0xC2 \<le> byte a" "byte a < 0xE0" "second_ok (byte a) b"
  shows "EncodeRune (rune2 a b) = [a, b]"
proof -
  define p q where "p = byte a - 0xC0" and "q = byte b - 0x80"
  have v: "2 \<le> p" "p < 32" "q < 64" "0xC0 + p = byte a" "0x80 + q = byte b"
    using assms by (auto simp: p_def q_def second_ok_def)
  have n: "\<not> p * 64 + q < 0x80" "p * 64 + q < 0x800" using v by linarith+
  show ?thesis unfolding rune2_def p_def [symmetric] q_def [symmetric]
    by (simp only: EncodeRune_def n if_True if_False radix64 v) simp
qed

lemma EncodeRune_rune3:
  assumes "0xE0 \<le> byte a" "byte a < 0xF0" "second_ok (byte a) b" "cont_byte c"
  shows "EncodeRune (rune3 a b c) = [a, b, c]"
proof -
  define p q r where "p = byte a - 0xE0" and "q = byte b - 0x80" and "r = byte c - 0x80"
  have v: "p < 16" "q < 64" "r < 64" "0xE0 + p = byte a" "0x80 + q = byte b" "0x80 + r = byte c"
    using assms by (auto simp: p_def q_def r_def second_ok_def cont_byte_def split: if_splits)
  have w: "p = 0 \<Longrightarrow> 32 \<le> q" "p = 13 \<Longrightarrow> q < 32"
    using assms by (auto simp: p_def q_def second_ok_def split: if_splits)
  define n where "n = p * 4096 + q * 64 + r"
  have e: "n = (p * 64 + q) * 64 + r" by (simp add: n_def)
  have d1: "n div 64 = p * 64 + q" "n mod 64 = r" unfolding e by (simp_all only: radix64 v)
  have "n div 4096 = n div 64 div 64" by (simp only: div_mult2_eq [symmetric]) simp
  with d1 v have d: "n div 4096 = p" "n div 64 mod 64 = q" by (simp_all only: radix64)
  have n: "\<not> n < 0x80" "\<not> n < 0x800" "n < 0x10000" using v w unfolding n_def by linarith+
  have vr: "valid_rune n"
  proof (cases "p \<le> 13")
    case True
    then have "n < 0xD800" using v w unfolding n_def by linarith
    then show ?thesis by (simp add: valid_rune_def)
  next
    case False
    then have "0xDFFF < n" unfolding n_def by linarith
    with n show ?thesis by (simp add: valid_rune_def)
  qed
  show ?thesis unfolding rune3_def p_def [symmetric] q_def [symmetric] r_def [symmetric] n_def [symmetric]
    by (simp only: EncodeRune_def n vr not_True_eq_False if_True if_False d d1(2) v) simp
qed

lemma EncodeRune_rune4:
  assumes "0xF0 \<le> byte a" "byte a \<le> 0xF4" "second_ok (byte a) b" "cont_byte c" "cont_byte d"
  shows "EncodeRune (rune4 a b c d) = [a, b, c, d]"
proof -
  define p q r t where "p = byte a - 0xF0" and "q = byte b - 0x80" and "r = byte c - 0x80" and "t = byte d - 0x80"
  have v: "p \<le> 4" "q < 64" "r < 64" "t < 64"
    "0xF0 + p = byte a" "0x80 + q = byte b" "0x80 + r = byte c" "0x80 + t = byte d"
    using assms by (auto simp: p_def q_def r_def t_def second_ok_def cont_byte_def split: if_splits)
  have w: "p = 0 \<Longrightarrow> 16 \<le> q" "p = 4 \<Longrightarrow> q < 16"
    using assms by (auto simp: p_def q_def second_ok_def split: if_splits)
  define n where "n = p * 262144 + q * 4096 + r * 64 + t"
  have e: "n = ((p * 64 + q) * 64 + r) * 64 + t" by (simp add: n_def)
  have d1: "n div 64 = (p * 64 + q) * 64 + r" "n mod 64 = t" unfolding e by (simp_all only: radix64 v)
  have d2: "n div 64 div 64 = p * 64 + q" "n div 64 mod 64 = r" unfolding d1 by (simp_all only: radix64 v)
  have "n div 4096 = n div 64 div 64" by (simp only: div_mult2_eq [symmetric]) simp
  with d2 have d3: "n div 4096 = p * 64 + q" by simp
  have "n div 262144 = n div 64 div 64 div 64" by (simp only: div_mult2_eq [symmetric]) simp
  with d2 d3 v have d: "n div 262144 = p" "n div 4096 mod 64 = q" by (simp_all only: radix64)
  have n: "\<not> n < 0x80" "\<not> n < 0x800" "\<not> n < 0x10000" "n \<le> 0x10FFFF" using v w unfolding n_def by linarith+
  have vr: "valid_rune n" using n by (simp add: valid_rune_def)
  show ?thesis unfolding rune4_def p_def [symmetric] q_def [symmetric] r_def [symmetric] t_def [symmetric] n_def [symmetric]
    by (simp only: EncodeRune_def n vr not_True_eq_False if_True if_False d d1(2) d2(2) v) simp
qed

lemmas EncodeRune_wide = EncodeRune_rune2 EncodeRune_rune3 EncodeRune_rune4

text \<open>The shapes a successful decoding can have.\<close>

lemma DecodeRune_cases:
  assumes "s \<noteq> []" "DecodeRune s \<noteq> (RuneError, 1)"
  obtains (ascii) c t where "s = c # t" "byte c < 0x80" "DecodeRune s = (byte c, 1)"
  | (two) a b t where "s = a # b # t" "0xC2 \<le> byte a" "byte a < 0xE0" "second_ok (byte a) b"
      "DecodeRune s = (rune2 a b, 2)"
  | (three) a b c t where "s = a # b # c # t" "0xE0 \<le> byte a" "byte a < 0xF0" "second_ok (byte a) b"
      "cont_byte c" "DecodeRune s = (rune3 a b c, 3)"
  | (four) a b c d t where "s = a # b # c # d # t" "0xF0 \<le> byte a" "byte a \<le> 0xF4" "second_ok (byte a) b"
      "cont_byte c" "cont_byte d" "DecodeRune s = (rune4 a b c d, 4)"
proof -
  obtain c cs where s: "s = c # cs" using assms(1) by (cases s) auto
  consider "byte c < 0x80" | "0xC2 \<le> byte c" "byte c < 0xE0" | "0xE0 \<le> byte c" "byte c < 0xF0"
    | "0xF0 \<le> byte c" "byte c \<le> 0xF4"
    using assms(2) unfolding s DecodeRune_def by (force simp: Let_def split: if_splits)
  then show thesis
  proof cases
    case 1
    then show ?thesis using ascii s by simp
  next
    case 2
    then show ?thesis using two assms(2) unfolding s
      by (cases cs) (auto simp: DecodeRune_def Let_def split: if_splits)
  next
    case 3
    then show ?thesis using three assms(2) unfolding s
      by (cases cs; cases "tl cs") (auto simp: DecodeRune_def Let_def split: if_splits)
  next
    case 4
    then show ?thesis using four assms(2) unfolding s
      by (cases cs; cases "tl cs"; cases "tl (tl cs)") (auto simp: DecodeRune_def Let_def split: if_splits)
  qed
qed

text \<open>A rune below U+0080 is its own single byte.\<close>

lemma DecodeRune_ascii_head:
  assumes "s \<noteq> []" "fst (DecodeRune s) < 0x80"
  shows "DecodeRune s = (byte (hd s), 1)" "byte (hd s) < 0x80"
proof -
  have ne: "DecodeRune s \<noteq> (RuneError, 1)" using assms(2) by (auto simp: RuneError_def)
  have "DecodeRune s = (byte (hd s), 1) \<and> byte (hd s) < 0x80" using assms(1) ne
  proof (cases s rule: DecodeRune_cases)
    case (two a b t)
    then have "rune2 a b \<ge> 0x80" unfolding rune2_def by linarith
    with two assms show ?thesis by simp
  next
    case (three a b c t)
    then have "rune3 a b c \<ge> 0x80" unfolding rune3_def second_ok_def by (simp split: if_splits, linarith+)
    with three assms show ?thesis by simp
  next
    case (four a b c d t)
    then have "rune4 a b c d \<ge> 0x80" unfolding rune4_def second_ok_def by (simp split: if_splits, linarith+)
    with four assms show ?thesis by simp
  qed auto
  then show "DecodeRune s = (byte (hd s), 1)" "byte (hd s) < 0x80" by auto
qed

text \<open>What follows a complete rune does not matter.\<close>

lemma DecodeRune_append:
  "s \<noteq> [] \<Longrightarrow> DecodeRune s \<noteq> (RuneError, 1) \<Longrightarrow> DecodeRune (s @ t) = DecodeRune s"
  by (cases s rule: DecodeRune_cases) (auto simp: DecodeRune_def Let_def)

lemma DecodeRune_take_width:
  "s \<noteq> [] \<Longrightarrow> DecodeRune s \<noteq> (RuneError, 1) \<Longrightarrow> DecodeRune (take (snd (DecodeRune s)) s @ t) = DecodeRune s"
  by (cases s rule: DecodeRune_cases) (auto simp: DecodeRune_def Let_def)

lemma rune_append:
  assumes "s \<noteq> []" "DecodeRune s \<noteq> (RuneError, 1)"
  shows "runes_at i (take (snd (DecodeRune s)) s @ t) = (i, fst (DecodeRune s)) # runes_at (i + snd (DecodeRune s)) t"
    and "ValidString (take (snd (DecodeRune s)) s @ t) = ValidString t"
proof -
  let ?w = "snd (DecodeRune s)"
  have w: "length (take ?w s) = ?w" "?w \<noteq> 0" using DecodeRune_width_le [OF assms(1)] DecodeRune_width_pos [OF assms(1)] by auto
  then have ne: "take ?w s \<noteq> []" and d: "drop ?w (take ?w s @ t) = t" by auto
  note D = DecodeRune_take_width [OF assms, of t]
  show "runes_at i (take ?w s @ t) = (i, fst (DecodeRune s)) # runes_at (i + ?w) t"
    using ne by (subst runes_at.simps) (simp add: D d del: drop_append)
  show "ValidString (take ?w s @ t) = ValidString t"
    using ne assms(2) by (subst ValidString.simps) (simp add: D d del: drop_append)
qed

lemma ValidString_append_ascii: "list_all (\<lambda>c. byte c < 0x80) a \<Longrightarrow> ValidString (a @ s) = ValidString s"
  by (induction a) auto

lemma map_snd_runes_at: "map snd (runes_at i s) = map snd (runes_at j s)"
proof (induction i s arbitrary: j rule: runes_at.induct)
  case (1 i s)
  show ?case
  proof (cases "s = []")
    case False
    from "1.IH" [OF False, of "j + snd (DecodeRune s)"] False show ?thesis
      by (subst (1 2) runes_at.simps) (simp del: map_eq_conv)
  qed simp
qed

lemma EncodeRune_DecodeRune:
  assumes "s \<noteq> []" "DecodeRune s \<noteq> (RuneError, 1)"
  shows "EncodeRune (fst (DecodeRune s)) = take (snd (DecodeRune s)) s"
  using assms by (cases s rule: DecodeRune_cases) (simp_all add: EncodeRune_wide, simp add: EncodeRune_def)

lemma concat_EncodeRune_runes:
  "ValidString s \<Longrightarrow> concat (map (\<lambda>(i, r). EncodeRune r) (runes_at i s)) = s"
proof (induction i s rule: runes_at.induct)
  case (1 i s)
  show ?case
  proof (cases "s = []")
    case False
    note v = ValidString_drop [OF False "1.prems"]
    with "1.IH" [OF False] False show ?thesis
      by (subst runes_at.simps) (simp add: EncodeRune_DecodeRune)
  qed simp
qed

section \<open>Trimming space\<close>

text \<open>\<^verbatim>\<open>unicode.IsSpace\<close>, \<^verbatim>\<open>utf8.DecodeLastRuneInString\<close> and \<^verbatim>\<open>strings.TrimSpace\<close>.\<close>

definition IsSpace :: "nat \<Rightarrow> bool" where
  "IsSpace r \<longleftrightarrow> List.member [9, 10, 11, 12, 13, 32, 0x85, 0xA0, 0x1680, 0x2028, 0x2029, 0x202F, 0x205F, 0x3000] r
     \<or> (0x2000 \<le> r \<and> r \<le> 0x200A)"

definition RuneStart :: "char \<Rightarrow> bool" where
  "RuneStart c \<longleftrightarrow> \<not> cont_byte c"

definition DecodeLastRune :: "string \<Rightarrow> nat \<times> nat" where
  "DecodeLastRune s =
     (if s = [] then (RuneError, 0)
      else if byte (last s) < 0x80 then (byte (last s), 1)
      else case List.find (\<lambda>k. k \<le> length s \<and> RuneStart (s ! (length s - k))) [2, 3, 4] of
          None \<Rightarrow> (RuneError, 1)
        | Some k \<Rightarrow>
            if snd (DecodeRune (drop (length s - k) s)) = k then DecodeRune (drop (length s - k) s)
            else (RuneError, 1))"

function TrimLeftSpace :: "string \<Rightarrow> string" where
  "TrimLeftSpace s =
     (if s = [] then []
      else if IsSpace (fst (DecodeRune s)) then TrimLeftSpace (drop (snd (DecodeRune s)) s)
      else s)"
  by pat_completeness auto
termination
  by (relation "measure length") (auto simp: drop_DecodeRune_less)

lemma DecodeLastRune_width_pos: "s \<noteq> [] \<Longrightarrow> 1 \<le> snd (DecodeLastRune s)"
  by (auto simp: DecodeLastRune_def find_Some_iff split: option.splits)

lemma DecodeLastRune_width_less: "s \<noteq> [] \<Longrightarrow> length s - snd (DecodeLastRune s) < length s"
  using DecodeLastRune_width_pos [of s] by (cases s) auto

function TrimRightSpace :: "string \<Rightarrow> string" where
  "TrimRightSpace s =
     (if s = [] then []
      else if IsSpace (fst (DecodeLastRune s)) then TrimRightSpace (take (length s - snd (DecodeLastRune s)) s)
      else s)"
  by pat_completeness auto
termination
  by (relation "measure length") (auto simp: DecodeLastRune_width_less)

declare TrimLeftSpace.simps [simp del] TrimRightSpace.simps [simp del]

definition TrimSpace :: "string \<Rightarrow> string" where
  "TrimSpace s = TrimRightSpace (TrimLeftSpace s)"

lemma IsSpace_RuneError [simp]: "\<not> IsSpace RuneError"
  by (simp add: IsSpace_def RuneError_def)

lemma TrimLeftSpace_Nil [simp]: "TrimLeftSpace [] = []"
  by (simp add: TrimLeftSpace.simps)

lemma TrimRightSpace_Nil [simp]: "TrimRightSpace [] = []"
  by (simp add: TrimRightSpace.simps)

lemma TrimLeftSpace_ascii [simp]:
  "byte c < 0x80 \<Longrightarrow> TrimLeftSpace (c # cs) = (if IsSpace (byte c) then TrimLeftSpace cs else c # cs)"
  by (subst TrimLeftSpace.simps) simp

lemma DecodeRune_take:
  assumes "s \<noteq> []" "0 < m"
  shows "DecodeRune (take m s) = DecodeRune s \<or> DecodeRune (take m s) = (RuneError, 1)"
proof (rule disjCI)
  assume ne: "DecodeRune (take m s) \<noteq> (RuneError, 1)"
  have "take m s \<noteq> []" using assms by simp
  moreover obtain t where t: "s = take m s @ t" by (metis append_take_drop_id)
  ultimately show "DecodeRune (take m s) = DecodeRune s" using ne t DecodeRune_append by metis
qed

lemma DecodeLastRune_whole:
  assumes "s \<noteq> []" "length s \<le> snd (DecodeLastRune s)"
  shows "DecodeLastRune s = DecodeRune s \<or> DecodeLastRune s = (RuneError, 1)"
proof (cases "byte (last s) < 0x80")
  case True
  with assms have "length s = 1" by (cases s) (auto simp: DecodeLastRune_def)
  with True show ?thesis by (auto simp: DecodeLastRune_def length_Suc_conv)
next
  case False
  with assms show ?thesis
    by (auto simp: DecodeLastRune_def split: option.splits)
qed

lemma TrimRightSpace_not_Nil:
  "s \<noteq> [] \<Longrightarrow> \<not> IsSpace (fst (DecodeRune s)) \<Longrightarrow> TrimRightSpace s \<noteq> []"
proof (induction s rule: TrimRightSpace.induct)
  case (1 s)
  let ?m = "length s - snd (DecodeLastRune s)"
  show ?case
  proof (cases "IsSpace (fst (DecodeLastRune s))")
    case True
    have "\<not> length s \<le> snd (DecodeLastRune s)"
      using DecodeLastRune_whole [OF "1.prems"(1)] True "1.prems"(2) by auto
    then have m: "0 < ?m" by simp
    have "\<not> IsSpace (fst (DecodeRune (take ?m s)))"
      using DecodeRune_take [OF "1.prems"(1) m] "1.prems"(2) by auto
    with "1.IH" [OF "1.prems"(1) True] m "1.prems"(1) show ?thesis
      using True by (subst TrimRightSpace.simps) simp
  next
    case False
    with "1.prems" show ?thesis by (subst TrimRightSpace.simps) simp
  qed
qed

text \<open>A string is blank exactly when every rune of it is a space.\<close>

lemma TrimLeftSpace_head: "TrimLeftSpace s = [] \<or> \<not> IsSpace (fst (DecodeRune (TrimLeftSpace s)))"
proof (induction s rule: TrimLeftSpace.induct)
  case (1 s)
  then show ?case by (subst (1 2) TrimLeftSpace.simps) auto
qed

lemma TrimSpace_Nil_iff: "TrimSpace s = [] \<longleftrightarrow> TrimLeftSpace s = []"
  using TrimLeftSpace_head [of s] TrimRightSpace_not_Nil by (auto simp: TrimSpace_def)

lemma TrimLeftSpace_Nil_iff: "TrimLeftSpace s = [] \<longleftrightarrow> list_all (\<lambda>(i, r). IsSpace r) (runes_at i s)"
proof (induction s arbitrary: i rule: TrimLeftSpace.induct)
  case (1 s)
  then show ?case by (subst TrimLeftSpace.simps, subst runes_at.simps) auto
qed

end
