(* ===== verification/Feature_Identity.thy ===== *)
theory Feature_Identity
  imports Go_Utf8
begin

text \<open>
  Feature identity, \<^verbatim>\<open>src/feature/identity.go\<close>: the physical key of a stored object, and
  the reversible encoding of a collection name and a numeric identifier as a WFS feature
  identifier (an XML NCName). The lemmas show that decoding inverts encoding on
  well-formed UTF-8, that every encoded identifier is an NCName, and which inputs the
  decoder rejects.
\<close>

section \<open>Physical keys\<close>

record PhysicalFeatureKey =
  Domain :: string
  Relation :: string
  PK :: string
  SourceIncarnation :: string
  EntityIncarnation :: u64

definition PhysicalFeatureKey_String :: "PhysicalFeatureKey \<Rightarrow> string" where
  "PhysicalFeatureKey_String k =
     (let base = Domain k @ ''.'' @ Relation k @ ''.'' @ PK k
      in if SourceIncarnation k \<noteq> '''' \<or> EntityIncarnation k \<noteq> 0
         then base @ ''#s'' @ SourceIncarnation k @ ''#e'' @ FormatUint (unat (EntityIncarnation k))
         else base)"

section \<open>NCName escapes\<close>

datatype fid_error =
    EmptyCollection
  | NoSafeCharacters string
  | MalformedFID string
  | InvalidEscape
  | InvalidNumber string

definition is_letter :: "nat \<Rightarrow> bool" where
  "is_letter r \<longleftrightarrow> 97 \<le> r \<and> r \<le> 122 \<or> 65 \<le> r \<and> r \<le> 90"

definition is_name_tail :: "nat \<Rightarrow> bool" where
  "is_name_tail r \<longleftrightarrow> 48 \<le> r \<and> r \<le> 57 \<or> r = 46 \<or> r = 45"

text \<open>\<^verbatim>\<open>fmt.Fprintf(&b, "_x%02X_", c)\<close>\<close>

definition hex_upper :: "nat \<Rightarrow> char" where
  "hex_upper d = (if d < 10 then char_of (48 + d) else char_of (55 + d))"

definition escape_byte :: "char \<Rightarrow> string" where
  "escape_byte c =
     [CHR ''_'', CHR ''x'', hex_upper (byte c div 16), hex_upper (byte c mod 16), CHR ''_'']"

definition encode_rune_at :: "nat \<Rightarrow> nat \<Rightarrow> string" where
  "encode_rune_at i r =
     (if is_letter r then EncodeRune r
      else if r = 95 then concat (map escape_byte ''_'')
      else if is_name_tail r \<and> i \<noteq> 0 then EncodeRune r
      else concat (map escape_byte (EncodeRune r)))"

definition encodeNCName :: "string \<Rightarrow> string" where
  "encodeNCName s =
     (let out = concat (map (\<lambda>(i, r). encode_rune_at i r) (runes_at 0 s))
      in if out = [] then []
         else if is_name_tail (byte (hd out)) then CHR ''_'' # out
         else out)"

definition sanitizeNCName :: "string \<Rightarrow> string" where
  "sanitizeNCName s = encodeNCName s"

text \<open>
  \<^verbatim>\<open>fmt.Sscanf(s[i:i+5], "_x%02X_", &v)\<close> on a slice whose first, second and last bytes
  already match: leading blanks (not a newline) are skipped, then one or two hexadecimal
  digits are read, then an underscore must follow.
\<close>

definition hex_val :: "char \<Rightarrow> nat option" where
  "hex_val c =
     (if 48 \<le> byte c \<and> byte c \<le> 57 then Some (byte c - 48)
      else if 65 \<le> byte c \<and> byte c \<le> 70 then Some (byte c - 55)
      else if 97 \<le> byte c \<and> byte c \<le> 102 then Some (byte c - 87)
      else None)"

definition scan_blank :: "char \<Rightarrow> bool" where
  "scan_blank c \<longleftrightarrow> byte c \<in> {9, 11, 12, 13, 32}"

definition scan_02X :: "char \<Rightarrow> char \<Rightarrow> nat option" where
  "scan_02X c d = (case hex_val c of
       Some h \<Rightarrow> (case hex_val d of
           Some l \<Rightarrow> Some (16 * h + l)
         | None \<Rightarrow> if d = CHR ''_'' then Some h else None)
     | None \<Rightarrow> if scan_blank c then hex_val d else None)"

fun decodeNCName :: "string \<Rightarrow> fid_error + string" where
  "decodeNCName (a # b # c # d # e # t) =
     (if a = CHR ''_'' \<and> b = CHR ''x'' \<and> e = CHR ''_''
      then (case scan_02X c d of
              None \<Rightarrow> Inl InvalidEscape
            | Some v \<Rightarrow> map_sum id (Cons (char_of v)) (decodeNCName t))
      else map_sum id (Cons a) (decodeNCName (b # c # d # e # t)))"
| "decodeNCName s = Inr s"

section \<open>WFS feature identifiers\<close>

definition EncodeWFSFID :: "string \<Rightarrow> u64 \<Rightarrow> fid_error + string" where
  "EncodeWFSFID collection n =
     (if collection = [] then Inl EmptyCollection
      else let safe = encodeNCName collection in
        if safe = [] then Inl (NoSafeCharacters collection)
        else Inr (safe @ ''.'' @ FormatUint (unat n)))"

definition DecodeWFSFID :: "string \<Rightarrow> fid_error + (string \<times> u64)" where
  "DecodeWFSFID fid = (case last_index_byte (CHR ''.'') fid of
       None \<Rightarrow> Inl (MalformedFID fid)
     | Some idx \<Rightarrow>
         if idx = 0 \<or> idx = length fid - 1 then Inl (MalformedFID fid)
         else (case decodeNCName (take idx fid) of
             Inl e \<Rightarrow> Inl e
           | Inr collection \<Rightarrow> (case ParseUint 64 (drop (idx + 1) fid) of
                 None \<Rightarrow> Inl (InvalidNumber (drop (idx + 1) fid))
               | Some n \<Rightarrow> Inr (collection, of_nat n))))"

section \<open>Escapes are reversible\<close>

lemma hex_upper_bytes: "d < 16 \<Longrightarrow> byte (hex_upper d) = (if d < 10 then 48 + d else 55 + d)"
  by (simp add: hex_upper_def)

lemma hex_val_hex_upper [simp]: "d < 16 \<Longrightarrow> hex_val (hex_upper d) = Some d"
  by (auto simp: hex_val_def hex_upper_bytes)

lemma scan_escape [simp]:
  "scan_02X (hex_upper (byte c div 16)) (hex_upper (byte c mod 16)) = Some (byte c)"
proof -
  have "byte c div 16 < 16" using byte_lt_256 [of c] by linarith
  then show ?thesis by (simp add: scan_02X_def)
qed

lemma decodeNCName_escape [simp]:
  "decodeNCName (escape_byte c @ t) = map_sum id (Cons c) (decodeNCName t)"
  by (simp add: escape_byte_def)

lemma decodeNCName_plain [simp]:
  "a \<noteq> CHR ''_'' \<Longrightarrow> decodeNCName (a # t) = map_sum id (Cons a) (decodeNCName t)"
  by (cases t rule: decodeNCName.cases) auto

lemma decodeNCName_escapes [simp]:
  "decodeNCName (concat (map escape_byte s) @ t) = map_sum id (append s) (decodeNCName t)"
proof (induction s)
  case Nil
  show ?case by (cases "decodeNCName t") auto
next
  case (Cons c s)
  then show ?case by (cases "decodeNCName t") auto
qed

lemma decodeNCName_encode_rune:
  "decodeNCName (encode_rune_at i r @ t) = map_sum id (append (EncodeRune r)) (decodeNCName t)"
proof -
  have one: "EncodeRune r = [char_of r] \<and> char_of r \<noteq> CHR ''_''"
    if "is_letter r \<or> is_name_tail r"
    using that by (auto simp: EncodeRune_def is_letter_def is_name_tail_def eq_char_iff)
  show ?thesis
  proof (cases "is_letter r \<or> is_name_tail r \<and> i \<noteq> 0")
    case True
    with one have "encode_rune_at i r = EncodeRune r" "EncodeRune r = [char_of r]" "char_of r \<noteq> CHR ''_''"
      by (auto simp: encode_rune_at_def is_name_tail_def)
    then show ?thesis by (cases "decodeNCName t") auto
  next
    case False
    have "EncodeRune 95 = ''_''" by (simp add: EncodeRune_def) (simp add: eq_char_iff)
    with False have "encode_rune_at i r = concat (map escape_byte (EncodeRune r))"
      by (auto simp: encode_rune_at_def)
    then show ?thesis by simp
  qed
qed

lemma decodeNCName_encode_runes:
  "decodeNCName (concat (map (\<lambda>(i, r). encode_rune_at i r) rs)) =
     Inr (concat (map (\<lambda>(i, r). EncodeRune r) rs))"
  by (induction rs) (auto simp: decodeNCName_encode_rune)

section \<open>Encoded names are NCNames\<close>

definition nc_start :: "char \<Rightarrow> bool" where
  "nc_start c \<longleftrightarrow> is_letter (byte c) \<or> c = CHR ''_''"

definition nc_char :: "char \<Rightarrow> bool" where
  "nc_char c \<longleftrightarrow> nc_start c \<or> is_name_tail (byte c)"

definition ncname :: "string \<Rightarrow> bool" where
  "ncname s \<longleftrightarrow> s \<noteq> [] \<and> nc_start (hd s) \<and> list_all nc_char s"

lemma nc_char_hex: "d < 16 \<Longrightarrow> nc_char (hex_upper d)"
  by (auto simp: nc_char_def nc_start_def is_letter_def is_name_tail_def hex_upper_bytes)

lemma nc_char_escape: "list_all nc_char (escape_byte c)"
proof -
  have "byte c div 16 < 16" using byte_lt_256 [of c] by linarith
  then show ?thesis
    by (simp add: escape_byte_def nc_char_hex) (simp add: nc_char_def nc_start_def is_letter_def)
qed

lemma nc_char_escapes: "list_all nc_char (concat (map escape_byte s))"
  by (induction s) (auto simp: nc_char_escape)

lemma nc_char_encode_rune: "list_all nc_char (encode_rune_at i r)"
proof (cases "is_letter r \<or> is_name_tail r")
  case True
  then have "EncodeRune r = [char_of r]" "byte (char_of r) = r"
    by (auto simp: EncodeRune_def is_letter_def is_name_tail_def)
  then show ?thesis using True
    by (auto simp: encode_rune_at_def nc_char_def nc_start_def nc_char_escape)
next
  case False
  then show ?thesis by (auto simp: encode_rune_at_def nc_char_escapes nc_char_escape)
qed

lemma EncodeRune_not_Nil [simp]: "EncodeRune r \<noteq> []"
  by (simp add: EncodeRune_def)

lemma encode_rune_start: "encode_rune_at 0 r \<noteq> [] \<and> nc_start (hd (encode_rune_at 0 r))"
proof -
  have esc: "concat (map escape_byte s) \<noteq> [] \<and> hd (concat (map escape_byte s)) = CHR ''_''" if "s \<noteq> []" for s
    using that by (cases s) (auto simp: escape_byte_def)
  show ?thesis
  proof (cases "is_letter r")
    case True
    then have "EncodeRune r = [char_of r]" "byte (char_of r) = r"
      by (auto simp: EncodeRune_def is_letter_def)
    with True show ?thesis by (simp add: encode_rune_at_def nc_start_def)
  next
    case False
    have "encode_rune_at 0 r = concat (map escape_byte (if r = 95 then ''_'' else EncodeRune r))"
      using False by (simp add: encode_rune_at_def)
    with esc [of "if r = 95 then ''_'' else EncodeRune r"] show ?thesis by (simp add: nc_start_def)
  qed
qed

lemma nc_start_not_tail: "nc_start c \<Longrightarrow> \<not> is_name_tail (byte c)"
  by (auto simp: nc_start_def is_letter_def is_name_tail_def)

lemma encode_body_start:
  assumes "s \<noteq> []"
  shows "ncname (concat (map (\<lambda>(i, r). encode_rune_at i r) (runes_at 0 s)))"
proof -
  obtain r rs where rs: "runes_at 0 s = (0, r) # rs"
    using assms runes_at.simps [of 0 s] by auto
  have "list_all nc_char (concat (map (\<lambda>(i, r). encode_rune_at i r) xs))" for xs
    by (induction xs) (auto simp: nc_char_encode_rune)
  with encode_rune_start [of r] show ?thesis 
    by (simp add: rs ncname_def hd_append nc_char_encode_rune)
qed

text \<open>The guard that would prepend an underscore never fires.\<close>

lemma encodeNCName_eq:
  "s \<noteq> [] \<Longrightarrow> encodeNCName s = concat (map (\<lambda>(i, r). encode_rune_at i r) (runes_at 0 s))"
  using encode_body_start [of s] nc_start_not_tail
  by (auto simp: encodeNCName_def Let_def ncname_def)

lemma ncname_encodeNCName: "s \<noteq> [] \<Longrightarrow> ncname (encodeNCName s)"
  by (simp add: encodeNCName_eq encode_body_start)

lemma decodeNCName_encodeNCName: "ValidString s \<Longrightarrow> decodeNCName (encodeNCName s) = Inr s"
proof (cases "s = []")
  case True
  then show ?thesis by (simp add: encodeNCName_def)
next
  case False
  assume "ValidString s"
  with False show ?thesis
    by (simp add: encodeNCName_eq decodeNCName_encode_runes concat_EncodeRune_runes)
qed

section \<open>Feature identifiers round-trip\<close>

lemma EncodeWFSFID_eq:
  "c \<noteq> [] \<Longrightarrow> EncodeWFSFID c n = Inr (encodeNCName c @ ''.'' @ FormatUint (unat n))"
  using ncname_encodeNCName [of c] by (auto simp: EncodeWFSFID_def Let_def ncname_def)

lemma decodeNCName_not_Nil: "s \<noteq> [] \<Longrightarrow> decodeNCName s \<noteq> Inr []"
proof (cases s rule: decodeNCName.cases)
  case (1 a b c d e t)
  then show ?thesis
    by (cases "decodeNCName t"; cases "decodeNCName (b # c # d # e # t)") (auto split: option.splits)
qed auto

lemma dot_notin_FormatUint [simp]: "CHR ''.'' \<notin> set (FormatUint n)"
  using FormatUint_digits [of n] by (auto simp: list_all_iff is_digit_def)

lemma DecodeWFSFID_append:
  assumes "safe \<noteq> []"
  shows "DecodeWFSFID (safe @ ''.'' @ FormatUint (unat n)) =
    map_sum id (\<lambda>c. (c, n)) (decodeNCName safe)"
proof -
  have "ParseUint 64 (FormatUint (unat n)) = Some (unat n)"
    by (rule ParseUint_FormatUint) (rule unat_u64_less)
  then show ?thesis using assms by (auto simp: DecodeWFSFID_def split: sum.splits)
qed

lemmas fid_eval =
  EncodeWFSFID_def encodeNCName_def encode_rune_at_def is_letter_def is_name_tail_def escape_byte_def
  hex_upper_def EncodeRune_def FormatUint.simps digit_char_def Let_def eq_char_iff
  DecodeWFSFID_def ParseUint_def is_digit_def digits_val_def digit_val_def scan_02X_def hex_val_def

text \<open>
  C20. A WFS feature identifier is reversible: for every non-empty well-formed UTF-8
  collection name and every 64-bit identifier, encoding succeeds and decoding the result
  returns exactly that collection and that identifier.
\<close>

theorem wfs_fid_roundtrip:
  assumes "collection \<noteq> []" "ValidString collection"
  shows "\<exists>fid. EncodeWFSFID collection n = Inr fid \<and> DecodeWFSFID fid = Inr (collection, n)"
  using assms ncname_encodeNCName [of collection]
  by (simp add: EncodeWFSFID_eq DecodeWFSFID_append [simplified] ncname_def decodeNCName_encodeNCName)


theorem wfs_fid_roundtrip_witness:
  "\<exists>fid. EncodeWFSFID ''a_b.c'' 42 = Inr fid \<and> DecodeWFSFID fid = Inr (''a_b.c'', 42)"
  by (rule wfs_fid_roundtrip) (simp_all add: ValidString_ascii_all)

text \<open>
  Every feature identifier the encoder produces is a legal XML NCName: it starts
  with a letter or an underscore and continues with letters, digits, underscores, dots
  and hyphens, whatever bytes the collection name holds.
\<close>

theorem wfs_fid_is_ncname:
  assumes "EncodeWFSFID collection n = Inr fid"
  shows "ncname fid"
proof -
  have c: "collection \<noteq> []" using assms by (auto simp: EncodeWFSFID_def)
  have "list_all nc_char (FormatUint (unat n))"
    using FormatUint_digits [of "unat n"]
    by (auto simp: list_all_iff is_digit_def nc_char_def is_name_tail_def)
  moreover have "nc_char (CHR ''.'')" by (simp add: nc_char_def is_name_tail_def)
  ultimately show ?thesis
    using assms ncname_encodeNCName [OF c] by (auto simp: EncodeWFSFID_eq c ncname_def hd_append)
qed

theorem wfs_fid_is_ncname_witness:
  "EncodeWFSFID ''9 lives'' 7 = Inr ''_x39__x20_lives.7'' \<and> ncname ''_x39__x20_lives.7''"
proof -
  have e: "EncodeWFSFID ''9 lives'' 7 = Inr ''_x39__x20_lives.7''"
    by (simp add: fid_eval)
  show ?thesis using e wfs_fid_is_ncname [OF e] by simp
qed

text \<open>
  A decoded feature identifier always names a collection: when decoding succeeds the
  collection is non-empty and the identifier ends in a dot followed by the decimal digits
  of the returned 64-bit number, so no identifier without a collection or with a number
  out of range is accepted.
\<close>

theorem wfs_fid_decode_sound:
  assumes "DecodeWFSFID fid = Inr (collection, n)"
  shows "collection \<noteq> [] \<and>
    (\<exists>pre digs. fid = pre @ ''.'' @ digs \<and> pre \<noteq> [] \<and> decodeNCName pre = Inr collection \<and>
       digs \<noteq> [] \<and> list_all is_digit digs \<and> digits_val digs = unat n)"
proof -
  obtain idx k where i: "last_index_byte (CHR ''.'') fid = Some idx" "idx \<noteq> 0"
    and d: "decodeNCName (take idx fid) = Inr collection"
    and k: "ParseUint 64 (drop (Suc idx) fid) = Some k" "n = of_nat k"
    using assms by (auto simp: DecodeWFSFID_def split: option.splits if_splits sum.splits)
  have fid: "fid = take idx fid @ ''.'' @ drop (Suc idx) fid" and "idx < length fid"
    using last_index_byte_SomeD [OF i(1)] by auto
  then have pre: "take idx fid \<noteq> []" using i(2) by auto
  have "unat n = k" using ParseUint_bound [OF k(1)] k(2) by (simp add: unat_of_nat)
  with ParseUint_SomeD [OF k(1)] have "drop (Suc idx) fid \<noteq> []" "list_all is_digit (drop (Suc idx) fid)"
    "digits_val (drop (Suc idx) fid) = unat n" by auto
  moreover have "collection \<noteq> []"
    using d pre decodeNCName_not_Nil by blast
  ultimately show ?thesis using fid pre d by blast
qed

theorem wfs_fid_decode_sound_witness:
  "DecodeWFSFID ''roads.12'' = Inr (''roads'', 12) \<and> ''roads'' \<noteq> []"
proof -
  have d: "DecodeWFSFID ''roads.12'' = Inr (''roads'', 12)" by (simp add: fid_eval)
  show ?thesis using d wfs_fid_decode_sound [OF d] by blast
qed

end
