(* ===== verification/Wfs_Lock.thy ===== *)
theory Wfs_Lock
  imports Go_Prelude "HOL-Library.AList"
begin

text \<open>
  WFS feature locks, \<^verbatim>\<open>src/ogc/wfs/lockstore.go\<close> and \<^verbatim>\<open>src/ogc/wfs/lockfeature.go\<close>: the
  in-memory store, the database store with its two tables and their constraints, and the
  contract both promise, the locale \<open>lock_store\<close>. Times are nanoseconds; the memory store
  compares \<^verbatim>\<open>time.Time\<close> values, the database store \<^verbatim>\<open>UnixNano\<close> readings, which wrap around
  at 64 bits. The current time and the random token of \<^verbatim>\<open>newLockID\<close> are arguments. Each
  operation runs under the store's mutex or in one serialisable transaction, so it is one
  step. A database statement may fail at any point: \<open>fault\<close> says which, given the feature
  identifier the statement binds, since a driver may refuse to bind it.
\<close>

declare map_of_eq_Some_iff [simp del]

section \<open>Names and leases\<close>

definition stripPrefix :: "string \<Rightarrow> string" where
  "stripPrefix qname = (case index_byte (CHR '':'') qname of
       Some i \<Rightarrow> drop (i + 1) qname
     | None \<Rightarrow> qname)"

definition normalizeTypeName :: "string \<Rightarrow> string" where
  "normalizeTypeName tn = stripPrefix tn"

record FeatureLock =
  ID :: string
  TypeName :: string
  FeatureIDs :: "u64 list"
  Owner :: string
  Acquired :: int
  Expires :: int

definition defaultExpiry :: int where
  "defaultExpiry = 5 * 60 * 1000000000"

definition effective_expiry :: "int \<Rightarrow> int" where
  "effective_expiry expiry = (if expiry \<le> 0 then defaultExpiry else expiry)"

datatype ExceptionCode =
  ExceptionInvalidParameterValue | ExceptionMissingParameterValue
| ExceptionOperationNotSupported | ExceptionNoApplicableCode

text \<open>The texts of the exceptions a lock check raises, with what they mention.\<close>

datatype lock_text =
  UnknownLock string | LockExpired | TypeNotCovered | FeatureNotCovered
| NotCoveredOrExpired string string u64 | LockStoreError

record Exception =
  Code :: ExceptionCode
  Locator :: string
  Text :: lock_text

definition lock_exception :: "ExceptionCode \<Rightarrow> lock_text \<Rightarrow> Exception" where
  "lock_exception c t = \<lparr>Code = c, Locator = ''lockId'', Text = t\<rparr>"

section \<open>The in-memory store\<close>

type_synonym memoryLockStore = "(string \<times> FeatureLock) list"

definition mem_New :: memoryLockStore where
  "mem_New = []"

definition mem_purge :: "int \<Rightarrow> memoryLockStore \<Rightarrow> memoryLockStore" where
  "mem_purge now s = filter (\<lambda>(i, l). \<not> Expires l < now) s"

definition mem_conflict :: "memoryLockStore \<Rightarrow> string \<Rightarrow> u64 list \<Rightarrow> bool" where
  "mem_conflict s norm ids =
     list_ex (\<lambda>(i, l). normalizeTypeName (TypeName l) = norm \<and>
        list_ex (\<lambda>x. List.member (FeatureIDs l) x) ids) s"

definition mem_Acquire ::
  "int \<Rightarrow> string \<Rightarrow> memoryLockStore \<Rightarrow> string \<Rightarrow> u64 list \<Rightarrow> string \<Rightarrow> int \<Rightarrow>
     FeatureLock option \<times> memoryLockStore" where
  "mem_Acquire now newID s typeName ids owner expiry =
     (let s1 = mem_purge now s; norm = normalizeTypeName typeName in
      if mem_conflict s1 norm ids then (None, s1)
      else let lock = \<lparr>ID = newID, TypeName = typeName, FeatureIDs = ids, Owner = owner,
                       Acquired = now, Expires = now + effective_expiry expiry\<rparr>
           in (Some lock, AList.update newID lock s1))"

definition mem_Release :: "memoryLockStore \<Rightarrow> string \<Rightarrow> memoryLockStore" where
  "mem_Release s i = AList.delete i s"

definition mem_Check ::
  "int \<Rightarrow> memoryLockStore \<Rightarrow> string \<Rightarrow> string \<Rightarrow> u64 \<Rightarrow> Exception option \<times> memoryLockStore" where
  "mem_Check now s lockID typeName featureID = (case map_of s lockID of
       None \<Rightarrow> (Some (lock_exception ExceptionInvalidParameterValue (UnknownLock lockID)), s)
     | Some l \<Rightarrow>
         if Expires l < now
         then (Some (lock_exception ExceptionInvalidParameterValue LockExpired), AList.delete lockID s)
         else if normalizeTypeName (TypeName l) \<noteq> normalizeTypeName typeName
         then (Some (lock_exception ExceptionInvalidParameterValue TypeNotCovered), s)
         else if List.member (FeatureIDs l) featureID then (None, s)
         else (Some (lock_exception ExceptionInvalidParameterValue FeatureNotCovered), s))"

definition mem_IsLocked :: "int \<Rightarrow> memoryLockStore \<Rightarrow> string \<Rightarrow> u64 \<Rightarrow> bool" where
  "mem_IsLocked now s typeName featureID =
     list_ex (\<lambda>(i, l). \<not> Expires l < now \<and>
        normalizeTypeName (TypeName l) = normalizeTypeName typeName \<and>
        List.member (FeatureIDs l) featureID) s"

section \<open>The database store\<close>

record lease =
  lease_id :: string
  lease_owner :: string
  acquired_at :: int
  expires_at :: int

record lock_member =
  m_lock_id :: string
  type_name :: string
  feature_id :: u64

record lock_db =
  leases :: "lease list"
  members :: "lock_member list"

datatype sql_stmt =
  BeginTx | DeleteExpiredMembers | DeleteExpiredLeases | SelectConflict nat u64 | InsertLease
| InsertMember nat u64 | Commit | CommitAcknowledgement
| DeleteMembers | DeleteLease | SelectCover u64 | SelectLocked u64

datatype sql_error = StorageFailure sql_stmt | ConstraintViolation sql_stmt

text \<open>
  What refuses a statement when the storage itself works: drivers with the default parameter
  conversion of \<^verbatim>\<open>database/sql\<close>, SQLite's among them, do not bind a \<^verbatim>\<open>uint64\<close> whose high bit is
  set.
\<close>

fun bound_id :: "sql_stmt \<Rightarrow> u64 option" where
  "bound_id (SelectConflict k f) = Some f"
| "bound_id (InsertMember k f) = Some f"
| "bound_id (SelectCover f) = Some f"
| "bound_id (SelectLocked f) = Some f"
| "bound_id _ = None"

definition sqlite_driver :: "sql_stmt \<Rightarrow> bool" where
  "sqlite_driver s = (case bound_id s of Some f \<Rightarrow> 2 ^ 63 \<le> unat f | None \<Rightarrow> False)"

text \<open>\<^verbatim>\<open>Time.UnixNano\<close>, an \<^verbatim>\<open>int64\<close>.\<close>

definition unix_nano :: "int \<Rightarrow> int" where
  "unix_nano t = (t + 2 ^ 63) mod 2 ^ 64 - 2 ^ 63"

definition clock_range :: "int \<Rightarrow> bool" where
  "clock_range t \<longleftrightarrow> - (2 ^ 63) \<le> t \<and> t < 2 ^ 63"

lemma unix_nano_id [simp]: "clock_range t \<Longrightarrow> unix_nano t = t"
  by (simp add: unix_nano_def clock_range_def)

text \<open>The rows of a \<^verbatim>\<open>JOIN\<close> of members and leases that are live at \<open>now\<close>.\<close>

definition live_member :: "lock_db \<Rightarrow> int \<Rightarrow> lock_member \<Rightarrow> bool" where
  "live_member d now m = list_ex (\<lambda>l. lease_id l = m_lock_id m \<and> now \<le> expires_at l) (leases d)"

definition sql_covers :: "lock_db \<Rightarrow> int \<Rightarrow> string \<Rightarrow> string \<Rightarrow> u64 \<Rightarrow> bool" where
  "sql_covers d now i norm f =
     list_ex (\<lambda>m. m_lock_id m = i \<and> type_name m = norm \<and> feature_id m = f \<and> live_member d now m) (members d)"

definition sql_any :: "lock_db \<Rightarrow> int \<Rightarrow> string \<Rightarrow> u64 \<Rightarrow> bool" where
  "sql_any d now norm f =
     list_ex (\<lambda>m. type_name m = norm \<and> feature_id m = f \<and> live_member d now m) (members d)"

definition sql_purge :: "int \<Rightarrow> lock_db \<Rightarrow> lock_db" where
  "sql_purge now d =
     (let d1 = d\<lparr>members := filter (\<lambda>m. \<not> list_ex (\<lambda>l. lease_id l = m_lock_id m \<and> expires_at l < now) (leases d)) (members d)\<rparr>
      in d1\<lparr>leases := filter (\<lambda>l. \<not> expires_at l < now) (leases d1)\<rparr>)"

fun sql_conflicts :: "(sql_stmt \<Rightarrow> bool) \<Rightarrow> lock_db \<Rightarrow> int \<Rightarrow> string \<Rightarrow> nat \<Rightarrow> u64 list \<Rightarrow> sql_error + bool" where
  "sql_conflicts fault d now norm k [] = Inr False"
| "sql_conflicts fault d now norm k (f # ids) =
     (if fault (SelectConflict k f) then Inl (StorageFailure (SelectConflict k f))
      else if sql_any d now norm f then Inr True
      else sql_conflicts fault d now norm (Suc k) ids)"

definition insert_lease :: "lease \<Rightarrow> lock_db \<Rightarrow> lock_db option" where
  "insert_lease l d =
     (if list_ex (\<lambda>l'. lease_id l' = lease_id l) (leases d) then None
      else Some (d\<lparr>leases := leases d @ [l]\<rparr>))"

text \<open>The primary key and the unique guard on \<^verbatim>\<open>(type_name, feature_id)\<close>.\<close>

definition insert_member :: "lock_member \<Rightarrow> lock_db \<Rightarrow> lock_db option" where
  "insert_member m d =
     (if list_ex (\<lambda>m'. type_name m' = type_name m \<and> feature_id m' = feature_id m) (members d) then None
      else Some (d\<lparr>members := members d @ [m]\<rparr>))"

fun insert_members :: "(sql_stmt \<Rightarrow> bool) \<Rightarrow> string \<Rightarrow> string \<Rightarrow> nat \<Rightarrow> u64 list \<Rightarrow> lock_db \<Rightarrow> sql_error + lock_db" where
  "insert_members fault i norm k [] d = Inr d"
| "insert_members fault i norm k (f # ids) d =
     (if fault (InsertMember k f) then Inl (StorageFailure (InsertMember k f))
      else case insert_member \<lparr>m_lock_id = i, type_name = norm, feature_id = f\<rparr> d of
          None \<Rightarrow> Inl (ConstraintViolation (InsertMember k f))
        | Some d' \<Rightarrow> insert_members fault i norm (Suc k) ids d')"

text \<open>
  \<^verbatim>\<open>tx.Commit\<close>: it may fail with nothing written, or the acknowledgement may be lost
  after the rows were written; both are an error to the caller.
\<close>

definition commit_tx :: "(sql_stmt \<Rightarrow> bool) \<Rightarrow> 'a \<Rightarrow> lock_db \<Rightarrow> lock_db \<Rightarrow> (sql_error + 'a) \<times> lock_db" where
  "commit_tx fault r old new =
     (if fault Commit then (Inl (StorageFailure Commit), old)
      else if fault CommitAcknowledgement then (Inl (StorageFailure CommitAcknowledgement), new)
      else (Inr r, new))"

definition sql_Acquire ::
  "(sql_stmt \<Rightarrow> bool) \<Rightarrow> int \<Rightarrow> string \<Rightarrow> lock_db \<Rightarrow> string \<Rightarrow> u64 list \<Rightarrow> string \<Rightarrow> int \<Rightarrow>
     (sql_error + FeatureLock option) \<times> lock_db" where
  "sql_Acquire fault now newID d typeName ids owner expiry =
     (let exp = now + effective_expiry expiry; norm = normalizeTypeName typeName;
          nowNano = unix_nano now; expNano = unix_nano exp in
      if fault BeginTx then (Inl (StorageFailure BeginTx), d)
      else if fault DeleteExpiredMembers then (Inl (StorageFailure DeleteExpiredMembers), d)
      else if fault DeleteExpiredLeases then (Inl (StorageFailure DeleteExpiredLeases), d)
      else let d1 = sql_purge nowNano d in
        (case sql_conflicts fault d1 nowNano norm 0 ids of
           Inl e \<Rightarrow> (Inl e, d)
         | Inr True \<Rightarrow> (Inr None, d)
         | Inr False \<Rightarrow>
             if fault InsertLease then (Inl (StorageFailure InsertLease), d)
             else (case insert_lease \<lparr>lease_id = newID, lease_owner = owner, acquired_at = nowNano, expires_at = expNano\<rparr> d1 of
                 None \<Rightarrow> (Inl (ConstraintViolation InsertLease), d)
               | Some d2 \<Rightarrow> (case insert_members fault newID norm 0 ids d2 of
                     Inl e \<Rightarrow> (Inl e, d)
                   | Inr d3 \<Rightarrow>
                       commit_tx fault (Some \<lparr>ID = newID, TypeName = typeName, FeatureIDs = ids, Owner = owner,
                                               Acquired = now, Expires = exp\<rparr>) d d3))))"

definition sql_Release :: "(sql_stmt \<Rightarrow> bool) \<Rightarrow> lock_db \<Rightarrow> string \<Rightarrow> (sql_error + unit) \<times> lock_db" where
  "sql_Release fault d i =
     (if fault BeginTx then (Inl (StorageFailure BeginTx), d)
      else if fault DeleteMembers then (Inl (StorageFailure DeleteMembers), d)
      else if fault DeleteLease then (Inl (StorageFailure DeleteLease), d)
      else commit_tx fault () d
             (d\<lparr>members := filter (\<lambda>m. m_lock_id m \<noteq> i) (members d),
                leases := filter (\<lambda>l. lease_id l \<noteq> i) (leases d)\<rparr>))"

definition sql_Check :: "(sql_stmt \<Rightarrow> bool) \<Rightarrow> int \<Rightarrow> lock_db \<Rightarrow> string \<Rightarrow> string \<Rightarrow> u64 \<Rightarrow> Exception option" where
  "sql_Check fault now d lockID typeName featureID =
     (if fault (SelectCover featureID) then Some (lock_exception ExceptionNoApplicableCode LockStoreError)
      else if sql_covers d (unix_nano now) lockID (normalizeTypeName typeName) featureID then None
      else Some (lock_exception ExceptionInvalidParameterValue (NotCoveredOrExpired lockID typeName featureID)))"

definition sql_IsLocked :: "(sql_stmt \<Rightarrow> bool) \<Rightarrow> int \<Rightarrow> lock_db \<Rightarrow> string \<Rightarrow> u64 \<Rightarrow> bool" where
  "sql_IsLocked fault now d typeName featureID =
     (fault (SelectLocked featureID) \<or> sql_any d (unix_nano now) (normalizeTypeName typeName) featureID)"

section \<open>The package's lock functions\<close>

text \<open>The installed store, one of the two implementations of the interface.\<close>

datatype LockStore = MemoryStore memoryLockStore | SQLStore lock_db

definition SetLockStore :: "LockStore option \<Rightarrow> LockStore \<Rightarrow> LockStore" where
  "SetLockStore s lockStore = (case s of Some s' \<Rightarrow> s' | None \<Rightarrow> lockStore)"

definition store_Acquire ::
  "(sql_stmt \<Rightarrow> bool) \<Rightarrow> int \<Rightarrow> string \<Rightarrow> LockStore \<Rightarrow> string \<Rightarrow> u64 list \<Rightarrow> string \<Rightarrow> int \<Rightarrow>
     (sql_error + FeatureLock option) \<times> LockStore" where
  "store_Acquire fault now newID st typeName ids owner expiry = (case st of
       MemoryStore s \<Rightarrow> map_prod Inr MemoryStore (mem_Acquire now newID s typeName ids owner expiry)
     | SQLStore d \<Rightarrow> map_prod (\<lambda>r. r) SQLStore (sql_Acquire fault now newID d typeName ids owner expiry))"

definition AcquireLock ::
  "(sql_stmt \<Rightarrow> bool) \<Rightarrow> int \<Rightarrow> string \<Rightarrow> LockStore \<Rightarrow> string \<Rightarrow> u64 list \<Rightarrow> int \<Rightarrow> FeatureLock option \<times> LockStore" where
  "AcquireLock fault now newID st typeName ids expiry =
     (case store_Acquire fault now newID st typeName ids [] (effective_expiry expiry) of
        (Inl e, st') \<Rightarrow> (None, st')
      | (Inr lock, st') \<Rightarrow> (lock, st'))"

definition ReleaseLock :: "(sql_stmt \<Rightarrow> bool) \<Rightarrow> LockStore \<Rightarrow> string \<Rightarrow> bool \<times> LockStore" where
  "ReleaseLock fault st i = (case st of
       MemoryStore s \<Rightarrow> (True, MemoryStore (mem_Release s i))
     | SQLStore d \<Rightarrow> (case sql_Release fault d i of
           (Inl e, d') \<Rightarrow> (False, SQLStore d')
         | (Inr _, d') \<Rightarrow> (True, SQLStore d')))"

definition CheckLock ::
  "(sql_stmt \<Rightarrow> bool) \<Rightarrow> int \<Rightarrow> LockStore \<Rightarrow> string \<Rightarrow> string \<Rightarrow> u64 \<Rightarrow> Exception option \<times> LockStore" where
  "CheckLock fault now st lockID typeName featureID = (case st of
       MemoryStore s \<Rightarrow> map_prod (\<lambda>r. r) MemoryStore (mem_Check now s lockID typeName featureID)
     | SQLStore d \<Rightarrow> (sql_Check fault now d lockID typeName featureID, st))"

definition IsLocked :: "(sql_stmt \<Rightarrow> bool) \<Rightarrow> int \<Rightarrow> LockStore \<Rightarrow> string \<Rightarrow> u64 \<Rightarrow> bool" where
  "IsLocked fault now st typeName featureID = (case st of
       MemoryStore s \<Rightarrow> mem_IsLocked now s typeName featureID
     | SQLStore d \<Rightarrow> sql_IsLocked fault now d typeName featureID)"

section \<open>The contract of a lock store\<close>

text \<open>
  \<open>holds s t i n f\<close>: at time \<open>t\<close> the lease with token \<open>i\<close> covers feature \<open>f\<close> of the
  normalised type \<open>n\<close>; \<open>known s i\<close>: the token is in use; \<open>clock t\<close>: the store can tell the time
  \<open>t\<close>; \<open>deadline now ex\<close>: the last moment of a lease acquired now with the given expiry.
\<close>

locale lock_store =
  fixes inv :: "'s \<Rightarrow> bool"
    and holds :: "'s \<Rightarrow> int \<Rightarrow> string \<Rightarrow> string \<Rightarrow> u64 \<Rightarrow> bool"
    and known :: "'s \<Rightarrow> string \<Rightarrow> bool"
    and clock :: "int \<Rightarrow> bool"
    and deadline :: "int \<Rightarrow> int \<Rightarrow> int"
    and acquire :: "int \<Rightarrow> string \<Rightarrow> 's \<Rightarrow> string \<Rightarrow> u64 list \<Rightarrow> string \<Rightarrow> int \<Rightarrow> ('e + FeatureLock option) \<times> 's"
    and release :: "'s \<Rightarrow> string \<Rightarrow> 's"
    and check :: "int \<Rightarrow> 's \<Rightarrow> string \<Rightarrow> string \<Rightarrow> u64 \<Rightarrow> Exception option"
    and is_locked :: "int \<Rightarrow> 's \<Rightarrow> string \<Rightarrow> u64 \<Rightarrow> bool"
  assumes unique_holder: "inv s \<Longrightarrow> holds s t i n f \<Longrightarrow> holds s t j n f \<Longrightarrow> i = j"
    and holds_antimono: "holds s t i n f \<Longrightarrow> t' \<le> t \<Longrightarrow> holds s t' i n f"
    and holds_known: "holds s t i n f \<Longrightarrow> known s i"
    and acquire_inv: "inv s \<Longrightarrow> inv (snd (acquire now i s ty ids ow ex))"
    and acquire_granted: "inv s \<Longrightarrow> \<not> known s i \<Longrightarrow> clock now \<Longrightarrow> acquire now i s ty ids ow ex = (Inr (Some l), s') \<Longrightarrow>
      holds s' t j n f \<longleftrightarrow>
        (j = i \<and> n = normalizeTypeName ty \<and> f \<in> set ids \<and> t \<le> deadline now ex) \<or>
        (holds s now j n f \<and> holds s t j n f)"
    and acquire_refused: "inv s \<Longrightarrow> clock now \<Longrightarrow> acquire now i s ty ids ow ex = (Inr None, s') \<Longrightarrow>
      (\<exists>f j. f \<in> set ids \<and> holds s now j (normalizeTypeName ty) f) \<and>
      (now \<le> t \<longrightarrow> holds s' t j n g = holds s t j n g)"
    and acquire_possible: "inv s \<Longrightarrow> \<not> known s i \<Longrightarrow> clock now \<Longrightarrow> distinct ids \<Longrightarrow>
      (\<And>f j. f \<in> set ids \<Longrightarrow> \<not> holds s now j (normalizeTypeName ty) f) \<Longrightarrow>
      \<exists>l s'. acquire now i s ty ids ow ex = (Inr (Some l), s') \<and> ID l = i \<and> Expires l = now + effective_expiry ex"
    and release_inv: "inv s \<Longrightarrow> inv (release s i)"
    and release_holds: "inv s \<Longrightarrow> holds (release s i) t j n f \<longleftrightarrow> j \<noteq> i \<and> holds s t j n f"
    and check_holds: "inv s \<Longrightarrow> clock now \<Longrightarrow> check now s i ty f = None \<longleftrightarrow> holds s now i (normalizeTypeName ty) f"
    and is_locked_holds: "inv s \<Longrightarrow> clock now \<Longrightarrow> is_locked now s ty f \<longleftrightarrow> (\<exists>i. holds s now i (normalizeTypeName ty) f)"
begin

lemma granted_covers:
  assumes "inv s" "\<not> known s i" "clock now" "acquire now i s ty ids ow ex = (Inr (Some l), s')"
    and "f \<in> set ids" "t \<le> deadline now ex" "clock t"
  shows "check t s' i ty f = None \<and> is_locked t s' ty f"
proof -
  have "inv s'" using acquire_inv [OF assms(1), of now i ty ids ow ex] assms(4) by simp
  moreover have "holds s' t i (normalizeTypeName ty) f"
    using acquire_granted [OF assms(1-4)] assms(5,6) by blast
  ultimately show ?thesis using assms(7) by (auto simp: check_holds is_locked_holds)
qed

lemma lease_survives_acquire:
  assumes "inv s" "\<not> known s j" "clock now" "acquire now j s ty ids ow ex = (Inr r, s')"
    and "holds s t i n f" "now \<le> t"
  shows "holds s' t i n f"
proof (cases r)
  case None
  then show ?thesis using acquire_refused [OF assms(1,3), of j ty ids ow ex s'] assms(4-6) by auto
next
  case (Some l)
  have "holds s now i n f" using assms(5,6) by (rule holds_antimono)
  then show ?thesis using acquire_granted [OF assms(1-3)] assms(4,5) Some by blast
qed

lemma released_is_free:
  assumes "inv s" "clock t"
  shows "check t (release s i) i ty f \<noteq> None"
  using release_inv [OF assms(1)] assms(2) by (simp add: check_holds release_holds [OF assms(1)])

end

section \<open>The in-memory store meets the contract\<close>

definition mem_holds :: "memoryLockStore \<Rightarrow> int \<Rightarrow> string \<Rightarrow> string \<Rightarrow> u64 \<Rightarrow> bool" where
  "mem_holds s t i n f \<longleftrightarrow>
     (\<exists>l. map_of s i = Some l \<and> t \<le> Expires l \<and> normalizeTypeName (TypeName l) = n \<and> f \<in> set (FeatureIDs l))"

definition disjoint_locks :: "FeatureLock \<Rightarrow> FeatureLock \<Rightarrow> bool" where
  "disjoint_locks l k \<longleftrightarrow>
     normalizeTypeName (TypeName l) = normalizeTypeName (TypeName k) \<longrightarrow>
     set (FeatureIDs l) \<inter> set (FeatureIDs k) = {}"

text \<open>No two locks in the store, expired or not, share a feature.\<close>

definition mem_inv :: "memoryLockStore \<Rightarrow> bool" where
  "mem_inv s \<longleftrightarrow> distinct (map fst s) \<and>
     (\<forall>i j l k. map_of s i = Some l \<longrightarrow> map_of s j = Some k \<longrightarrow> i \<noteq> j \<longrightarrow> disjoint_locks l k)"

lemma map_of_mem_purge:
  "distinct (map fst s) \<Longrightarrow>
     map_of (mem_purge now s) i =
       (case map_of s i of Some l \<Rightarrow> if Expires l < now then None else Some l | None \<Rightarrow> None)"
  unfolding mem_purge_def
  by (induction s) (auto split: option.splits simp: map_of_eq_None_iff image_iff)

lemma distinct_mem_purge: "distinct (map fst s) \<Longrightarrow> distinct (map fst (mem_purge now s))"
  by (simp add: mem_purge_def distinct_map_filter)

lemma mem_inv_purge: "mem_inv s \<Longrightarrow> mem_inv (mem_purge now s)"
  unfolding mem_inv_def
  by (auto simp: map_of_mem_purge distinct_mem_purge split: option.splits if_splits)

lemma mem_conflict_iff:
  "distinct (map fst s) \<Longrightarrow>
     mem_conflict s n ids \<longleftrightarrow>
       (\<exists>i l f. map_of s i = Some l \<and> normalizeTypeName (TypeName l) = n \<and> f \<in> set ids \<and> f \<in> set (FeatureIDs l))"
  unfolding mem_conflict_def list_ex_iff by (auto simp: map_of_eq_Some_iff)

lemma mem_inv_update:
  assumes "mem_inv s" "\<not> mem_conflict s (normalizeTypeName (TypeName l)) (FeatureIDs l)"
  shows "mem_inv (AList.update i l s)"
proof -
  have d: "distinct (map fst s)" using assms(1) by (simp add: mem_inv_def)
  have new: "disjoint_locks l k \<and> disjoint_locks k l" if "map_of s j = Some k" for j k
    using that assms(2) by (auto simp: mem_conflict_iff [OF d] disjoint_locks_def)
  show ?thesis using assms(1) new
    unfolding mem_inv_def by (auto simp: update_conv' distinct_update)
qed

lemma mem_inv_delete: "mem_inv s \<Longrightarrow> mem_inv (AList.delete i s)"
  unfolding mem_inv_def by (auto simp: delete_conv' distinct_delete)

lemma mem_inv_Acquire: "mem_inv s \<Longrightarrow> mem_inv (snd (mem_Acquire now i s ty ids ow ex))"
  by (auto simp: mem_Acquire_def Let_def intro: mem_inv_purge intro!: mem_inv_update)

lemma mem_holds_purge:
  "mem_inv s \<Longrightarrow> mem_holds (mem_purge now s) t i n f \<longleftrightarrow> mem_holds s now i n f \<and> mem_holds s t i n f"
  by (auto simp: mem_holds_def mem_inv_def map_of_mem_purge split: option.splits if_splits)

lemma mem_conflict_holds:
  "mem_inv s \<Longrightarrow> mem_conflict (mem_purge now s) n ids \<longleftrightarrow> (\<exists>f j. f \<in> set ids \<and> mem_holds s now j n f)"
proof -
  assume a: "mem_inv s"
  then have d: "distinct (map fst s)" by (simp add: mem_inv_def)
  have live: "now \<le> Expires l" if "map_of (mem_purge now s) i = Some l" for i l
    using that by (simp add: map_of_mem_purge [OF d] split: option.splits if_splits)
  have "mem_conflict (mem_purge now s) n ids \<longleftrightarrow> (\<exists>f j. f \<in> set ids \<and> mem_holds (mem_purge now s) now j n f)"
    unfolding mem_conflict_iff [OF distinct_mem_purge [OF d]] mem_holds_def using live by blast
  then show ?thesis by (simp add: mem_holds_purge [OF a])
qed

definition mem_acquire_res ::
  "int \<Rightarrow> string \<Rightarrow> memoryLockStore \<Rightarrow> string \<Rightarrow> u64 list \<Rightarrow> string \<Rightarrow> int \<Rightarrow>
     (unit + FeatureLock option) \<times> memoryLockStore" where
  "mem_acquire_res now i s ty ids ow ex = map_prod Inr id (mem_Acquire now i s ty ids ow ex)"

lemma mem_unique_holder:
  "mem_inv s \<Longrightarrow> mem_holds s t i n f \<Longrightarrow> mem_holds s t j n f \<Longrightarrow> i = j"
  unfolding mem_inv_def mem_holds_def disjoint_locks_def by blast

lemma mem_granted:
  assumes "mem_inv s" "map_of s i = None" "mem_acquire_res now i s ty ids ow ex = (Inr (Some l), s')"
  shows "mem_holds s' t j n f \<longleftrightarrow>
        (j = i \<and> n = normalizeTypeName ty \<and> f \<in> set ids \<and> t \<le> now + effective_expiry ex) \<or>
        (mem_holds s now j n f \<and> mem_holds s t j n f)"
proof -
  have s': "s' = AList.update i l (mem_purge now s)"
    and l: "TypeName l = ty" "FeatureIDs l = ids" "Expires l = now + effective_expiry ex"
    using assms(3) by (auto simp: mem_acquire_res_def mem_Acquire_def Let_def split: if_splits)
  have "\<not> mem_holds s u i n f" for u using assms(2) by (simp add: mem_holds_def)
  moreover have "mem_holds s' t j n f = mem_holds (mem_purge now s) t j n f" if "j \<noteq> i"
    using that by (simp add: s' mem_holds_def update_conv')
  moreover have "mem_holds s' t i n f \<longleftrightarrow> t \<le> now + effective_expiry ex \<and> normalizeTypeName ty = n \<and> f \<in> set ids"
    by (simp add: s' mem_holds_def update_conv' l)
  ultimately show ?thesis by (cases "j = i") (auto simp: mem_holds_purge [OF assms(1)])
qed

lemma mem_refused:
  assumes "mem_inv s" "mem_acquire_res now i s ty ids ow ex = (Inr None, s')"
  shows "(\<exists>f j. f \<in> set ids \<and> mem_holds s now j (normalizeTypeName ty) f) \<and>
      (now \<le> t \<longrightarrow> mem_holds s' t j n g = mem_holds s t j n g)"
proof -
  have "mem_conflict (mem_purge now s) (normalizeTypeName ty) ids" "s' = mem_purge now s"
    using assms(2) by (auto simp: mem_acquire_res_def mem_Acquire_def Let_def split: if_splits)
  moreover have "now \<le> t \<Longrightarrow> mem_holds s t j n g \<Longrightarrow> mem_holds s now j n g"
    by (auto simp: mem_holds_def)
  ultimately show ?thesis by (auto simp: mem_conflict_holds assms(1) mem_holds_purge)
qed

lemma mem_possible:
  assumes "mem_inv s" "\<And>f j. f \<in> set ids \<Longrightarrow> \<not> mem_holds s now j (normalizeTypeName ty) f"
  shows "\<exists>l s'. mem_acquire_res now i s ty ids ow ex = (Inr (Some l), s') \<and> ID l = i \<and>
      Expires l = now + effective_expiry ex"
  using assms by (simp add: mem_acquire_res_def mem_Acquire_def Let_def mem_conflict_holds)

lemma mem_Check_holds: "fst (mem_Check now s i ty f) = None \<longleftrightarrow> mem_holds s now i (normalizeTypeName ty) f"
  by (auto simp: mem_Check_def mem_holds_def split: option.splits)

lemma mem_IsLocked_holds:
  "mem_inv s \<Longrightarrow> mem_IsLocked now s ty f \<longleftrightarrow> (\<exists>i. mem_holds s now i (normalizeTypeName ty) f)"
  by (force simp: mem_IsLocked_def list_ex_iff mem_holds_def mem_inv_def map_of_eq_Some_iff)

interpretation mem: lock_store
  mem_inv mem_holds "\<lambda>s i. map_of s i \<noteq> None" "\<lambda>_. True" "\<lambda>now ex. now + effective_expiry ex" mem_acquire_res mem_Release
  "\<lambda>now s i ty f. fst (mem_Check now s i ty f)" mem_IsLocked
proof (unfold_locales, goal_cases)
  case 1 then show ?case by (rule mem_unique_holder)
next
  case 2 then show ?case by (auto simp: mem_holds_def)
next
  case 3 then show ?case by (auto simp: mem_holds_def)
next
  case 4 then show ?case by (simp add: mem_acquire_res_def mem_inv_Acquire)
next
  case 5 then show ?case by (simp add: mem_granted)
next
  case 6 then show ?case by (intro mem_refused)
next
  case 7 then show ?case by (intro mem_possible)
next
  case 8 then show ?case by (simp add: mem_Release_def mem_inv_delete)
next
  case 9 then show ?case by (auto simp: mem_Release_def mem_holds_def delete_conv')
next
  case 10 then show ?case by (simp add: mem_Check_holds)
next
  case 11 then show ?case by (simp add: mem_IsLocked_holds)
qed

section \<open>The database store meets the contract\<close>

definition guard_key :: "lock_member \<Rightarrow> string \<times> u64" where
  "guard_key m = (type_name m, feature_id m)"

definition sql_known :: "lock_db \<Rightarrow> string \<Rightarrow> bool" where
  "sql_known d i \<longleftrightarrow> i \<in> lease_id ` set (leases d)"

definition sql_inv :: "lock_db \<Rightarrow> bool" where
  "sql_inv d \<longleftrightarrow> distinct (map lease_id (leases d)) \<and> distinct (map guard_key (members d)) \<and>
     m_lock_id ` set (members d) \<subseteq> lease_id ` set (leases d)"

lemma lease_id_inject:
  "distinct (map lease_id ls) \<Longrightarrow> l \<in> set ls \<Longrightarrow> k \<in> set ls \<Longrightarrow> lease_id l = lease_id k \<Longrightarrow> l = k"
  by (auto simp: distinct_map inj_on_def)

lemma sql_covers_iff:
  "sql_covers d t i n f \<longleftrightarrow>
     (\<exists>m \<in> set (members d). \<exists>l \<in> set (leases d).
        m_lock_id m = i \<and> guard_key m = (n, f) \<and> lease_id l = i \<and> t \<le> expires_at l)"
  by (auto simp: sql_covers_def live_member_def list_ex_iff guard_key_def)

lemma sql_any_iff: "sql_any d t n f \<longleftrightarrow> (\<exists>i. sql_covers d t i n f)"
  by (auto simp: sql_any_def sql_covers_def list_ex_iff)

lemma sql_purge_leases: "set (leases (sql_purge now d)) = {l \<in> set (leases d). now \<le> expires_at l}"
  by (auto simp: sql_purge_def Let_def)

lemma sql_purge_members:
  "sql_inv d \<Longrightarrow> set (members (sql_purge now d)) =
     {m \<in> set (members d). \<exists>l \<in> set (leases d). lease_id l = m_lock_id m \<and> now \<le> expires_at l}"
proof -
  assume inv: "sql_inv d"
  have "(\<forall>l \<in> set (leases d). lease_id l = m_lock_id m \<longrightarrow> \<not> expires_at l < now) \<longleftrightarrow>
        (\<exists>l \<in> set (leases d). lease_id l = m_lock_id m \<and> now \<le> expires_at l)" if "m \<in> set (members d)" for m
  proof -
    have "m_lock_id m \<in> lease_id ` set (leases d)" using inv that unfolding sql_inv_def by blast
    then obtain k where k: "k \<in> set (leases d)" "lease_id k = m_lock_id m" by (metis imageE)
    have uniq: "l = k" if "l \<in> set (leases d)" "lease_id l = m_lock_id m" for l
      using lease_id_inject [of "leases d" l k] inv that k by (simp add: sql_inv_def)
    show ?thesis
    proof
      assume "\<forall>l \<in> set (leases d). lease_id l = m_lock_id m \<longrightarrow> \<not> expires_at l < now"
      with k have "now \<le> expires_at k" by (metis not_le)
      with k show "\<exists>l \<in> set (leases d). lease_id l = m_lock_id m \<and> now \<le> expires_at l" by blast
    next
      assume "\<exists>l \<in> set (leases d). lease_id l = m_lock_id m \<and> now \<le> expires_at l"
      then have "now \<le> expires_at k" using uniq by blast
      then show "\<forall>l \<in> set (leases d). lease_id l = m_lock_id m \<longrightarrow> \<not> expires_at l < now"
        using uniq by fastforce
    qed
  qed
  note live = this
  have "set (members (sql_purge now d)) =
    {m \<in> set (members d). \<forall>l \<in> set (leases d). lease_id l = m_lock_id m \<longrightarrow> \<not> expires_at l < now}"
    by (simp add: sql_purge_def Let_def list_ex_iff)
  then show ?thesis using live by blast
qed

lemma sql_inv_purge: "sql_inv d \<Longrightarrow> sql_inv (sql_purge now d)"
proof -
  assume inv: "sql_inv d"
  have "m_lock_id ` set (members (sql_purge now d)) \<subseteq> lease_id ` set (leases (sql_purge now d))"
    by (auto simp: sql_purge_members [OF inv] sql_purge_leases intro: rev_image_eqI)
  with inv show ?thesis
    by (simp add: sql_inv_def) (simp add: sql_purge_def Let_def distinct_map_filter)
qed

lemma sql_covers_purge:
  assumes "sql_inv d"
  shows "sql_covers (sql_purge now d) t i n f \<longleftrightarrow> sql_covers d now i n f \<and> sql_covers d t i n f"
proof
  assume "sql_covers (sql_purge now d) t i n f"
  then show "sql_covers d now i n f \<and> sql_covers d t i n f"
    unfolding sql_covers_iff sql_purge_members [OF assms] sql_purge_leases by blast
next
  assume c: "sql_covers d now i n f \<and> sql_covers d t i n f"
  then obtain m l where m: "m \<in> set (members d)" "l \<in> set (leases d)" "m_lock_id m = i" "guard_key m = (n, f)"
    "lease_id l = i" "now \<le> expires_at l" unfolding sql_covers_iff by blast
  from c obtain k where k: "k \<in> set (leases d)" "lease_id k = i" "t \<le> expires_at k" unfolding sql_covers_iff by blast
  have "k = l" using lease_id_inject [of "leases d" k l] assms m k by (simp add: sql_inv_def)
  with m k show "sql_covers (sql_purge now d) t i n f"
    unfolding sql_covers_iff sql_purge_members [OF assms] sql_purge_leases by blast
qed

lemma insert_members_spec:
  "insert_members fault i n k ids d = Inr d' \<Longrightarrow>
     leases d' = leases d \<and>
     members d' = members d @ map (\<lambda>f. \<lparr>m_lock_id = i, type_name = n, feature_id = f\<rparr>) ids \<and>
     (distinct (map guard_key (members d)) \<longrightarrow> distinct (map guard_key (members d')))"
proof (induction ids arbitrary: k d)
  case (Cons f ids)
  let ?m = "\<lparr>m_lock_id = i, type_name = n, feature_id = f\<rparr>"
  obtain d1 where d1: "insert_member ?m d = Some d1" "insert_members fault i n (Suc k) ids d1 = Inr d'"
    using Cons.prems by (auto split: if_splits option.splits)
  then have "leases d1 = leases d" "members d1 = members d @ [?m]"
    "guard_key ?m \<notin> set (map guard_key (members d))"
    by (auto simp: insert_member_def list_ex_iff guard_key_def split: if_splits)
  note d1_eqs = this
  show ?case
  proof (intro conjI impI)
    show "leases d' = leases d" "members d' = members d @ map (\<lambda>f. \<lparr>m_lock_id = i, type_name = n, feature_id = f\<rparr>) (f # ids)"
      using Cons.IH [OF d1(2)] d1_eqs by simp_all
    assume "distinct (map guard_key (members d))"
    then have "distinct (map guard_key (members d1))" using d1_eqs by simp
    then show "distinct (map guard_key (members d'))" using Cons.IH [OF d1(2)] by blast
  qed
qed simp

lemma insert_members_ok:
  "distinct ids \<Longrightarrow> (\<And>f. f \<in> set ids \<Longrightarrow> (n, f) \<notin> guard_key ` set (members d)) \<Longrightarrow>
     \<exists>d'. insert_members (\<lambda>_. False) i n k ids d = Inr d'"
proof (induction ids arbitrary: k d)
  case (Cons f ids)
  let ?m = "\<lparr>m_lock_id = i, type_name = n, feature_id = f\<rparr>"
  have "(n, f) \<notin> guard_key ` set (members d)" using Cons.prems(2) [of f] by simp
  then have "insert_member ?m d = Some (d\<lparr>members := members d @ [?m]\<rparr>)"
    by (force simp: insert_member_def list_ex_iff guard_key_def)
  moreover have "(n, g) \<notin> guard_key ` set (members (d\<lparr>members := members d @ [?m]\<rparr>))" if "g \<in> set ids" for g
    using that Cons.prems(1) Cons.prems(2) [of g] by (auto simp: guard_key_def)
  ultimately show ?case using Cons.IH [of "d\<lparr>members := members d @ [?m]\<rparr>" "Suc k"] Cons.prems(1) by simp
qed simp

lemma sql_conflicts_no_fault:
  "sql_conflicts (\<lambda>_. False) d now n k ids = Inr (\<exists>f \<in> set ids. sql_any d now n f)"
  by (induction ids arbitrary: k) auto

lemma sql_conflicts_sound:
  "sql_conflicts fault d now n k ids = Inr b \<Longrightarrow> b \<longleftrightarrow> (\<exists>f \<in> set ids. sql_any d now n f)"
  by (induction ids arbitrary: k) (auto split: if_splits)

text \<open>What a committed acquisition leaves in the tables.\<close>

definition sql_granted :: "int \<Rightarrow> string \<Rightarrow> lock_db \<Rightarrow> string \<Rightarrow> u64 list \<Rightarrow> string \<Rightarrow> int \<Rightarrow> lock_db \<Rightarrow> bool" where
  "sql_granted now i d ty ids ow ex d' \<longleftrightarrow>
     (let d1 = sql_purge (unix_nano now) d; n = normalizeTypeName ty in
      \<not> sql_known d1 i \<and> (\<forall>f \<in> set ids. \<not> sql_any d1 (unix_nano now) n f) \<and>
      leases d' = leases d1 @ [\<lparr>lease_id = i, lease_owner = ow, acquired_at = unix_nano now, expires_at = unix_nano (now + effective_expiry ex)\<rparr>] \<and>
      members d' = members d1 @ map (\<lambda>f. \<lparr>m_lock_id = i, type_name = n, feature_id = f\<rparr>) ids \<and>
      (sql_inv d \<longrightarrow> distinct (map guard_key (members d'))))"

lemma sql_granted_rows:
  assumes "sql_conflicts fault (sql_purge (unix_nano now) d) (unix_nano now) (normalizeTypeName ty) 0 ids = Inr False"
    and "insert_lease \<lparr>lease_id = i, lease_owner = ow, acquired_at = unix_nano now, expires_at = unix_nano (now + effective_expiry ex)\<rparr>
           (sql_purge (unix_nano now) d) = Some d2"
    and "insert_members fault i (normalizeTypeName ty) 0 ids d2 = Inr d3"
  shows "sql_granted now i d ty ids ow ex d3"
proof -
  have d2: "leases d2 = leases (sql_purge (unix_nano now) d) @
      [\<lparr>lease_id = i, lease_owner = ow, acquired_at = unix_nano now, expires_at = unix_nano (now + effective_expiry ex)\<rparr>]"
    "members d2 = members (sql_purge (unix_nano now) d)" "\<not> sql_known (sql_purge (unix_nano now) d) i"
    using assms(2) by (auto simp: insert_lease_def sql_known_def list_ex_iff split: if_splits)
  have "distinct (map guard_key (members d3))" if "sql_inv d"
    using insert_members_spec [OF assms(3)] sql_inv_purge [OF that, of "unix_nano now"] d2(2)
    unfolding sql_inv_def by metis
  moreover have "\<forall>f \<in> set ids. \<not> sql_any (sql_purge (unix_nano now) d) (unix_nano now) (normalizeTypeName ty) f"
    using sql_conflicts_sound [OF assms(1)] by blast
  ultimately show ?thesis
    using insert_members_spec [OF assms(3)] d2 unfolding sql_granted_def Let_def by metis
qed

lemma sql_Acquire_cases:
  assumes "sql_Acquire fault now i d ty ids ow ex = (r, d')"
  obtains (failed) e where "r = Inl e" "d' = d"
  | (conflict) f where "r = Inr None" "d' = d" "f \<in> set ids" "sql_any (sql_purge (unix_nano now) d) (unix_nano now) (normalizeTypeName ty) f"
  | (lost) "r = Inl (StorageFailure CommitAcknowledgement)" "fault CommitAcknowledgement" "sql_granted now i d ty ids ow ex d'"
  | (granted) l where "r = Inr (Some l)" "sql_granted now i d ty ids ow ex d'" "ID l = i" "TypeName l = ty"
      "FeatureIDs l = ids" "Expires l = now + effective_expiry ex"
proof -
  let ?d1 = "sql_purge (unix_nano now) d" and ?n = "normalizeTypeName ty"
  let ?lease = "\<lparr>lease_id = i, lease_owner = ow, acquired_at = unix_nano now, expires_at = unix_nano (now + effective_expiry ex)\<rparr>"
  let ?lock = "\<lparr>ID = i, TypeName = ty, FeatureIDs = ids, Owner = ow, Acquired = now,
                Expires = now + effective_expiry ex\<rparr>"
  have eq: "sql_Acquire fault now i d ty ids ow ex =
    (if fault BeginTx then (Inl (StorageFailure BeginTx), d)
     else if fault DeleteExpiredMembers then (Inl (StorageFailure DeleteExpiredMembers), d)
     else if fault DeleteExpiredLeases then (Inl (StorageFailure DeleteExpiredLeases), d)
     else (case sql_conflicts fault ?d1 (unix_nano now) ?n 0 ids of
         Inl e \<Rightarrow> (Inl e, d)
       | Inr True \<Rightarrow> (Inr None, d)
       | Inr False \<Rightarrow>
           if fault InsertLease then (Inl (StorageFailure InsertLease), d)
           else (case insert_lease ?lease ?d1 of
               None \<Rightarrow> (Inl (ConstraintViolation InsertLease), d)
             | Some d2 \<Rightarrow> (case insert_members fault i ?n 0 ids d2 of
                   Inl e \<Rightarrow> (Inl e, d)
                 | Inr d3 \<Rightarrow> commit_tx fault (Some ?lock) d d3))))"
    by (simp add: sql_Acquire_def Let_def)
  show thesis
  proof (cases "fault BeginTx \<or> fault DeleteExpiredMembers \<or> fault DeleteExpiredLeases")
    case True
    then show ?thesis using assms failed unfolding eq by (auto split: if_splits)
  next
    case nf: False
    show ?thesis
    proof (cases "sql_conflicts fault ?d1 (unix_nano now) ?n 0 ids")
      case (Inl e)
      then show ?thesis using assms failed nf unfolding eq by auto
    next
      case c: (Inr b)
      show ?thesis
      proof (cases b)
        case True
        then show ?thesis using assms conflict sql_conflicts_sound [OF c] nf c unfolding eq by auto
      next
        case False
        show ?thesis
        proof (cases "\<not> fault InsertLease \<and> insert_lease ?lease ?d1 \<noteq> None")
          case True
          then obtain d2 where d2: "insert_lease ?lease ?d1 = Some d2" by auto
          show ?thesis
          proof (cases "insert_members fault i ?n 0 ids d2")
            case (Inl e)
            then show ?thesis using assms failed nf c False True d2 unfolding eq by auto
          next
            case (Inr d3)
            have "commit_tx fault (Some ?lock) d d3 = (r, d')"
              using assms nf c False True d2 Inr unfolding eq by simp
            moreover have "sql_granted now i d ty ids ow ex d3"
              using sql_granted_rows [OF _ d2 Inr] c False by simp
            ultimately show ?thesis
              using failed lost granted [of ?lock] by (auto simp: commit_tx_def split: if_splits)
          qed
        next
          case nol: False
          have "\<exists>e. (r, d') = (Inl e, d)"
            using assms nf c False nol unfolding eq by (auto split: option.splits if_splits)
          then show ?thesis using failed by auto
        qed
      qed
    qed
  qed
qed

lemma sql_granted_inv: "sql_inv d \<Longrightarrow> sql_granted now i d ty ids ow ex d' \<Longrightarrow> sql_inv d'"
proof -
  assume inv: "sql_inv d" and g: "sql_granted now i d ty ids ow ex d'"
  have "distinct (map lease_id (leases d'))"
    using g sql_inv_purge [OF inv, of "unix_nano now"] by (simp add: sql_inv_def sql_granted_def Let_def sql_known_def)
  moreover have "distinct (map guard_key (members d'))"
    using g inv unfolding sql_granted_def Let_def by blast
  moreover have "m_lock_id ` set (members d') \<subseteq> lease_id ` set (leases d')"
  proof -
    have "set (members d') = set (members (sql_purge (unix_nano now) d)) \<union>
        (\<lambda>f. \<lparr>m_lock_id = i, type_name = normalizeTypeName ty, feature_id = f\<rparr>) ` set ids"
      "lease_id ` set (leases d') = insert i (lease_id ` set (leases (sql_purge (unix_nano now) d)))"
      using g by (simp_all add: sql_granted_def Let_def)
    then show ?thesis using sql_inv_purge [OF inv, of "unix_nano now"] by (auto simp: sql_inv_def)
  qed
  ultimately show ?thesis by (simp add: sql_inv_def)
qed

lemma sql_granted_covers:
  assumes inv: "sql_inv d" and new: "\<not> sql_known d i" and g: "sql_granted now i d ty ids ow ex d'"
  shows "sql_covers d' t j n f \<longleftrightarrow>
    (j = i \<and> n = normalizeTypeName ty \<and> f \<in> set ids \<and> t \<le> unix_nano (now + effective_expiry ex)) \<or>
    (sql_covers d (unix_nano now) j n f \<and> sql_covers d t j n f)"
proof -
  have nm: "m_lock_id m \<noteq> i" if "m \<in> set (members (sql_purge (unix_nano now) d))" for m
    using that new by (auto simp: sql_purge_members [OF inv] sql_known_def image_iff)
  have nl: "lease_id l \<noteq> i" if "l \<in> set (leases (sql_purge (unix_nano now) d))" for l
    using that new by (auto simp: sql_purge_leases sql_known_def)
  let ?row = "\<lambda>f. \<lparr>m_lock_id = i, type_name = normalizeTypeName ty, feature_id = f\<rparr>"
  let ?lease = "\<lparr>lease_id = i, lease_owner = ow, acquired_at = unix_nano now, expires_at = unix_nano (now + effective_expiry ex)\<rparr>"
  have sets: "set (members d') = set (members (sql_purge (unix_nano now) d)) \<union> ?row ` set ids"
    "set (leases d') = insert ?lease (set (leases (sql_purge (unix_nano now) d)))"
    using g by (simp_all add: sql_granted_def Let_def)
  have "sql_covers d' t j n f \<longleftrightarrow>
    (j = i \<and> n = normalizeTypeName ty \<and> f \<in> set ids \<and> t \<le> unix_nano (now + effective_expiry ex)) \<or>
    sql_covers (sql_purge (unix_nano now) d) t j n f"
    unfolding sql_covers_iff sets bex_Un bex_simps using nm nl by (auto simp: guard_key_def)
  then show ?thesis by (simp add: sql_covers_purge [OF inv])
qed

lemma sql_unique_holder:
  assumes "sql_inv d" "sql_covers d t i n f" "sql_covers d t j n f"
  shows "i = j"
proof -
  obtain m m' where m: "m \<in> set (members d)" "guard_key m = (n, f)" "m_lock_id m = i"
    "m' \<in> set (members d)" "guard_key m' = (n, f)" "m_lock_id m' = j"
    using assms(2,3) unfolding sql_covers_iff by blast
  have "inj_on guard_key (set (members d))" using assms(1) by (simp add: sql_inv_def distinct_map)
  then have "m = m'" using m by (metis inj_onD)
  with m show ?thesis by simp
qed

lemma sql_inv_Acquire:
  assumes "sql_inv d"
  shows "sql_inv (snd (sql_Acquire fault now i d ty ids ow ex))"
proof -
  obtain r d' where e: "sql_Acquire fault now i d ty ids ow ex = (r, d')" by fastforce
  then show ?thesis using assms
    by (cases rule: sql_Acquire_cases) (auto simp: e intro: sql_granted_inv)
qed

lemma sql_inv_filter:
  "sql_inv d \<Longrightarrow>
     sql_inv (d\<lparr>members := filter (\<lambda>m. m_lock_id m \<noteq> i) (members d), leases := filter (\<lambda>l. lease_id l \<noteq> i) (leases d)\<rparr>)"
  by (auto simp: sql_inv_def distinct_map_filter)

lemma sql_inv_Release: "sql_inv d \<Longrightarrow> sql_inv (snd (sql_Release fault d i))"
  by (auto simp: sql_Release_def commit_tx_def sql_inv_filter)

lemma sql_possible:
  assumes inv: "sql_inv d" and new: "\<not> sql_known d i" and dist: "distinct ids"
    and free: "\<And>f j. f \<in> set ids \<Longrightarrow> \<not> sql_covers d (unix_nano now) j (normalizeTypeName ty) f"
  shows "\<exists>l d'. sql_Acquire (\<lambda>_. False) now i d ty ids ow ex = (Inr (Some l), d') \<and> ID l = i \<and>
    Expires l = now + effective_expiry ex"
proof -
  let ?d1 = "sql_purge (unix_nano now) d" and ?n = "normalizeTypeName ty"
  let ?lease = "\<lparr>lease_id = i, lease_owner = ow, acquired_at = unix_nano now, expires_at = unix_nano (now + effective_expiry ex)\<rparr>"
  have cover: "sql_covers d (unix_nano now) (m_lock_id m) (type_name m) (feature_id m)" if "m \<in> set (members ?d1)" for m
    using that unfolding sql_purge_members [OF inv] sql_covers_iff guard_key_def by blast
  have c: "sql_conflicts (\<lambda>_. False) ?d1 (unix_nano now) ?n 0 ids = Inr False"
    using free by (auto simp: sql_conflicts_no_fault sql_any_iff sql_covers_purge [OF inv])
  have l: "insert_lease ?lease ?d1 = Some (?d1\<lparr>leases := leases ?d1 @ [?lease]\<rparr>)"
    using new by (auto simp: insert_lease_def list_ex_iff sql_purge_leases sql_known_def)
  have "(?n, f) \<notin> guard_key ` set (members (?d1\<lparr>leases := leases ?d1 @ [?lease]\<rparr>))" if "f \<in> set ids" for f
    using cover free [OF that] by (fastforce simp: guard_key_def)
  then obtain d3 where "insert_members (\<lambda>_. False) i ?n 0 ids (?d1\<lparr>leases := leases ?d1 @ [?lease]\<rparr>) = Inr d3"
    using insert_members_ok [OF dist] by blast
  then show ?thesis using c l by (simp add: sql_Acquire_def Let_def commit_tx_def)
qed

interpretation sql: lock_store
  sql_inv sql_covers sql_known clock_range "\<lambda>now ex. unix_nano (now + effective_expiry ex)" "sql_Acquire (\<lambda>_. False)"
  "\<lambda>d i. snd (sql_Release (\<lambda>_. False) d i)" "sql_Check (\<lambda>_. False)" "sql_IsLocked (\<lambda>_. False)"
proof (unfold_locales, goal_cases)
  case 1 then show ?case by (rule sql_unique_holder)
next
  case (2 d t i n f t') then show ?case unfolding sql_covers_iff by (meson order_trans)
next
  case 3 then show ?case unfolding sql_covers_iff sql_known_def by (metis imageI)
next
  case 4 then show ?case by (rule sql_inv_Acquire)
next
  case (5 d i now ty ids ow ex l d')
  from 5(4) have "sql_granted now i d ty ids ow ex d'" by (cases rule: sql_Acquire_cases) auto
  from sql_granted_covers [OF 5(1,2) this] 5(3) show ?case by simp
next
  case (6 d now i ty ids ow ex d')
  from 6(3) show ?case
    by (cases rule: sql_Acquire_cases) (auto simp: sql_any_iff sql_covers_purge [OF 6(1)] 6(2))
next
  case 7 then show ?case by (intro sql_possible) simp_all
next
  case 8 then show ?case by (rule sql_inv_Release)
next
  case 9 show ?case by (simp add: sql_Release_def commit_tx_def sql_covers_iff) metis
next
  case 10 then show ?case by (simp add: sql_Check_def)
next
  case 11 then show ?case by (simp add: sql_IsLocked_def sql_any_iff)
qed

section \<open>Runs of a store\<close>

inductive mem_step :: "memoryLockStore \<Rightarrow> memoryLockStore \<Rightarrow> bool" where
  mem_step_acquire: "mem_step s (snd (mem_Acquire now i s ty ids ow ex))"
| mem_step_release: "mem_step s (mem_Release s i)"
| mem_step_check: "mem_step s (snd (mem_Check now s i ty f))"

inductive mem_reachable :: "memoryLockStore \<Rightarrow> bool" where
  mem_start: "mem_reachable mem_New"
| mem_next: "mem_reachable s \<Longrightarrow> mem_step s s' \<Longrightarrow> mem_reachable s'"

definition sql_New :: lock_db where
  "sql_New = \<lparr>leases = [], members = []\<rparr>"

inductive sql_step :: "lock_db \<Rightarrow> lock_db \<Rightarrow> bool" where
  sql_step_acquire: "sql_step d (snd (sql_Acquire fault now i d ty ids ow ex))"
| sql_step_release: "sql_step d (snd (sql_Release fault d i))"

inductive sql_reachable :: "lock_db \<Rightarrow> bool" where
  sql_start: "sql_reachable sql_New"
| sql_next: "sql_reachable d \<Longrightarrow> sql_step d d' \<Longrightarrow> sql_reachable d'"

lemma mem_inv_Check: "mem_inv s \<Longrightarrow> mem_inv (snd (mem_Check now s i ty f))"
  by (auto simp: mem_Check_def mem_inv_delete split: option.splits)

lemma mem_reachable_inv: "mem_reachable s \<Longrightarrow> mem_inv s"
proof (induction rule: mem_reachable.induct)
  case mem_start
  show ?case by (simp add: mem_New_def mem_inv_def)
next
  case (mem_next s s')
  from mem_next(2,3) show ?case
    by cases (auto intro: mem_inv_Acquire mem_inv_Check mem.release_inv)
qed

lemma sql_reachable_inv: "sql_reachable d \<Longrightarrow> sql_inv d"
proof (induction rule: sql_reachable.induct)
  case sql_start
  show ?case by (simp add: sql_New_def sql_inv_def)
next
  case (sql_next d d')
  from sql_next(2,3) show ?case
    by cases (auto intro: sql_inv_Acquire sql_inv_Release)
qed

text \<open>
  The steps other clients can take up to time \<open>t\<close> while token \<open>i\<close> is out: acquire
  with an unused token, release or check another token.
\<close>

inductive mem_others :: "int \<Rightarrow> string \<Rightarrow> memoryLockStore \<Rightarrow> memoryLockStore \<Rightarrow> bool" for t i where
  mem_others_acquire: "map_of s j = None \<Longrightarrow> now \<le> t \<Longrightarrow> mem_others t i s (snd (mem_Acquire now j s ty ids ow ex))"
| mem_others_release: "j \<noteq> i \<Longrightarrow> mem_others t i s (mem_Release s j)"
| mem_others_check: "now \<le> t \<Longrightarrow> mem_others t i s (snd (mem_Check now s j ty f))"

lemma mem_Check_keeps:
  "mem_holds s t i n f \<Longrightarrow> now \<le> t \<Longrightarrow> mem_holds (snd (mem_Check now s j ty g)) t i n f"
  by (auto simp: mem_Check_def mem_holds_def delete_conv' split: option.splits)

lemma mem_others_keeps:
  assumes "mem_others t i s s'" "mem_inv s" "mem_holds s t i n f"
  shows "mem_inv s' \<and> mem_holds s' t i n f"
  using assms(1)
proof cases
  case (mem_others_acquire j now ty ids ow ex)
  let ?r = "mem_Acquire now j s ty ids ow ex"
  have "mem_acquire_res now j s ty ids ow ex = (Inr (fst ?r), snd ?r)"
    by (simp add: mem_acquire_res_def map_prod_def split_beta)
  then have "mem_holds (snd ?r) t i n f"
    using mem.lease_survives_acquire [OF assms(2)] assms(3) mem_others_acquire by simp
  then show ?thesis using mem_others_acquire mem_inv_Acquire [OF assms(2)] by simp
next
  case (mem_others_release j)
  then show ?thesis using assms(2,3) mem.release_inv mem.release_holds by simp
next
  case (mem_others_check now j ty g)
  then show ?thesis using assms(2,3) mem_inv_Check mem_Check_keeps by simp
qed

lemma mem_others_keeps_star:
  "(mem_others t i)\<^sup>*\<^sup>* s s' \<Longrightarrow> mem_inv s \<Longrightarrow> mem_holds s t i n f \<Longrightarrow> mem_inv s' \<and> mem_holds s' t i n f"
  by (induction rule: rtranclp_induct) (auto dest: mem_others_keeps)

section \<open>Properties\<close>

text \<open>
  C2. Mutual exclusion of the in-memory lock store: in every state reachable by any
  sequence of acquisitions, releases and checks, at any clock readings and with any
  tokens, at most one lock token passes the check for a given feature of a given type
  (types compared without their namespace prefix).
\<close>

theorem mem_lock_mutual_exclusion:
  assumes "mem_reachable s" "normalizeTypeName ty = normalizeTypeName ty'"
    and "fst (mem_Check t s i ty f) = None" "fst (mem_Check t s j ty' f) = None"
  shows "i = j"
proof -
  have inv: "mem_inv s" using assms(1) by (rule mem_reachable_inv)
  then show ?thesis using assms(2-4) mem.unique_holder by (simp add: mem_Check_holds)
qed

lemmas lock_eval =
  mem_Acquire_def mem_purge_def mem_conflict_def mem_Check_def mem_New_def mem_Release_def
  normalizeTypeName_def stripPrefix_def effective_expiry_def defaultExpiry_def
  sql_Acquire_def sql_Check_def sql_purge_def sql_any_def sql_covers_def live_member_def sql_New_def
  sql_IsLocked_def insert_lease_def insert_member_def commit_tx_def unix_nano_def Let_def

theorem mem_lock_mutual_exclusion_witness:
  "fst (mem_Check 5 (snd (mem_Acquire 0 ''lock-a'' mem_New ''app:roads'' [7] ''u'' 10)) ''lock-a'' ''roads'' 7) = None \<and>
   fst (mem_Check 5 (snd (mem_Acquire 0 ''lock-a'' mem_New ''app:roads'' [7] ''u'' 10)) ''lock-b'' ''roads'' 7) \<noteq> None"
  (is "?P \<and> _")
proof -
  have r: "mem_reachable (snd (mem_Acquire 0 ''lock-a'' mem_New ''app:roads'' [7] ''u'' 10))"
    by (rule mem_next [OF mem_start mem_step_acquire])
  have p: ?P by (simp add: lock_eval)
  show ?thesis using p mem_lock_mutual_exclusion [OF r refl p, of "''lock-b''"] by (auto simp del: fst_conv)
qed

text \<open>
  C1. Mutual exclusion of the database lock store: in every state reachable by
  acquisitions and releases, with storage failing at any statement (a lost commit
  acknowledgement included), at most one token passes the check for a feature of a type.
\<close>

theorem sql_lock_mutual_exclusion:
  assumes "sql_reachable d" "normalizeTypeName ty = normalizeTypeName ty'"
    and "sql_Check fault t d i ty f = None" "sql_Check fault' t d j ty' f = None"
  shows "i = j"
proof -
  have "sql_inv d" using assms(1) by (rule sql_reachable_inv)
  moreover have "sql_covers d (unix_nano t) i (normalizeTypeName ty) f" "sql_covers d (unix_nano t) j (normalizeTypeName ty) f"
    using assms(2-4) by (auto simp: sql_Check_def split: if_splits)
  ultimately show ?thesis by (rule sql.unique_holder)
qed

theorem sql_lock_mutual_exclusion_witness:
  "sql_Check (\<lambda>_. False) 5 (snd (sql_Acquire (\<lambda>_. False) 0 ''lock-a'' sql_New ''app:roads'' [7] ''u'' 10)) ''lock-a'' ''roads'' 7 = None \<and>
   sql_Check (\<lambda>_. False) 5 (snd (sql_Acquire (\<lambda>_. False) 0 ''lock-a'' sql_New ''app:roads'' [7] ''u'' 10)) ''lock-b'' ''roads'' 7 \<noteq> None"
  (is "?P \<and> _")
proof -
  have r: "sql_reachable (snd (sql_Acquire (\<lambda>_. False) 0 ''lock-a'' sql_New ''app:roads'' [7] ''u'' 10))"
    by (rule sql_next [OF sql_start sql_step_acquire])
  have p: ?P by (simp add: lock_eval)
  show ?thesis using p sql_lock_mutual_exclusion [OF r refl p, of "\<lambda>_. False" "''lock-b''"] by auto
qed

text \<open>
  C17. A granted in-memory lock is honoured until it expires: after an acquisition that
  returns a lock, and after any further acquisitions with unused tokens, releases of
  other tokens and checks made at times up to \<open>t\<close>, the token still passes the check at
  \<open>t\<close> for every feature it was granted, and an acquisition at \<open>t\<close> that asks for any of
  them is refused, as long as \<open>t\<close> is not past the lock's expiry.
\<close>

theorem mem_lock_honoured_until_expiry:
  assumes "mem_reachable s" "map_of s i = None"
    and "mem_Acquire now i s ty ids ow ex = (Some l, s1)"
    and "(mem_others t i)\<^sup>*\<^sup>* s1 s2" "t \<le> Expires l"
    and "f \<in> set ids" "f \<in> set ids'" "normalizeTypeName ty' = normalizeTypeName ty"
  shows "fst (mem_Check t s2 i ty f) = None \<and> fst (mem_Acquire t j s2 ty' ids' ow' ex') = None"
proof -
  have inv: "mem_inv s" using assms(1) by (rule mem_reachable_inv)
  have inv1: "mem_inv s1" using mem_inv_Acquire [OF inv, of now i ty ids ow ex] assms(3) by simp
  have "Expires l = now + effective_expiry ex"
    using assms(3) by (auto simp: mem_Acquire_def Let_def split: if_splits)
  moreover have "mem_acquire_res now i s ty ids ow ex = (Inr (Some l), s1)"
    using assms(3) by (simp add: mem_acquire_res_def)
  ultimately have h1: "mem_holds s1 t i (normalizeTypeName ty) f"
    using mem.acquire_granted [OF inv] assms(2,5,6) by simp
  then have h: "mem_inv s2" "mem_holds s2 t i (normalizeTypeName ty) f"
    using mem_others_keeps_star [OF assms(4) inv1] by auto
  then have "mem_conflict (mem_purge t s2) (normalizeTypeName ty') ids'"
    using assms(7,8) by (auto simp: mem_conflict_holds)
  with h show ?thesis by (simp add: mem_Check_holds mem_Acquire_def Let_def)
qed

theorem mem_lock_honoured_until_expiry_witness:
  "\<exists>l s1. mem_Acquire 0 ''lock-a'' mem_New ''roads'' [7] ''u'' 10 = (Some l, s1) \<and> 9 \<le> Expires l \<and>
     fst (mem_Check 9 s1 ''lock-a'' ''roads'' 7) = None \<and>
     fst (mem_Acquire 9 ''lock-b'' s1 ''x:roads'' [3, 7] ''v'' 60) = None"
proof -
  obtain l s1 where a: "mem_Acquire 0 ''lock-a'' mem_New ''roads'' [7] ''u'' 10 = (Some l, s1)" "9 \<le> Expires l"
    by (simp add: lock_eval)
  have n: "normalizeTypeName ''x:roads'' = normalizeTypeName ''roads''" by (simp add: lock_eval)
  have "fst (mem_Check 9 s1 ''lock-a'' ''roads'' 7) = None \<and>
     fst (mem_Acquire 9 ''lock-b'' s1 ''x:roads'' [3, 7] ''v'' 60) = None"
    by (rule mem_lock_honoured_until_expiry [OF mem_start _ a(1) rtranclp.rtrancl_refl a(2) _ _ n])
       (simp_all add: lock_eval)
  with a show ?thesis by blast
qed

text \<open>
  C19. The database lock store fails closed. An acquisition that returns no lock leaves
  both tables exactly as they were, except when the commit went through and only its
  acknowledgement was lost, in which case the features are held until the stored expiry; a
  failing lock query reports the feature as locked; and a failing check raises an exception.
\<close>

theorem sql_lock_fails_closed:
  "(case sql_Acquire fault now i d ty ids ow ex of
      (Inr (Some l), d') \<Rightarrow> ID l = i \<and> FeatureIDs l = ids \<and> TypeName l = ty \<and> Acquired l = now
    | (Inr None, d') \<Rightarrow> d' = d
    | (Inl e, d') \<Rightarrow> d' = d \<or> fault CommitAcknowledgement \<and>
        (unix_nano t \<le> unix_nano (now + effective_expiry ex) \<longrightarrow>
           (\<forall>f \<in> set ids. sql_Check (\<lambda>_. False) t d' i ty f = None))) \<and>
   (fault (SelectLocked f) \<longrightarrow> sql_IsLocked fault now d ty f) \<and>
   (fault (SelectCover f) \<longrightarrow> sql_Check fault now d i ty f \<noteq> None)"
proof -
  obtain r d' where e: "sql_Acquire fault now i d ty ids ow ex = (r, d')" by fastforce
  have held: "sql_Check (\<lambda>_. False) t d' i ty f = None"
    if "sql_granted now i d ty ids ow ex d'" "unix_nano t \<le> unix_nano (now + effective_expiry ex)" "f \<in> set ids" for f
  proof -
    let ?m = "\<lparr>m_lock_id = i, type_name = normalizeTypeName ty, feature_id = f\<rparr>"
    let ?l = "\<lparr>lease_id = i, lease_owner = ow, acquired_at = unix_nano now, expires_at = unix_nano (now + effective_expiry ex)\<rparr>"
    have "?m \<in> set (members d')" "?l \<in> set (leases d')"
      using that by (auto simp: sql_granted_def Let_def)
    then have "sql_covers d' (unix_nano t) i (normalizeTypeName ty) f"
      unfolding sql_covers_iff using that(2) by (intro bexI [of _ ?m] bexI [of _ ?l]) (auto simp: guard_key_def)
    then show ?thesis by (simp add: sql_Check_def)
  qed
  have acq: "Acquired l = now" if "r = Inr (Some l)" for l
    using e that unfolding sql_Acquire_def Let_def commit_tx_def
    by (auto split: if_splits sum.splits bool.splits option.splits)
  have "(case (r, d') of
      (Inr (Some l), d') \<Rightarrow> ID l = i \<and> FeatureIDs l = ids \<and> TypeName l = ty \<and> Acquired l = now
    | (Inr None, d') \<Rightarrow> d' = d
    | (Inl e, d') \<Rightarrow> d' = d \<or> fault CommitAcknowledgement \<and>
        (unix_nano t \<le> unix_nano (now + effective_expiry ex) \<longrightarrow>
           (\<forall>f \<in> set ids. sql_Check (\<lambda>_. False) t d' i ty f = None)))"
    using e held acq by (cases rule: sql_Acquire_cases) auto
  then show ?thesis unfolding e by (simp add: sql_IsLocked_def sql_Check_def)
qed

theorem sql_lock_fails_closed_witness:
  "sql_Acquire (\<lambda>s. s = CommitAcknowledgement) 0 ''lock-a'' sql_New ''roads'' [7] ''u'' 10 =
     (Inl (StorageFailure CommitAcknowledgement),
      \<lparr>leases = [\<lparr>lease_id = ''lock-a'', lease_owner = ''u'', acquired_at = 0, expires_at = 10\<rparr>],
       members = [\<lparr>m_lock_id = ''lock-a'', type_name = ''roads'', feature_id = 7\<rparr>]\<rparr>) \<and>
   sql_Check (\<lambda>_. False) 5
      \<lparr>leases = [\<lparr>lease_id = ''lock-a'', lease_owner = ''u'', acquired_at = 0, expires_at = 10\<rparr>],
       members = [\<lparr>m_lock_id = ''lock-a'', type_name = ''roads'', feature_id = 7\<rparr>]\<rparr> ''lock-a'' ''roads'' 7 = None \<and>
   sql_IsLocked sqlite_driver 0 sql_New ''roads'' (2 ^ 63)"
proof -
  have e: "sql_Acquire (\<lambda>s. s = CommitAcknowledgement) 0 ''lock-a'' sql_New ''roads'' [7] ''u'' 10 =
     (Inl (StorageFailure CommitAcknowledgement),
      \<lparr>leases = [\<lparr>lease_id = ''lock-a'', lease_owner = ''u'', acquired_at = 0, expires_at = 10\<rparr>],
       members = [\<lparr>m_lock_id = ''lock-a'', type_name = ''roads'', feature_id = 7\<rparr>]\<rparr>)"
    by (simp add: lock_eval)
  have "effective_expiry 10 = 10" "clock_range 5" "clock_range 10" "sqlite_driver (SelectLocked (2 ^ 63))"
    by (simp_all add: effective_expiry_def clock_range_def sqlite_driver_def)
  then show ?thesis
    using e sql_lock_fails_closed [where fault = "\<lambda>s. s = CommitAcknowledgement" and now = 0 and i = "''lock-a''"
        and d = sql_New and ty = "''roads''" and ids = "[7]" and ow = "''u''" and ex = 10 and t = 5 and f = 7]
      sql_lock_fails_closed [where fault = sqlite_driver and now = 0 and d = sql_New and ty = "''roads''" and f = "2 ^ 63"]
    by (simp add: sql_New_def)
qed

text \<open>
  The two stores agree from time \<open>T\<close> on: the same tokens cover the same features.
\<close>

definition lock_rel :: "int \<Rightarrow> lock_db \<Rightarrow> memoryLockStore \<Rightarrow> bool" where
  "lock_rel T d s \<longleftrightarrow> sql_inv d \<and> mem_inv s \<and>
     (\<forall>t i n f. T \<le> t \<longrightarrow> sql_covers d t i n f = mem_holds s t i n f)"

lemma lock_rel_Acquire:
  assumes rel: "lock_rel T d s" and now: "T \<le> now"
    and new: "\<not> sql_known d i" "map_of s i = None" and dist: "distinct ids"
    and clock: "clock_range now" "clock_range (now + effective_expiry ex)"
    and a: "sql_Acquire (\<lambda>_. False) now i d ty ids ow ex = (r, d')" "mem_Acquire now i s ty ids ow ex = (q, s')"
  shows "r = Inr q \<and> lock_rel now d' s'"
proof -
  have inv: "sql_inv d" "mem_inv s" and h: "\<And>t i n f. T \<le> t \<Longrightarrow> sql_covers d t i n f = mem_holds s t i n f"
    using rel by (auto simp: lock_rel_def)
  have m: "mem_acquire_res now i s ty ids ow ex = (Inr q, s')" using a(2) by (simp add: mem_acquire_res_def)
  have inv': "sql_inv d'" "mem_inv s'"
    using sql_inv_Acquire [OF inv(1), of "\<lambda>_. False" now i ty ids ow ex] mem_inv_Acquire [OF inv(2), of now i ty ids ow ex] a
    by simp_all
  show ?thesis
  proof (cases "\<exists>f j. f \<in> set ids \<and> mem_holds s now j (normalizeTypeName ty) f")
    case True
    have q: "q = None" using a(2) True by (auto simp: mem_Acquire_def Let_def mem_conflict_holds inv(2) split: if_splits)
    have r: "r = Inr None" "d' = d"
      using a(1) True h [OF now] clock(1)
      by (auto simp: sql_Acquire_def Let_def sql_conflicts_no_fault sql_any_iff sql_covers_purge [OF inv(1)] split: bool.splits)
    show ?thesis using q r inv' h now mem_refused [OF inv(2) m [unfolded q]] by (simp add: lock_rel_def)
  next
    case False
    then obtain l d2 where "sql_Acquire (\<lambda>_. False) now i d ty ids ow ex = (Inr (Some l), d2)"
      using sql.acquire_possible [OF inv(1) new(1) clock(1) dist] h [OF now] by blast
    with a(1) have r: "r = Inr (Some l)" and sg: "sql_Acquire (\<lambda>_. False) now i d ty ids ow ex = (Inr (Some l), d')" by auto
    have "sql_Acquire (\<lambda>_. False) now i d ty ids ow ex = (Inr (Some k), d') \<Longrightarrow>
        k = \<lparr>ID = i, TypeName = ty, FeatureIDs = ids, Owner = ow, Acquired = now, Expires = now + effective_expiry ex\<rparr>" for k
      unfolding sql_Acquire_def Let_def commit_tx_def by (auto split: sum.splits bool.splits option.splits)
    note l_eq = this [OF sg]
    have nc: "\<not> mem_conflict (mem_purge now s) (normalizeTypeName ty) ids"
      using False by (simp add: mem_conflict_holds inv(2))
    have q: "q = Some l" using a(2) by (simp add: mem_Acquire_def Let_def nc l_eq)
    show ?thesis using r q inv' h now clock(2)
        sql.acquire_granted [OF inv(1) new(1) clock(1) sg] mem.acquire_granted [OF inv(2) _ _ m [unfolded q]] new(2)
      by (simp add: lock_rel_def)
  qed
qed

text \<open>The statements of an acquisition that bind none but the given identifiers are carried out.\<close>

definition accepts :: "(sql_stmt \<Rightarrow> bool) \<Rightarrow> u64 list \<Rightarrow> bool" where
  "accepts fault ids \<longleftrightarrow> (\<forall>s. fault s \<longrightarrow> (\<exists>f. bound_id s = Some f \<and> f \<notin> set ids))"

lemma acceptsD:
  assumes "accepts fault ids"
  shows "bound_id s = None \<Longrightarrow> \<not> fault s" "bound_id s = Some f \<Longrightarrow> f \<in> set ids \<Longrightarrow> \<not> fault s"
  using assms unfolding accepts_def by fastforce+

lemma sqlite_accepts: "(\<forall>f \<in> set ids. unat f < 2 ^ 63) \<Longrightarrow> accepts sqlite_driver ids"
  by (force simp: accepts_def sqlite_driver_def split: option.splits)

lemma sql_Acquire_accepts:
  assumes "accepts fault ids"
  shows "sql_Acquire fault now i d ty ids ow ex = sql_Acquire (\<lambda>_. False) now i d ty ids ow ex"
proof -
  have "sql_conflicts fault d1 now n k gs = sql_conflicts (\<lambda>_. False) d1 now n k gs" if "set gs \<subseteq> set ids" for d1 now n k gs
    using that by (induction gs arbitrary: k) (auto simp: acceptsD [OF assms])
  moreover have "insert_members fault i n k gs d2 = insert_members (\<lambda>_. False) i n k gs d2" if "set gs \<subseteq> set ids" for n k gs d2
    using that by (induction gs arbitrary: k d2) (auto simp: acceptsD [OF assms] split: option.split)
  moreover have "commit_tx fault r old d3 = commit_tx (\<lambda>_. False) r old d3" for r :: "FeatureLock option" and old d3
    by (simp add: commit_tx_def acceptsD [OF assms])
  ultimately show ?thesis
    by (simp add: sql_Acquire_def Let_def acceptsD [OF assms] cong: sum.case_cong bool.case_cong option.case_cong)
qed

text \<open>
  C16. The database store refines the in-memory store while its clock and its driver can represent the
  values. When the two agree on which token covers which feature from some time on, the storage
  does not fail, the token is unused in both, the feature list has no duplicates, the current
  time and the expiry fit \<^verbatim>\<open>UnixNano\<close> and the feature identifiers are below \<open>2 ^ 63\<close>, an
  acquisition at a later time gives the same answer (the same lock or the same refusal) and
  leaves them in agreement; so does a release of the same token, and their checks and lock queries
  agree. An identifier from \<open>2 ^ 63\<close> on, which SQLite's driver does not bind, is always locked and never
  passes a check in the database store.
\<close>

theorem sql_lock_refines_memory:
  assumes "lock_rel T d s" "T \<le> now"
    and "\<not> sql_known d i" "map_of s i = None" "distinct ids"
    and "clock_range now" "clock_range (now + effective_expiry ex)"
    and "\<forall>g \<in> set (f # ids). unat g < 2 ^ 63" "2 ^ 63 \<le> unat big"
  shows "fst (sql_Acquire sqlite_driver now i d ty ids ow ex) = Inr (fst (mem_Acquire now i s ty ids ow ex)) \<and>
    lock_rel now (snd (sql_Acquire sqlite_driver now i d ty ids ow ex)) (snd (mem_Acquire now i s ty ids ow ex)) \<and>
    lock_rel T (snd (sql_Release sqlite_driver d j)) (mem_Release s j) \<and>
    (sql_Check sqlite_driver now d j ty f = None \<longleftrightarrow> fst (mem_Check now s j ty f) = None) \<and>
    sql_IsLocked sqlite_driver now d ty f = mem_IsLocked now s ty f \<and>
    sql_IsLocked sqlite_driver now d ty big \<and> sql_Check sqlite_driver now d j ty big \<noteq> None"
proof -
  have inv: "sql_inv d" "mem_inv s" and h: "\<And>t i n f. T \<le> t \<Longrightarrow> sql_covers d t i n f = mem_holds s t i n f"
    using assms(1) by (auto simp: lock_rel_def)
  have ids: "\<forall>g \<in> set ids. unat g < 2 ^ 63" and f: "\<not> sqlite_driver (SelectCover f)" "\<not> sqlite_driver (SelectLocked f)"
    and big: "sqlite_driver (SelectCover big)" "sqlite_driver (SelectLocked big)" using assms(8,9) by (simp_all add: sqlite_driver_def)
  have "sql_Release sqlite_driver d j = sql_Release (\<lambda>_. False) d j"
    by (simp add: sql_Release_def sqlite_driver_def commit_tx_def)
  then have "lock_rel T (snd (sql_Release sqlite_driver d j)) (mem_Release s j)"
    using h inv sql.release_inv [OF inv(1)] mem.release_inv [OF inv(2)]
    by (simp add: lock_rel_def sql.release_holds mem.release_holds)
  moreover have "sql_Check sqlite_driver now d j ty f = None \<longleftrightarrow> fst (mem_Check now s j ty f) = None"
    using h [OF assms(2)] f(1) assms(6) by (simp add: sql_Check_def mem.check_holds [OF inv(2)])
  moreover have "sql_IsLocked sqlite_driver now d ty f = mem_IsLocked now s ty f"
    using h [OF assms(2)] f(2) assms(6) by (simp add: sql_IsLocked_def sql_any_iff mem.is_locked_holds [OF inv(2)])
  moreover have "sql_IsLocked sqlite_driver now d ty big" "sql_Check sqlite_driver now d j ty big \<noteq> None"
    using big by (simp_all add: sql_IsLocked_def sql_Check_def)
  ultimately show ?thesis
    using lock_rel_Acquire [OF assms(1-7), of ty ow] sql_Acquire_accepts [OF sqlite_accepts [OF ids]] by (metis prod.collapse)
qed

theorem sql_lock_refines_memory_witness:
  "lock_rel 3 (snd (sql_Acquire sqlite_driver 3 ''lock-a'' sql_New ''roads'' [7] ''u'' 10))
     (snd (mem_Acquire 3 ''lock-a'' mem_New ''roads'' [7] ''u'' 10)) \<and>
   sql_IsLocked sqlite_driver 3 sql_New ''roads'' (2 ^ 63)"
proof -
  have "lock_rel 0 sql_New mem_New"
    by (simp add: lock_rel_def sql_New_def mem_New_def sql_inv_def mem_inv_def sql_covers_def mem_holds_def)
  then show ?thesis
    using sql_lock_refines_memory [of 0 sql_New mem_New 3 "''lock-a''" "[7]" 10 7 "2 ^ 63" "''roads''" "''u''"]
    by (simp add: sql_known_def sql_New_def mem_New_def clock_range_def effective_expiry_def)
qed

text \<open>The two stores behind the installed one, and its reachable states.\<close>

definition store_inv :: "LockStore \<Rightarrow> bool" where
  "store_inv st = (case st of MemoryStore s \<Rightarrow> mem_inv s | SQLStore d \<Rightarrow> sql_inv d)"

definition store_known :: "LockStore \<Rightarrow> string \<Rightarrow> bool" where
  "store_known st i = (case st of MemoryStore s \<Rightarrow> map_of s i \<noteq> None | SQLStore d \<Rightarrow> sql_known d i)"

lemma effective_expiry_idem [simp]: "effective_expiry (effective_expiry e) = effective_expiry e"
  by (simp add: effective_expiry_def defaultExpiry_def)

end
