(* ===== verification/Wfs_Lock_Live.thy ===== *)
theory Wfs_Lock_Live
  imports Wfs_Lock
begin

text \<open>
  Progress of the feature locks of \<^verbatim>\<open>src/ogc/wfs\<close>: leases expire and refused attempts extend none, so a
  client that keeps asking until the leases it found have run out gets its lock. The contract of a
  lock store is extended by one law, that an acquisition without storage failures is decided.
\<close>

section \<open>Stores that decide\<close>

locale expiring_store = lock_store +
  assumes acquire_decided: "inv s \<Longrightarrow> \<not> known s i \<Longrightarrow> clock now \<Longrightarrow> distinct ids \<Longrightarrow> \<exists>r s'. acquire now i s ty ids ow ex = (Inr r, s')"
begin

text \<open>Refused attempts extend no lease.\<close>

lemma refused_run:
  fixes st :: "nat \<Rightarrow> 'a" and \<tau> :: "nat \<Rightarrow> int"
  assumes inv: "inv (st 0)" and fresh: "\<And>k. \<not> known (st k) (tok k)" and ids: "distinct ids" and clock: "\<And>k. clock (\<tau> k)"
    and run: "\<And>k. st (Suc k) = snd (acquire (\<tau> k) (tok k) (st k) ty ids ow ex)" and "mono \<tau>"
    and refused: "\<And>k l. k < n \<Longrightarrow> fst (acquire (\<tau> k) (tok k) (st k) ty ids ow ex) \<noteq> Inr (Some l)"
  shows "k \<le> n \<Longrightarrow> inv (st k) \<and> (\<forall>t \<ge> \<tau> k. \<forall>i m f. holds (st k) t i m f = holds (st 0) t i m f)"
proof (induction k)
  case (Suc k)
  then have i: "inv (st k)" and h: "\<forall>t \<ge> \<tau> k. \<forall>i m f. holds (st k) t i m f = holds (st 0) t i m f" by auto
  from acquire_decided [OF i fresh clock ids] obtain r s' where a: "acquire (\<tau> k) (tok k) (st k) ty ids ow ex = (Inr r, s')" by blast
  with refused [of k] Suc.prems have "acquire (\<tau> k) (tok k) (st k) ty ids ow ex = (Inr None, s')" by (cases r) auto
  from acquire_refused [OF i clock this] a run [of k] h have "\<forall>t \<ge> \<tau> k. \<forall>i m f. holds (st (Suc k)) t i m f = holds (st 0) t i m f" by auto
  moreover have "\<tau> k \<le> \<tau> (Suc k)" using \<open>mono \<tau>\<close> by (simp add: monoD)
  moreover have "inv (st (Suc k))" using acquire_inv [OF i] run [of k] by simp
  ultimately show ?case by fastforce
qed (simp add: inv)

lemma retry_succeeds:
  fixes st :: "nat \<Rightarrow> 'a" and \<tau> :: "nat \<Rightarrow> int"
  assumes "inv (st 0)" "\<And>k. \<not> known (st k) (tok k)" "distinct ids" "\<And>k. clock (\<tau> k)"
    and "\<And>k. st (Suc k) = snd (acquire (\<tau> k) (tok k) (st k) ty ids ow ex)" "mono \<tau>"
    and expired: "\<And>i m f. \<not> holds (st 0) (\<tau> n) i m f"
  shows "\<exists>k \<le> n. \<exists>l. fst (acquire (\<tau> k) (tok k) (st k) ty ids ow ex) = Inr (Some l)"
proof (rule ccontr)
  assume "\<not> ?thesis"
  then have no: "\<And>k l. k \<le> n \<Longrightarrow> fst (acquire (\<tau> k) (tok k) (st k) ty ids ow ex) \<noteq> Inr (Some l)" by blast
  then have "\<And>k l. k < n \<Longrightarrow> fst (acquire (\<tau> k) (tok k) (st k) ty ids ow ex) \<noteq> Inr (Some l)" by (meson less_imp_le)
  from refused_run [OF assms(1-6) this order_refl] have "inv (st n)" "\<And>i m f. \<not> holds (st n) (\<tau> n) i m f" using expired by auto
  from acquire_possible [OF this(1) assms(2) assms(4) assms(3) this(2)] no [of n] show False by (metis fst_conv order_refl)
qed

end

section \<open>Both stores\<close>

text \<open>The times at which the leases in a store expire, and the times the store can tell.\<close>

definition store_expiries :: "LockStore \<Rightarrow> int set" where
  "store_expiries st = (case st of MemoryStore s \<Rightarrow> Expires ` snd ` set s | SQLStore d \<Rightarrow> expires_at ` set (leases d))"

definition store_clock :: "LockStore \<Rightarrow> int \<Rightarrow> bool" where
  "store_clock st t = (case st of MemoryStore s \<Rightarrow> True | SQLStore d \<Rightarrow> clock_range t)"

lemma mem_expired: "(\<And>T. T \<in> Expires ` snd ` set s \<Longrightarrow> T < t) \<Longrightarrow> \<not> mem_holds s t i n f"
  by (force simp: mem_holds_def dest: map_of_SomeD)

lemma sql_expired: "(\<And>T. T \<in> expires_at ` set (leases d) \<Longrightarrow> T < t) \<Longrightarrow> \<not> sql_covers d t i n f"
  by (force simp: sql_covers_iff)

lemma sql_decided:
  assumes "sql_inv d" "\<not> sql_known d i" "clock_range now" "distinct ids"
  shows "\<exists>r d'. sql_Acquire (\<lambda>_. False) now i d ty ids ow ex = (Inr r, d')"
proof (cases "\<exists>f j. f \<in> set ids \<and> sql_covers d now j (normalizeTypeName ty) f")
  case True
  then have "sql_conflicts (\<lambda>_. False) (sql_purge now d) now (normalizeTypeName ty) 0 ids = Inr True"
    by (auto simp: sql_conflicts_no_fault sql_any_iff sql_covers_purge [OF assms(1)] list_ex_iff)
  then show ?thesis using assms(3) by (simp add: sql_Acquire_def Let_def)
next
  case False
  with sql.acquire_possible [OF assms] show ?thesis by blast
qed

lemma mem_decided: "\<exists>r s'. mem_acquire_res now i s ty ids ow ex = (Inr r, s')"
  by (cases "mem_Acquire now i s ty ids ow ex") (simp add: mem_acquire_res_def)

interpretation mem_live: expiring_store
  mem_inv mem_holds "\<lambda>s i. map_of s i \<noteq> None" "\<lambda>_. True" "\<lambda>now ex. now + effective_expiry ex" mem_acquire_res mem_Release
  "\<lambda>now s i ty f. fst (mem_Check now s i ty f)" mem_IsLocked
  by unfold_locales (auto intro: mem_decided)

interpretation sql_live: expiring_store
  sql_inv sql_covers sql_known clock_range "\<lambda>now ex. unix_nano (now + effective_expiry ex)" "sql_Acquire (\<lambda>_. False)"
  "\<lambda>d i. snd (sql_Release (\<lambda>_. False) d i)" "sql_Check (\<lambda>_. False)" "sql_IsLocked (\<lambda>_. False)"
  by unfold_locales (rule sql_decided)

section \<open>Progress\<close>

lemma AcquireLock_memory:
  "fst (AcquireLock fault now i (MemoryStore s) ty ids ex) = fst (mem_Acquire now i s ty ids [] (effective_expiry ex))"
  "snd (AcquireLock fault now i (MemoryStore s) ty ids ex) = MemoryStore (snd (mem_Acquire now i s ty ids [] (effective_expiry ex)))"
  by (cases "mem_Acquire now i s ty ids [] (effective_expiry ex)"; simp add: AcquireLock_def store_Acquire_def)+

lemma AcquireLock_sql:
  "fst (AcquireLock fault now i (SQLStore d) ty ids ex) = (case fst (sql_Acquire fault now i d ty ids [] (effective_expiry ex)) of Inr l \<Rightarrow> l | Inl e \<Rightarrow> None)"
  "snd (AcquireLock fault now i (SQLStore d) ty ids ex) = SQLStore (snd (sql_Acquire fault now i d ty ids [] (effective_expiry ex)))"
  by (cases "sql_Acquire fault now i d ty ids [] (effective_expiry ex)"; simp add: AcquireLock_def store_Acquire_def split: sum.split)+

text \<open>A store in which feature 7 is held until time 10, asked for again at times 0, 5, 10, 15 and so on.\<close>

definition sample_held :: memoryLockStore where
  "sample_held = [(''a'', \<lparr>ID = ''a'', TypeName = ''roads'', FeatureIDs = [7], Owner = [], Acquired = 0, Expires = 10\<rparr>)]"

definition sample_token :: "nat \<Rightarrow> string" where
  "sample_token k = replicate (Suc k) (CHR ''b'')"

primrec sample_retry :: "nat \<Rightarrow> LockStore" where
  "sample_retry 0 = MemoryStore sample_held"
| "sample_retry (Suc k) = snd (AcquireLock (\<lambda>_. False) (5 * int k) (sample_token k) (sample_retry k) ''roads'' [7] 0)"

lemma mem_Acquire_tokens: "fst ` set (snd (mem_Acquire now i s ty ids ow ex)) \<subseteq> insert i (fst ` set s)"
proof -
  have "fst ` set (mem_purge now s) \<subseteq> fst ` set s" by (auto simp: mem_purge_def)
  then show ?thesis by (auto simp: mem_Acquire_def Let_def dom_update)
qed

lemma sample_retry_tokens: "\<exists>s. sample_retry k = MemoryStore s \<and> fst ` set s \<subseteq> insert ''a'' (sample_token ` {..<k})"
proof (induction k)
  case (Suc k)
  then obtain s where "sample_retry k = MemoryStore s" "fst ` set s \<subseteq> insert ''a'' (sample_token ` {..<k})" by blast
  with mem_Acquire_tokens [of "5 * int k" "sample_token k" s "''roads''" "[7]" "[]" "effective_expiry 0"] show ?case
    by (auto simp: AcquireLock_memory lessThan_Suc)
qed (simp add: sample_held_def)

text \<open>
  C18. A client that keeps asking gets the lock: over either store, if a client repeats \<^verbatim>\<open>AcquireLock\<close>
  for distinct features with unused tokens at times that do not go backwards and that the store can
  tell, no one else acquires locks, and neither the storage nor the driver refuses the statements
  about these features, then an attempt is granted no later than the first one made after all the
  leases found in the store have expired, whatever those leases are.
\<close>

theorem lock_retry_succeeds:
  fixes \<tau> :: "nat \<Rightarrow> int"
  assumes "store_inv (st 0)" and "\<forall>k. \<not> store_known (st k) (tok k)" and "distinct ids" and "accepts fault ids"
    and "\<forall>k. st (Suc k) = snd (AcquireLock fault (\<tau> k) (tok k) (st k) ty ids ex)"
    and "mono \<tau>" and "\<forall>k. store_clock (st 0) (\<tau> k)" and "\<forall>T \<in> store_expiries (st 0). T < \<tau> n"
  shows "\<exists>k \<le> n. \<exists>l. fst (AcquireLock fault (\<tau> k) (tok k) (st k) ty ids ex) = Some l"
proof (cases "st 0")
  case (MemoryStore s0)
  define s where "s = rec_nat s0 (\<lambda>k s. snd (mem_Acquire (\<tau> k) (tok k) s ty ids [] (effective_expiry ex)))"
  have st: "st k = MemoryStore (s k)" for k
    by (induction k) (simp_all add: s_def MemoryStore assms(5) AcquireLock_memory)
  have "\<not> mem_holds (s 0) (\<tau> n) i m f" for i m f
    using assms(8) st by (intro mem_expired) (auto simp: store_expiries_def)
  then have "\<exists>k \<le> n. \<exists>l. fst (mem_acquire_res (\<tau> k) (tok k) (s k) ty ids [] (effective_expiry ex)) = Inr (Some l)"
    by (intro mem_live.retry_succeeds)
      (use assms(1,2,3,6) st in \<open>auto simp: store_inv_def store_known_def s_def mem_acquire_res_def\<close>)
  then show ?thesis by (simp add: st AcquireLock_memory mem_acquire_res_def)
next
  case (SQLStore d0)
  note acc = sql_Acquire_accepts [OF assms(4)]
  define d where "d = rec_nat d0 (\<lambda>k d. snd (sql_Acquire (\<lambda>_. False) (\<tau> k) (tok k) d ty ids [] (effective_expiry ex)))"
  have st: "st k = SQLStore (d k)" for k
    by (induction k) (simp_all add: d_def SQLStore assms(5) AcquireLock_sql acc)
  have "\<not> sql_covers (d 0) (\<tau> n) i m f" for i m f
    using assms(8) st by (intro sql_expired) (auto simp: store_expiries_def)
  then have "\<exists>k \<le> n. \<exists>l. fst (sql_Acquire (\<lambda>_. False) (\<tau> k) (tok k) (d k) ty ids [] (effective_expiry ex)) = Inr (Some l)"
    by (intro sql_live.retry_succeeds)
      (use assms(1,2,3,6,7) st in \<open>auto simp: store_inv_def store_known_def store_clock_def d_def\<close>)
  then obtain k l where "k \<le> n" "fst (sql_Acquire (\<lambda>_. False) (\<tau> k) (tok k) (d k) ty ids [] (effective_expiry ex)) = Inr (Some l)" by blast
  then show ?thesis by (intro exI [of _ k] conjI exI [of _ l]) (simp_all add: st AcquireLock_sql acc)
qed

theorem lock_retry_succeeds_witness:
  "\<exists>k \<le> 3. \<exists>l. fst (AcquireLock (\<lambda>_. False) (5 * int k) (sample_token k) (sample_retry k) ''roads'' [7] 0) = Some l"
proof (rule lock_retry_succeeds)
  show "store_inv (sample_retry 0)" by (simp add: store_inv_def mem_inv_def sample_held_def)
  have "sample_token k \<notin> insert ''a'' (sample_token ` {..<k})" for k
    by (auto simp: sample_token_def dest: arg_cong [where f = length])
  then show "\<forall>k. \<not> store_known (sample_retry k) (sample_token k)"
  proof (intro allI)
    fix k
    obtain s where "sample_retry k = MemoryStore s" "fst ` set s \<subseteq> insert ''a'' (sample_token ` {..<k})" using sample_retry_tokens by blast
    with \<open>\<And>k. sample_token k \<notin> insert ''a'' (sample_token ` {..<k})\<close> [of k] show "\<not> store_known (sample_retry k) (sample_token k)"
      by (auto simp: store_known_def map_of_eq_None_iff)
  qed
  show "\<forall>T \<in> store_expiries (sample_retry 0). T < 5 * int 3" by (simp add: store_expiries_def sample_held_def)
qed (auto simp: mono_def accepts_def store_clock_def)

end
