(* ===== verification/Provider_Temporal.thy ===== *)
theory Provider_Temporal
  imports Complex_Main Go_Utf8 "HOL-Library.Monad_Syntax" "HOL-Library.Product_Lexorder"
begin

text \<open>
  Temporal values of feature queries, \<^verbatim>\<open>src/provider/temporal_bound.go\<close>,
  \<^verbatim>\<open>src/provider/temporal.go\<close>, the temporal constraint of \<^verbatim>\<open>src/provider/query.go\<close>, the
  instant parser of \<^verbatim>\<open>src/provider/query_filter.go\<close> and the RFC 3339 check of
  \<^verbatim>\<open>src/feature/schema.go\<close>. A Go time is its Unix second and nanosecond in UTC; digits
  beyond the nanosecond are kept as text, and an inserted leap second is a flag on the
  preceding ordinary second. The lemmas show that endpoints are compared by their exact
  value and that no digit of a parsed timestamp is lost.
\<close>

section \<open>Query errors\<close>

text \<open>An unsupported filter is an invalid-query error joined with \<^verbatim>\<open>ErrUnsupported\<close>.\<close>

datatype query_error =
    InvalidFeatureQueryError (err_field: string) (err_reason: string)
  | UnsupportedFilterError (err_field: string) (err_reason: string)

section \<open>Times\<close>

record Time =
  Unix :: int
  Nanosecond :: nat

definition leap_year :: "nat \<Rightarrow> bool" where
  "leap_year y \<longleftrightarrow> y mod 4 = 0 \<and> (y mod 100 \<noteq> 0 \<or> y mod 400 = 0)"

definition days_in :: "nat \<Rightarrow> nat \<Rightarrow> nat" where
  "days_in y m =
     (if m = 2 then (if leap_year y then 29 else 28)
      else if m \<in> {4, 6, 9, 11} then 30 else 31)"

definition valid_date :: "nat \<Rightarrow> nat \<Rightarrow> nat \<Rightarrow> bool" where
  "valid_date y m d \<longleftrightarrow> 1 \<le> m \<and> m \<le> 12 \<and> 1 \<le> d \<and> d \<le> days_in y m"

text \<open>Days since 1970-01-01 in the proleptic Gregorian calendar.\<close>

definition days_from_civil :: "nat \<Rightarrow> nat \<Rightarrow> nat \<Rightarrow> int" where
  "days_from_civil y m d =
     (let y' = (if m \<le> 2 then int y - 1 else int y);
          era = y' div 400;
          yoe = y' - era * 400;
          doy = (153 * int ((m + 9) mod 12) + 2) div 5 + int d - 1;
          doe = yoe * 365 + yoe div 4 - yoe div 100 + doy
      in era * 146097 + doe - 719468)"

text \<open>The day whose last second was followed by an inserted one, as announced.\<close>

definition leap_second_days :: "(nat \<times> nat \<times> nat) list" where
  "leap_second_days =
     [(1972, 6, 30), (1972, 12, 31), (1973, 12, 31), (1974, 12, 31), (1975, 12, 31),
      (1976, 12, 31), (1977, 12, 31), (1978, 12, 31), (1979, 12, 31), (1981, 6, 30),
      (1982, 6, 30), (1983, 6, 30), (1985, 6, 30), (1987, 12, 31), (1989, 12, 31),
      (1990, 12, 31), (1992, 6, 30), (1993, 6, 30), (1994, 6, 30), (1995, 12, 31),
      (1997, 6, 30), (1998, 12, 31), (2005, 12, 31), (2008, 12, 31), (2012, 6, 30),
      (2015, 6, 30), (2016, 12, 31)]"

definition IsPositiveLeapSecondPredecessor :: "Time \<Rightarrow> bool" where
  "IsPositiveLeapSecondPredecessor t =
     (let sec = Unix t mod 86400 in
      if sec div 3600 \<noteq> 23 \<or> sec div 60 mod 60 \<noteq> 59 \<or> sec mod 60 \<noteq> 59 then False
      else list_ex (\<lambda>(y, m, d). Unix t div 86400 = days_from_civil y m d) leap_second_days)"

definition validateTemporalEndpoint :: "Time option \<Rightarrow> string \<Rightarrow> bool \<Rightarrow> query_error + unit" where
  "validateTemporalEndpoint t fraction leap =
     (if t = None \<and> (fraction \<noteq> [] \<or> leap)
      then Inl (InvalidFeatureQueryError ''temporal'' ''fraction and leap marker require an endpoint'')
      else if \<not> list_all is_digit fraction
      then Inl (InvalidFeatureQueryError ''temporal'' ''subnanosecond fraction must contain decimal digits'')
      else if leap \<and> \<not> (case t of Some u \<Rightarrow> IsPositiveLeapSecondPredecessor u | None \<Rightarrow> False)
      then Inl (InvalidFeatureQueryError ''temporal'' ''leap marker does not identify an announced positive insertion'')
      else Inr ())"

section \<open>Comparing endpoints\<close>

text \<open>The digit loop: a missing digit reads as zero.\<close>

fun compare_digits :: "string \<Rightarrow> string \<Rightarrow> int" where
  "compare_digits [] [] = 0"
| "compare_digits (x # xs) [] =
     (if byte x < 48 then -1 else if byte x > 48 then 1 else compare_digits xs [])"
| "compare_digits [] (y # ys) =
     (if 48 < byte y then -1 else if 48 > byte y then 1 else compare_digits [] ys)"
| "compare_digits (x # xs) (y # ys) =
     (if byte x < byte y then -1 else if byte x > byte y then 1 else compare_digits xs ys)"

definition compareTemporalEndpoints :: "Time \<Rightarrow> string \<Rightarrow> bool \<Rightarrow> Time \<Rightarrow> string \<Rightarrow> bool \<Rightarrow> int" where
  "compareTemporalEndpoints a af al b bf bl =
     (if Unix a < Unix b then -1
      else if Unix a > Unix b then 1
      else if al \<noteq> bl then (if al then 1 else -1)
      else if Nanosecond a < Nanosecond b then -1
      else if Nanosecond a > Nanosecond b then 1
      else compare_digits af bf)"

record TemporalConstraint =
  Start :: "Time option"
  End :: "Time option"
  StartSubNanosecond :: string
  EndSubNanosecond :: string
  StartLeapSecond :: bool
  EndLeapSecond :: bool

definition TemporalConstraint_Validate :: "TemporalConstraint \<Rightarrow> query_error + unit" where
  "TemporalConstraint_Validate t =
     (if Start t = None \<and> End t = None
      then Inl (InvalidFeatureQueryError ''temporal'' ''both bounds are open'')
      else case validateTemporalEndpoint (Start t) (StartSubNanosecond t) (StartLeapSecond t) of
          Inl e \<Rightarrow> Inl e
        | Inr _ \<Rightarrow>
            (case validateTemporalEndpoint (End t) (EndSubNanosecond t) (EndLeapSecond t) of
               Inl e \<Rightarrow> Inl e
             | Inr _ \<Rightarrow>
                 (case (Start t, End t) of
                    (Some s, Some e) \<Rightarrow>
                      if compareTemporalEndpoints s (StartSubNanosecond t) (StartLeapSecond t)
                           e (EndSubNanosecond t) (EndLeapSecond t) > 0
                      then Inl (InvalidFeatureQueryError ''temporal'' ''start follows end'')
                      else Inr ()
                  | _ \<Rightarrow> Inr ())))"

record TemporalMapping =
  InstantField :: string
  StartField :: string
  EndField :: string

definition TemporalMapping_Validate :: "TemporalMapping \<Rightarrow> query_error + unit" where
  "TemporalMapping_Validate m =
     (let hasInstant = (InstantField m \<noteq> []);
          hasInterval = (StartField m \<noteq> [] \<or> EndField m \<noteq> [])
      in if list_ex (\<lambda>field. field \<noteq> [] \<and> TrimSpace field = []) [InstantField m, StartField m, EndField m]
         then Inl (InvalidFeatureQueryError ''temporal'' ''contains a blank source field name'')
         else if hasInstant \<and> hasInterval
         then Inl (InvalidFeatureQueryError ''temporal'' ''instant and interval mappings cannot be combined'')
         else if hasInterval \<and> (StartField m = [] \<or> EndField m = [])
         then Inl (InvalidFeatureQueryError ''temporal'' ''interval requires both source field names'')
         else if hasInterval \<and> StartField m = EndField m
         then Inl (InvalidFeatureQueryError ''temporal'' ''interval source field names must differ'')
         else Inr ())"

section \<open>Timestamps\<close>

text \<open>The fields of a timestamp text: date, time, fraction digits and offset in minutes.\<close>

record civil =
  cyear :: nat
  cmonth :: nat
  cday :: nat
  chour :: nat
  cminute :: nat
  csecond :: nat
  cfraction :: string
  coffset :: int

definition take_digits :: "nat \<Rightarrow> string \<Rightarrow> (nat \<times> string) option" where
  "take_digits n s =
     (if n \<le> length s \<and> list_all is_digit (take n s) then Some (digits_val (take n s), drop n s) else None)"

definition take_char :: "string \<Rightarrow> string \<Rightarrow> string option" where
  "take_char cs s = (case s of c # t \<Rightarrow> if List.member cs c then Some t else None | [] \<Rightarrow> None)"

definition match_date :: "string \<Rightarrow> ((nat \<times> nat \<times> nat) \<times> string) option" where
  "match_date s = do {
     (y, s) \<leftarrow> take_digits 4 s; s \<leftarrow> take_char ''-'' s;
     (m, s) \<leftarrow> take_digits 2 s; s \<leftarrow> take_char ''-'' s;
     (d, s) \<leftarrow> take_digits 2 s; Some ((y, m, d), s) }"

definition match_clock :: "string \<Rightarrow> ((nat \<times> nat \<times> nat) \<times> string) option" where
  "match_clock s = do {
     (h, s) \<leftarrow> take_digits 2 s; s \<leftarrow> take_char '':'' s;
     (m, s) \<leftarrow> take_digits 2 s; s \<leftarrow> take_char '':'' s;
     (sec, s) \<leftarrow> take_digits 2 s; Some ((h, m, sec), s) }"

definition match_fraction :: "string \<Rightarrow> (string \<times> string) option" where
  "match_fraction s = (case s of
       c # t \<Rightarrow>
         if c = CHR ''.'' then
           (if takeWhile is_digit t = [] then None else Some (takeWhile is_digit t, dropWhile is_digit t))
         else Some ([], s)
     | [] \<Rightarrow> Some ([], []))"

definition match_offset :: "string \<Rightarrow> int option" where
  "match_offset s = (case s of
       c # t \<Rightarrow>
         if List.member ''Zz'' c then (if t = [] then Some 0 else None)
         else if List.member ''+-'' c then
           do { (h, t) \<leftarrow> take_digits 2 t; t \<leftarrow> take_char '':'' t; (m, t) \<leftarrow> take_digits 2 t;
                if h \<le> 23 \<and> m \<le> 59 \<and> t = []
                then Some ((if c = CHR ''-'' then -1 else 1) * int (h * 60 + m)) else None }
         else None
     | [] \<Rightarrow> None)"

text \<open>The regular expression \<^verbatim>\<open>rfc3339Input\<close>.\<close>

definition rfc3339Input :: "string \<Rightarrow> civil option" where
  "rfc3339Input s = do {
     ((y, mo, d), s) \<leftarrow> match_date s; s \<leftarrow> take_char ''Tt'' s;
     ((h, mi, sec), s) \<leftarrow> match_clock s; (f, s) \<leftarrow> match_fraction s; off \<leftarrow> match_offset s;
     Some \<lparr>cyear = y, cmonth = mo, cday = d, chour = h, cminute = mi, csecond = sec,
           cfraction = f, coffset = off\<rparr> }"

text \<open>The regular expression \<^verbatim>\<open>filterTimestampPattern\<close>: upper-case T and Z, no offset.\<close>

definition filterTimestampPattern :: "string \<Rightarrow> civil option" where
  "filterTimestampPattern s = do {
     ((y, mo, d), s) \<leftarrow> match_date s; s \<leftarrow> take_char ''T'' s;
     ((h, mi, sec), s) \<leftarrow> match_clock s; (f, s) \<leftarrow> match_fraction s;
     if s = ''Z''
     then Some \<lparr>cyear = y, cmonth = mo, cday = d, chour = h, cminute = mi, csecond = sec,
                cfraction = f, coffset = 0\<rparr>
     else None }"

text \<open>The first nine fraction digits, as nanoseconds.\<close>

definition nanos :: "string \<Rightarrow> nat" where
  "nanos f = digits_val (take 9 (f @ replicate 9 (CHR ''0'')))"

definition civil_seconds :: "civil \<Rightarrow> int" where
  "civil_seconds c =
     days_from_civil (cyear c) (cmonth c) (cday c) * 86400 +
     int (chour c * 3600 + cminute c * 60 + csecond c) - coffset c * 60"

text \<open>\<^verbatim>\<open>time.Parse(time.RFC3339Nano, s)\<close> on a text of that shape.\<close>

definition time_Parse :: "civil \<Rightarrow> Time option" where
  "time_Parse c =
     (if valid_date (cyear c) (cmonth c) (cday c) \<and> chour c < 24 \<and> cminute c < 60 \<and> csecond c < 60
      then Some \<lparr>Unix = civil_seconds c, Nanosecond = nanos (cfraction c)\<rparr> else None)"

definition validRFC3339 :: "string \<Rightarrow> bool" where
  "validRFC3339 value = (case rfc3339Input value of
       None \<Rightarrow> False
     | Some c \<Rightarrow>
         let leap = (csecond c = 60) in
         (case time_Parse (if leap then c\<lparr>csecond := 59\<rparr> else c) of
            None \<Rightarrow> False
          | Some t \<Rightarrow> \<not> leap \<or> IsPositiveLeapSecondPredecessor t))"

record FilterInstant =
  InstantTime :: Time
  SubNanosecond :: string
  LeapSecond :: bool

definition MaxFilterTimestampFractionDigits :: nat where
  "MaxFilterTimestampFractionDigits = 1024"

definition invalidFilter :: "string \<Rightarrow> query_error" where
  "invalidFilter r = InvalidFeatureQueryError ''filter'' r"

definition parseFilterInstant :: "string \<Rightarrow> query_error + FilterInstant" where
  "parseFilterInstant text = (case filterTimestampPattern text of
       None \<Rightarrow> Inl (invalidFilter ''timestamp must use UTC T/Z syntax'')
     | Some c \<Rightarrow>
         if length (cfraction c) > MaxFilterTimestampFractionDigits
         then Inl (invalidFilter ''timestamp fraction exceeds its limit'')
         else
           let leap = (csecond c = 60);
               tail = (if length (cfraction c) > 9 then drop 9 (cfraction c) else []);
               fraction = (if length (cfraction c) > 9 then take 9 (cfraction c) else cfraction c);
               ordinary = (if leap then c\<lparr>csecond := 59, cfraction := fraction\<rparr> else c\<lparr>cfraction := fraction\<rparr>)
           in (case time_Parse ordinary of
                 None \<Rightarrow> Inl (invalidFilter ''invalid timestamp'')
               | Some t \<Rightarrow>
                   (case validateTemporalEndpoint (Some t) tail leap of
                      Inl e \<Rightarrow> Inl (invalidFilter ''timestamp leap second is not an announced insertion'')
                    | Inr _ \<Rightarrow> Inr \<lparr>InstantTime = t, SubNanosecond = tail, LeapSecond = leap\<rparr>)))"

section \<open>Exact values\<close>

fun frac_val :: "string \<Rightarrow> rat" where
  "frac_val [] = 0"
| "frac_val (c # cs) = (of_nat (digit_val c) + frac_val cs) / 10"

lemma digit_val_le_9: "is_digit c \<Longrightarrow> digit_val c \<le> 9"
  by (simp add: is_digit_def digit_val_def, linarith)

lemma frac_val_bounds: "list_all is_digit s \<Longrightarrow> 0 \<le> frac_val s \<and> frac_val s < 1"
proof (induction s)
  case (Cons c s)
  then have "of_nat (digit_val c) \<le> (9 :: rat)" using digit_val_le_9 [of c] by simp
  with Cons show ?case by (simp add: field_simps)
qed simp

lemma digit_byte: "is_digit c \<Longrightarrow> byte c = 48 + digit_val c"
  by (simp add: is_digit_def digit_val_def)

lemma digit_val_inj: "is_digit x \<Longrightarrow> is_digit y \<Longrightarrow> digit_val x = digit_val y \<longleftrightarrow> x = y"
  by (metis digit_byte eq_char_iff)

lemma frac_val_Cons_less:
  assumes "is_digit x" "is_digit y" "list_all is_digit xs" "list_all is_digit ys"
  shows "frac_val (x # xs) < frac_val (y # ys) \<longleftrightarrow>
    digit_val x < digit_val y \<or> digit_val x = digit_val y \<and> frac_val xs < frac_val ys"
proof -
  have b: "0 \<le> frac_val xs" "frac_val xs < 1" "0 \<le> frac_val ys" "frac_val ys < 1"
    using assms frac_val_bounds by auto
  have "of_nat m + 1 \<le> (of_nat n :: rat)" if "m < n" for m n :: nat
    using that by (simp flip: of_nat_Suc)
  then have "digit_val x < digit_val y \<Longrightarrow> of_nat (digit_val x) + 1 \<le> (of_nat (digit_val y) :: rat)"
    "digit_val y < digit_val x \<Longrightarrow> of_nat (digit_val y) + 1 \<le> (of_nat (digit_val x) :: rat)" by blast+
  with b show ?thesis
    by (cases "digit_val x" "digit_val y" rule: linorder_cases) (simp_all add: divide_less_cancel)
qed

lemma frac_val_zeros: "list_all is_digit s \<Longrightarrow> 0 < frac_val (c # s) \<longleftrightarrow> 0 < digit_val c \<or> 0 < frac_val s"
  using frac_val_bounds [of s] by (auto simp: add_pos_nonneg zero_less_divide_iff)

lemma compare_digits_val:
  "list_all is_digit a \<Longrightarrow> list_all is_digit b \<Longrightarrow>
     compare_digits a b = (if frac_val a < frac_val b then -1 else if frac_val a > frac_val b then 1 else 0)"
proof (induction a b rule: compare_digits.induct)
  case 1
  show ?case by simp
next
  case (2 x xs)
  then show ?case using frac_val_bounds [of xs] frac_val_bounds [of "x # xs"] frac_val_zeros [of xs x]
    by (simp add: digit_byte del: frac_val.simps(2))
next
  case (3 y ys)
  then show ?case using frac_val_bounds [of ys] frac_val_bounds [of "y # ys"] frac_val_zeros [of ys y]
    by (simp add: digit_byte del: frac_val.simps(2))
next
  case (4 x xs y ys)
  then show ?case
    by (cases "x = y") (auto simp add: digit_byte digit_val_inj frac_val_Cons_less simp del: frac_val.simps(2))
qed

text \<open>The exact position of an endpoint: its second, whether it is the inserted one, and the
  fraction in nanoseconds.\<close>

definition endpoint_key :: "Time \<Rightarrow> string \<Rightarrow> bool \<Rightarrow> int \<times> bool \<times> rat" where
  "endpoint_key t f leap = (Unix t, leap, of_nat (Nanosecond t) + frac_val f)"

lemma of_nat_add_frac_less:
  assumes "list_all is_digit f" "list_all is_digit g"
  shows "of_nat m + frac_val f < of_nat n + frac_val g \<longleftrightarrow> m < n \<or> m = n \<and> frac_val f < frac_val g"
proof -
  have b: "0 \<le> frac_val f" "frac_val f < 1" "0 \<le> frac_val g" "frac_val g < 1"
    using assms frac_val_bounds by auto
  have "of_nat k + 1 \<le> (of_nat l :: rat)" if "k < l" for k l :: nat
    using that by (simp flip: of_nat_Suc)
  then have "m < n \<Longrightarrow> of_nat m + 1 \<le> (of_nat n :: rat)" "n < m \<Longrightarrow> of_nat n + 1 \<le> (of_nat m :: rat)"
    by blast+
  with b show ?thesis by (cases m n rule: linorder_cases) auto
qed

text \<open>
  C21. Two endpoints are compared by their exact position, whatever the number of digits
  beyond the nanosecond: the answer is -1, 1 or 0 as the first lies before, after or at the
  second, an inserted leap second lying after the second it follows.
\<close>

theorem compare_endpoints_exact:
  assumes "list_all is_digit af" "list_all is_digit bf"
  shows "compareTemporalEndpoints a af al b bf bl =
    (if endpoint_key a af al < endpoint_key b bf bl then -1
     else if endpoint_key a af al > endpoint_key b bf bl then 1 else 0)"
  using of_nat_add_frac_less [OF assms] of_nat_add_frac_less [OF assms(2,1)] compare_digits_val [OF assms]
  by (auto simp: compareTemporalEndpoints_def endpoint_key_def)

lemma compare_endpoints_exact_witness:
  "compareTemporalEndpoints \<lparr>Unix = 7, Nanosecond = 999999999\<rparr> ''99'' False \<lparr>Unix = 7, Nanosecond = 0\<rparr> ''0'' True = -1 \<and>
   compareTemporalEndpoints \<lparr>Unix = 7, Nanosecond = 5\<rparr> ''1'' False \<lparr>Unix = 7, Nanosecond = 5\<rparr> ''1000'' False = 0"
  using compare_endpoints_exact [of "''99''" "''0''" "\<lparr>Unix = 7, Nanosecond = 999999999\<rparr>" False "\<lparr>Unix = 7, Nanosecond = 0\<rparr>" True]
    compare_endpoints_exact [of "''1''" "''1000''" "\<lparr>Unix = 7, Nanosecond = 5\<rparr>" False "\<lparr>Unix = 7, Nanosecond = 5\<rparr>" False]
  by (simp_all add: endpoint_key_def is_digit_def digit_val_def)

section \<open>Accepted constraints and timestamps\<close>

text \<open>What an accepted endpoint is.\<close>

definition endpoint_ok :: "Time option \<Rightarrow> string \<Rightarrow> bool \<Rightarrow> bool" where
  "endpoint_ok t f leap \<longleftrightarrow> list_all is_digit f \<and>
     (case t of None \<Rightarrow> f = [] \<and> \<not> leap | Some u \<Rightarrow> leap \<longrightarrow> IsPositiveLeapSecondPredecessor u)"

lemma validateTemporalEndpoint_iff: "validateTemporalEndpoint t f leap = Inr () \<longleftrightarrow> endpoint_ok t f leap"
  by (cases t) (auto simp: validateTemporalEndpoint_def endpoint_ok_def)

lemma compare_endpoints_pos:
  assumes "list_all is_digit af" "list_all is_digit bf"
  shows "compareTemporalEndpoints a af al b bf bl > 0 \<longleftrightarrow> endpoint_key b bf bl < endpoint_key a af al"
  using of_nat_add_frac_less [OF assms] of_nat_add_frac_less [OF assms(2,1)] compare_digits_val [OF assms]
  by (auto simp: compareTemporalEndpoints_def endpoint_key_def)

text \<open>
  C23. A temporal constraint is accepted exactly when it has a bound, each bound is well formed
  (digits beyond the nanosecond are decimal, a leap marker stands on an announced insertion, and
  neither comes without a bound), and, when both bounds are given, the interval they span is
  not empty.
\<close>

theorem temporal_constraint_accepted_iff:
  "TemporalConstraint_Validate t = Inr () \<longleftrightarrow>
     \<not> (Start t = None \<and> End t = None) \<and>
     endpoint_ok (Start t) (StartSubNanosecond t) (StartLeapSecond t) \<and>
     endpoint_ok (End t) (EndSubNanosecond t) (EndLeapSecond t) \<and>
     (case (Start t, End t) of
        (Some s, Some e) \<Rightarrow>
          endpoint_key s (StartSubNanosecond t) (StartLeapSecond t)
            \<le> endpoint_key e (EndSubNanosecond t) (EndLeapSecond t)
      | _ \<Rightarrow> True)"
proof -
  have step: "(case v of Inl e \<Rightarrow> Inl e | Inr _ \<Rightarrow> r) = Inr () \<longleftrightarrow> v = Inr () \<and> r = Inr ()"
    for v r :: "query_error + unit" by (cases v) auto
  have "endpoint_ok t f l \<Longrightarrow> list_all is_digit f" for t f l by (simp add: endpoint_ok_def)
  then show ?thesis
    by (cases "Start t"; cases "End t")
      (auto simp: TemporalConstraint_Validate_def step validateTemporalEndpoint_iff
        compare_endpoints_pos not_less simp del: less_prod_simp less_eq_prod_simp cong: conj_cong)
qed

lemma match_fraction_digits: "match_fraction s = Some (f, r) \<Longrightarrow> list_all is_digit f"
  by (auto simp: match_fraction_def list_all_iff dest: set_takeWhileD split: list.splits if_splits)

lemma filterTimestampPattern_digits: "filterTimestampPattern s = Some c \<Longrightarrow> list_all is_digit (cfraction c)"
  by (auto simp: filterTimestampPattern_def bind_eq_Some_conv dest: match_fraction_digits split: if_splits)

lemma frac_val_append: "frac_val (s @ t) = frac_val s + frac_val t / 10 ^ length s"
  by (induction s) (simp_all add: add_divide_distrib)

lemma frac_val_replicate_0 [simp]: "frac_val (replicate n (CHR ''0'')) = 0"
  by (induction n) (simp_all add: digit_val_def)

lemma digits_val_frac: "of_nat (digits_val s) = 10 ^ length s * frac_val s"
proof (induction s rule: rev_induct)
  case (snoc c s)
  then show ?case by (simp add: frac_val_append field_simps)
qed (simp add: digits_val_def)

lemma nanos_exact: "of_nat (nanos f) + frac_val (drop 9 f) = 10 ^ 9 * frac_val f"
proof -
  define g where "g = take 9 (f @ replicate 9 (CHR ''0''))"
  have g: "length g = 9" "frac_val g = frac_val (take 9 f)" by (simp_all add: g_def frac_val_append)
  have n: "of_nat (nanos f) = 10 ^ 9 * frac_val (take 9 f)"
    using digits_val_frac [of g] by (simp only: nanos_def g_def [symmetric] g)
  have f: "frac_val f = frac_val (take 9 f) + frac_val (drop 9 f) / 10 ^ length (take 9 f)"
    by (metis append_take_drop_id frac_val_append)
  show ?thesis
  proof (cases "length f \<le> 9")
    case False
    then have "length (take 9 f) = 9" by simp
    with f have "frac_val f = frac_val (take 9 f) + frac_val (drop 9 f) / 10 ^ 9" by simp
    then show ?thesis unfolding n by (simp only: distrib_left) simp
  qed (simp add: n)
qed

lemma civil_seconds_59: "csecond c = 60 \<Longrightarrow> civil_seconds (c\<lparr>csecond := 59\<rparr>) = civil_seconds c - 1"
  by (simp add: civil_seconds_def)

lemma civil_seconds_fraction [simp]: "civil_seconds (c\<lparr>cfraction := f\<rparr>) = civil_seconds c"
  by (simp add: civil_seconds_def)

lemma nanos_take_9 [simp]: "nanos (take 9 f) = nanos f"
  by (cases "length f \<le> 9") (simp_all add: nanos_def)

lemma time_Parse_fields:
  "time_Parse c = Some t \<Longrightarrow> Unix t = civil_seconds c \<and> Nanosecond t = nanos (cfraction c)"
  by (auto simp: time_Parse_def split: if_splits)

text \<open>
  C22. No digit of an accepted filter timestamp is lost: the position of the parsed instant is the
  second the text names, flagged and moved to the preceding one for second 60, together with the
  exact value of all its fraction digits, and the instant is a well-formed endpoint.
\<close>

theorem parsed_instant_exact:
  assumes "parseFilterInstant text = Inr i"
  shows "\<exists>c. filterTimestampPattern text = Some c \<and>
    endpoint_key (InstantTime i) (SubNanosecond i) (LeapSecond i) =
      (if csecond c = 60 then (civil_seconds c - 1, True, 10 ^ 9 * frac_val (cfraction c))
       else (civil_seconds c, False, 10 ^ 9 * frac_val (cfraction c))) \<and>
    endpoint_ok (Some (InstantTime i)) (SubNanosecond i) (LeapSecond i)"
proof -
  obtain c where c: "filterTimestampPattern text = Some c"
    using assms by (auto simp: parseFilterInstant_def split: option.splits)
  define f where "f = cfraction c"
  have i: "SubNanosecond i = drop 9 f" "LeapSecond i = (csecond c = 60)"
    and t: "time_Parse (if csecond c = 60 then c\<lparr>csecond := 59, cfraction := take 9 f\<rparr> else c\<lparr>cfraction := take 9 f\<rparr>)
        = Some (InstantTime i)"
    and v: "validateTemporalEndpoint (Some (InstantTime i)) (SubNanosecond i) (LeapSecond i) = Inr ()"
    using assms c unfolding f_def
    by (auto simp: parseFilterInstant_def Let_def split: if_splits option.splits sum.splits)
  from t have "Unix (InstantTime i) = civil_seconds c - (if csecond c = 60 then 1 else 0)"
      "Nanosecond (InstantTime i) = nanos f"
    by (auto dest!: time_Parse_fields simp: civil_seconds_59 split: if_splits)
  with c i v show ?thesis
    using nanos_exact [of f] by (auto simp: endpoint_key_def validateTemporalEndpoint_iff f_def)
qed

lemma parsed_instant_exact_witness:
  "\<exists>c. filterTimestampPattern ''2016-12-31T23:59:60.1234567891Z'' = Some c \<and>
     endpoint_key \<lparr>Unix = 1483228799, Nanosecond = 123456789\<rparr> ''1'' True =
       (if csecond c = 60 then (civil_seconds c - 1, True, 10 ^ 9 * frac_val (cfraction c))
        else (civil_seconds c, False, 10 ^ 9 * frac_val (cfraction c)))"
proof -
  let ?t = "\<lparr>Unix = 1483228799, Nanosecond = 123456789\<rparr>"
  have "filterTimestampPattern ''2016-12-31T23:59:60.1234567891Z'' =
      Some \<lparr>cyear = 2016, cmonth = 12, cday = 31, chour = 23, cminute = 59, csecond = 60,
            cfraction = ''1234567891'', coffset = 0\<rparr>"
    by (simp add: filterTimestampPattern_def match_date_def match_clock_def match_fraction_def take_digits_def
        take_char_def digits_val_def digit_val_def is_digit_def)
  moreover have "time_Parse \<lparr>cyear = 2016, cmonth = 12, cday = 31, chour = 23, cminute = 59, csecond = 59,
      cfraction = ''123456789'', coffset = 0\<rparr> = Some ?t"
    by (simp add: time_Parse_def civil_seconds_def valid_date_def days_in_def days_from_civil_def nanos_def
        digits_val_def digit_val_def)
  moreover have "(2016, 12, 31) \<in> set leap_second_days" by (simp add: leap_second_days_def)
  then have "IsPositiveLeapSecondPredecessor ?t"
    unfolding IsPositiveLeapSecondPredecessor_def list_ex_iff Let_def
    by (simp add: bexI [where x = "(2016, 12, 31)"] days_from_civil_def)
  ultimately have "parseFilterInstant ''2016-12-31T23:59:60.1234567891Z'' =
      Inr \<lparr>InstantTime = ?t, SubNanosecond = ''1'', LeapSecond = True\<rparr>"
    by (simp add: parseFilterInstant_def validateTemporalEndpoint_def is_digit_def MaxFilterTimestampFractionDigits_def)
  from parsed_instant_exact [OF this] show ?thesis by auto
qed

end
