(* ===== verification/Feature_Schema.thy ===== *)
theory Feature_Schema
  imports Feature_Identity Provider_Temporal
begin

text \<open>
  The schema descriptor and input validation, \<^verbatim>\<open>src/feature/schema.go\<close>, and the
  conversion of provider values into typed values, \<^verbatim>\<open>src/feature/query.go\<close>. A Go map of
  properties is an association list with distinct keys, in the order the \<^verbatim>\<open>range\<close> loop
  happens to take. A column value that is neither text, number, boolean nor nil, and a
  floating-point number, are kept as the text the standard formatting gives. The lemmas say
  which values and property sets are accepted.
\<close>

section \<open>Typed values and descriptors\<close>

datatype ValueState = ValueAbsent | ValueNull | ValueEmpty | ValuePresent

datatype LogicalType = TypeInteger | TypeDecimal | TypeString | TypeBoolean | TypeDateTime | TypeGeometry

fun LogicalType_String :: "LogicalType \<Rightarrow> string" where
  "LogicalType_String TypeInteger = ''integer''"
| "LogicalType_String TypeDecimal = ''decimal''"
| "LogicalType_String TypeString = ''string''"
| "LogicalType_String TypeBoolean = ''boolean''"
| "LogicalType_String TypeDateTime = ''datetime''"
| "LogicalType_String TypeGeometry = ''geometry''"

record TypedValue =
  tv_Type :: LogicalType
  tv_State :: ValueState
  tv_Integer :: int
  tv_Decimal :: string
  tv_String :: string
  tv_Boolean :: bool

record PropertyDescriptor =
  pd_Name :: string
  pd_Column :: string
  pd_Type :: LogicalType
  pd_Nullable :: bool
  pd_Required :: bool
  pd_ReadOnly :: bool
  pd_WriteOnly :: bool
  pd_HasDefault :: bool
  pd_MaxLength :: int
  pd_AllowedValues :: "string list"

record GeometryDescriptor =
  gd_Nullable :: bool
  gd_Name :: string
  gd_Column :: string
  gd_Type :: string
  gd_Dimension :: string
  gd_SRID :: u64

record SchemaDescriptor =
  sd_Collection :: string
  sd_IDColumn :: string
  sd_Properties :: "PropertyDescriptor list"
  sd_Geometry :: GeometryDescriptor
  sd_RevisionColumn :: string
  sd_SchemaVersion :: string

datatype schema_error =
    UnknownProperty string
  | ReadOnlyProperty string
  | NullNotAccepted string
  | TypeExpected string LogicalType LogicalType
  | MaxLengthExceeded string int
  | NotAllowed string
  | NotTimestamp string
  | NotDecimal string
  | RequiredEmpty string
  | RequiredMissing string
  | RequiredNull string

definition Property :: "SchemaDescriptor \<Rightarrow> string \<Rightarrow> PropertyDescriptor option" where
  "Property s name = List.find (\<lambda>p. pd_Name p = name) (sd_Properties s)"

section \<open>Input values\<close>

fun decimal_loop :: "string \<Rightarrow> bool \<Rightarrow> nat \<Rightarrow> bool" where
  "decimal_loop [] dot digits = (digits > 0)"
| "decimal_loop (c # s) dot digits =
     (if c = CHR ''.'' then (if dot then False else decimal_loop s True digits)
      else if \<not> is_digit c then False
      else decimal_loop s dot (digits + 1))"

definition isCanonicalDecimal :: "string \<Rightarrow> bool" where
  "isCanonicalDecimal s = (case TrimSpace s of
       [] \<Rightarrow> False
     | c # t \<Rightarrow>
         if c = CHR ''+'' \<or> c = CHR ''-'' then decimal_loop t False 0
         else decimal_loop (c # t) False 0)"

definition check_typed :: "string \<Rightarrow> PropertyDescriptor \<Rightarrow> TypedValue \<Rightarrow> schema_error + unit" where
  "check_typed name p v = (case pd_Type p of
       TypeString \<Rightarrow>
         if pd_MaxLength p > 0 \<and> int (length (tv_String v)) > pd_MaxLength p
         then Inl (MaxLengthExceeded name (pd_MaxLength p))
         else if pd_AllowedValues p \<noteq> [] \<and> \<not> List.member (pd_AllowedValues p) (tv_String v)
         then Inl (NotAllowed name) else Inr ()
     | TypeDateTime \<Rightarrow> if \<not> validRFC3339 (tv_String v) then Inl (NotTimestamp name) else Inr ()
     | TypeDecimal \<Rightarrow> if \<not> isCanonicalDecimal (tv_Decimal v) then Inl (NotDecimal name) else Inr ()
     | _ \<Rightarrow> Inr ())"

definition ValidateInputValue :: "SchemaDescriptor \<Rightarrow> string \<Rightarrow> TypedValue \<Rightarrow> schema_error + unit" where
  "ValidateInputValue s name v = (case Property s name of
       None \<Rightarrow> Inl (UnknownProperty name)
     | Some p \<Rightarrow>
         if pd_ReadOnly p then Inl (ReadOnlyProperty name)
         else if tv_State v = ValueAbsent \<or> tv_State v = ValueNull
         then (if tv_State v = ValueNull \<and> \<not> pd_Nullable p then Inl (NullNotAccepted name) else Inr ())
         else if tv_Type v \<noteq> pd_Type p then Inl (TypeExpected name (pd_Type p) (tv_Type v))
         else (case check_typed name p v of
             Inl e \<Rightarrow> Inl e
           | Inr _ \<Rightarrow>
               if tv_State v = ValueEmpty \<and> pd_Required p \<and> \<not> pd_Nullable p
               then Inl (RequiredEmpty name) else Inr ()))"

fun validate_required :: "PropertyDescriptor list \<Rightarrow> (string \<times> TypedValue) list \<Rightarrow> schema_error + unit" where
  "validate_required [] present = Inr ()"
| "validate_required (p # ps) present =
     (if \<not> pd_Required p \<or> pd_ReadOnly p then validate_required ps present
      else (case map_of present (pd_Name p) of
          None \<Rightarrow> if pd_HasDefault p then validate_required ps present else Inl (RequiredMissing (pd_Name p))
        | Some v \<Rightarrow>
            if tv_State v = ValueAbsent
            then (if pd_HasDefault p then validate_required ps present else Inl (RequiredMissing (pd_Name p)))
            else if tv_State v = ValueNull \<and> \<not> pd_Nullable p then Inl (RequiredNull (pd_Name p))
            else validate_required ps present))"

definition ValidateRequired :: "SchemaDescriptor \<Rightarrow> (string \<times> TypedValue) list \<Rightarrow> schema_error + unit" where
  "ValidateRequired s present = validate_required (sd_Properties s) present"

section \<open>Provider values\<close>

datatype raw_value =
    RawNil
  | RawInt64 int
  | RawString string
  | RawBool bool
  | RawFloat (float_nan_or_inf: bool) (float_text: string)
  | RawOther (other_text: string)

definition zero_value :: TypedValue where
  "zero_value = \<lparr>tv_Type = TypeInteger, tv_State = ValueAbsent, tv_Integer = 0, tv_Decimal = [],
     tv_String = [], tv_Boolean = False\<rparr>"

definition formatDecimal :: "bool \<Rightarrow> string \<Rightarrow> string" where
  "formatDecimal nan_or_inf text = (if nan_or_inf then ''0'' else text)"

fun toTypedValue :: "raw_value \<Rightarrow> TypedValue" where
  "toTypedValue RawNil = zero_value\<lparr>tv_State := ValueNull, tv_Type := TypeString\<rparr>"
| "toTypedValue (RawInt64 v) = zero_value\<lparr>tv_Type := TypeInteger, tv_State := ValuePresent, tv_Integer := v\<rparr>"
| "toTypedValue (RawString v) =
     (if v = [] then zero_value\<lparr>tv_Type := TypeString, tv_State := ValueEmpty, tv_String := v\<rparr>
      else zero_value\<lparr>tv_Type := TypeString, tv_State := ValuePresent, tv_String := v\<rparr>)"
| "toTypedValue (RawBool v) = zero_value\<lparr>tv_Type := TypeBoolean, tv_State := ValuePresent, tv_Boolean := v\<rparr>"
| "toTypedValue (RawFloat n t) =
     zero_value\<lparr>tv_Type := TypeDecimal, tv_State := ValuePresent, tv_Decimal := formatDecimal n t\<rparr>"
| "toTypedValue (RawOther t) = zero_value\<lparr>tv_Type := TypeString, tv_State := ValuePresent, tv_String := t\<rparr>"

record FeatureRecord =
  fr_Collection :: string
  fr_ID :: u64
  fr_Key :: PhysicalFeatureKey
  fr_GeometryWKB :: "string option"
  fr_GeometrySRID :: u64
  fr_Properties :: "(string \<times> TypedValue) list"
  fr_Revision :: string
  fr_SchemaVersion :: string

record 'g Feature =
  f_ID :: u64
  f_Geometry :: "'g option"
  f_SRID :: u64
  f_Tags :: "(string \<times> raw_value) list"

definition convert_tag :: "SchemaDescriptor \<Rightarrow> string \<times> raw_value \<Rightarrow> string \<times> TypedValue" where
  "convert_tag schema nr =
     (let tv = toTypedValue (snd nr) in
      (fst nr, case Property schema (fst nr) of
          Some desc \<Rightarrow> if tv_State tv = ValueNull then tv\<lparr>tv_Type := pd_Type desc\<rparr> else tv
        | None \<Rightarrow> tv))"

text \<open>The geometry encoder of the vendored package is the argument \<open>encode\<close>.\<close>

definition convert ::
  "('g \<Rightarrow> 'e + string) \<Rightarrow> string \<Rightarrow> string \<Rightarrow> string \<Rightarrow> SchemaDescriptor \<Rightarrow> 'g Feature \<Rightarrow> 'e + FeatureRecord" where
  "convert encode collection layer domain schema f =
     (let rec = \<lparr>fr_Collection = collection, fr_ID = f_ID f,
            fr_Key = \<lparr>Domain = domain, Relation = sd_Collection schema, PK = FormatUint (unat (f_ID f)),
                      SourceIncarnation = [], EntityIncarnation = 0\<rparr>,
            fr_GeometryWKB = None, fr_GeometrySRID = f_SRID f,
            fr_Properties = map (convert_tag schema) (f_Tags f),
            fr_Revision = [], fr_SchemaVersion = sd_SchemaVersion schema\<rparr>
      in case f_Geometry f of
           None \<Rightarrow> Inr rec
         | Some g \<Rightarrow> (case encode g of Inl e \<Rightarrow> Inl e | Inr w \<Rightarrow> Inr (rec\<lparr>fr_GeometryWKB := Some w\<rparr>)))"

text \<open>The callback of \<^verbatim>\<open>RawQuery\<close>, run on the features in the order the provider gives them.\<close>

fun convert_all ::
  "('g \<Rightarrow> 'e + string) \<Rightarrow> string \<Rightarrow> string \<Rightarrow> string \<Rightarrow> SchemaDescriptor \<Rightarrow> 'g Feature list \<Rightarrow> 'e + FeatureRecord list" where
  "convert_all encode collection layer domain schema [] = Inr []"
| "convert_all encode collection layer domain schema (f # fs) =
     (case convert encode collection layer domain schema f of
        Inl e \<Rightarrow> Inl e
      | Inr rec \<Rightarrow> (case convert_all encode collection layer domain schema fs of
            Inl e \<Rightarrow> Inl e
          | Inr recs \<Rightarrow> Inr (rec # recs)))"

section \<open>Facts\<close>

lemma Property_Some: "Property s name = Some p \<Longrightarrow> p \<in> set (sd_Properties s) \<and> pd_Name p = name"
  by (auto simp: Property_def find_Some_iff)

lemma is_digit_dot [simp]: "\<not> is_digit (CHR ''.'')"
  by (simp add: is_digit_def)

lemma decimal_loop_dot: "decimal_loop s True n \<longleftrightarrow> list_all is_digit s \<and> (s \<noteq> [] \<or> n > 0)"
  by (induction s arbitrary: n) auto

lemma decimal_loop_iff:
  "decimal_loop s False n \<longleftrightarrow> (case dropWhile is_digit s of
       [] \<Rightarrow> s \<noteq> [] \<or> n > 0
     | c # b \<Rightarrow> c = CHR ''.'' \<and> list_all is_digit b \<and> (takeWhile is_digit s \<noteq> [] \<or> b \<noteq> [] \<or> n > 0))"
proof (induction s arbitrary: n)
  case (Cons c s)
  then show ?case
    by (cases "c = CHR ''.''"; cases "is_digit c"; cases "dropWhile is_digit s") (simp_all add: decimal_loop_dot del: dropWhile_eq_Nil_conv)
qed simp

text \<open>What a property accepts, declaratively.\<close>

definition value_fits :: "PropertyDescriptor \<Rightarrow> TypedValue \<Rightarrow> bool" where
  "value_fits p v \<longleftrightarrow> tv_Type v = pd_Type p \<and>
     (pd_Type p = TypeString \<longrightarrow>
        (pd_MaxLength p \<le> 0 \<or> int (length (tv_String v)) \<le> pd_MaxLength p) \<and>
        (pd_AllowedValues p = [] \<or> tv_String v \<in> set (pd_AllowedValues p))) \<and>
     (pd_Type p = TypeDateTime \<longrightarrow> validRFC3339 (tv_String v)) \<and>
     (pd_Type p = TypeDecimal \<longrightarrow> isCanonicalDecimal (tv_Decimal v)) \<and>
     (tv_State v = ValueEmpty \<longrightarrow> \<not> pd_Required p \<or> pd_Nullable p)"

definition input_fits :: "SchemaDescriptor \<Rightarrow> string \<Rightarrow> TypedValue \<Rightarrow> bool" where
  "input_fits s name v \<longleftrightarrow> (\<exists>p. Property s name = Some p \<and> \<not> pd_ReadOnly p \<and>
     (case tv_State v of
        ValueAbsent \<Rightarrow> True
      | ValueNull \<Rightarrow> pd_Nullable p
      | _ \<Rightarrow> value_fits p v))"

lemma check_typed_ok:
  "check_typed name p v = Inr () \<longleftrightarrow>
     (pd_Type p = TypeString \<longrightarrow>
        (pd_MaxLength p \<le> 0 \<or> int (length (tv_String v)) \<le> pd_MaxLength p) \<and>
        (pd_AllowedValues p = [] \<or> tv_String v \<in> set (pd_AllowedValues p))) \<and>
     (pd_Type p = TypeDateTime \<longrightarrow> validRFC3339 (tv_String v)) \<and>
     (pd_Type p = TypeDecimal \<longrightarrow> isCanonicalDecimal (tv_Decimal v))"
  by (cases "pd_Type p") (auto simp: check_typed_def)

lemma ValidateInputValue_ok: "ValidateInputValue s name v = Inr () \<longleftrightarrow> input_fits s name v"
proof (cases "Property s name")
  case (Some p)
  have "(\<exists>u. check_typed name p v = Inr u) \<longleftrightarrow> check_typed name p v = Inr ()" by auto
  with Some show ?thesis
    by (cases "tv_State v")
      (simp_all add: ValidateInputValue_def input_fits_def value_fits_def check_typed_ok)
qed (simp add: ValidateInputValue_def input_fits_def)

lemma validate_required_ok:
  "validate_required ps present = Inr () \<longleftrightarrow>
     (\<forall>p\<in>set ps. pd_Required p \<and> \<not> pd_ReadOnly p \<longrightarrow>
        (case map_of present (pd_Name p) of
           None \<Rightarrow> pd_HasDefault p
         | Some v \<Rightarrow> (tv_State v = ValueAbsent \<longrightarrow> pd_HasDefault p) \<and>
                    (tv_State v = ValueNull \<longrightarrow> pd_Nullable p)))"
  by (induction ps) (auto split: option.splits)

end
