(* ===== verification/Feature_Mutation.thy ===== *)
theory Feature_Mutation
  imports Feature_Schema
begin

text \<open>
  The mutation coordinator, \<^verbatim>\<open>src/feature/mutation.go\<close>, with the neutral commands and errors of
  \<^verbatim>\<open>src/provider/mutation.go\<close> and the policies of \<^verbatim>\<open>src/feature/policy.go\<close>. The interfaces the
  coordinator calls (policies, schema and provider resolution, the provider's transaction, the
  lock check and the callbacks) are arguments; a provider is a record of its operations over a
  database state and a transaction state. A run returns what the Go function returns, the
  database it leaves, and the trace of the calls it made inside and after the transaction. Its
  properties are in \<^verbatim>\<open>Mutation_Correct\<close>.
\<close>

section \<open>Commands and errors\<close>

datatype MutationOp = MutationInsert | MutationReplace | MutationUpdate | MutationDelete | MutationOpOther int

fun MutationOp_String :: "MutationOp \<Rightarrow> string" where
  "MutationOp_String MutationInsert = ''insert''"
| "MutationOp_String MutationReplace = ''replace''"
| "MutationOp_String MutationUpdate = ''update''"
| "MutationOp_String MutationDelete = ''delete''"
| "MutationOp_String (MutationOpOther n) = ''unknown''"

datatype MutationValueKind =
  MutationValueUnset | MutationValueInteger | MutationValueDecimal | MutationValueString | MutationValueBoolean

record MutationValue =
  mv_Null :: bool
  mv_Empty :: bool
  mv_Integer :: int
  mv_Decimal :: string
  mv_String :: string
  mv_Boolean :: bool
  mv_Kind :: MutationValueKind

record Mutation =
  m_Op :: MutationOp
  m_Collection :: string
  m_FeatureID :: u64
  m_Properties :: "(string \<times> MutationValue) list"
  m_GeometryWKB :: "string option"
  m_GeometryAbsent :: bool
  m_GeometrySRID :: u64
  m_GeometryUnchanged :: bool
  m_IfRevision :: string

record MutationOutcome =
  o_FeatureID :: u64
  o_Revision :: string
  o_RevisionBefore :: string
  o_Affected :: int

datatype CommitStatus = CommitUnknown | CommitCommitted | CommitNotCommitted

record CommitReceipt =
  r_Status :: CommitStatus
  r_TransactionID :: string
  r_Timestamp :: string
  r_Actor :: string
  r_Collections :: "string list"

record TxOptions =
  tx_ReadOnly :: bool
  tx_Actor :: string
  tx_RequestID :: string

datatype MutationErrorKind =
    MutationErrMalformedInput | MutationErrSchemaViolation | MutationErrDenied | MutationErrNotFound
  | MutationErrPreconditionFailed | MutationErrLockConflict | MutationErrUnsupportedCapability
  | MutationErrQuotaExceeded | MutationErrDomainMismatch | MutationErrCommitUnknown
  | MutationErrExecutionFailed

fun MutationErrorKind_String :: "MutationErrorKind \<Rightarrow> string" where
  "MutationErrorKind_String MutationErrMalformedInput = ''malformed input''"
| "MutationErrorKind_String MutationErrSchemaViolation = ''schema violation''"
| "MutationErrorKind_String MutationErrDenied = ''denied''"
| "MutationErrorKind_String MutationErrNotFound = ''not found''"
| "MutationErrorKind_String MutationErrPreconditionFailed = ''precondition failed''"
| "MutationErrorKind_String MutationErrLockConflict = ''lock conflict''"
| "MutationErrorKind_String MutationErrUnsupportedCapability = ''unsupported capability''"
| "MutationErrorKind_String MutationErrQuotaExceeded = ''quota exceeded''"
| "MutationErrorKind_String MutationErrDomainMismatch = ''transaction-domain mismatch''"
| "MutationErrorKind_String MutationErrExecutionFailed = ''execution failed''"
| "MutationErrorKind_String MutationErrCommitUnknown = ''commit unknown''"

text \<open>A Go error: a mutation error with a text or the text of a schema error, the typed errors of
  feature queries, an error wrapped with a text, a join, or another error.\<close>

datatype reason = Reason string | ReasonSchema schema_error

datatype go_error =
    MutationError MutationErrorKind reason
  | OtherError string
  | JoinError "go_error list"
  | WrapError string go_error
  | FeatureDataError go_error
  | CollectionNotFoundError string
  | FeatureNotFoundError string u64
  | InvalidFeatureQueryError string string
  | ErrUnsupported
  | ContextCanceled
  | DeadlineExceeded

definition errors_Join :: "go_error option \<Rightarrow> go_error option \<Rightarrow> go_error option" where
  "errors_Join a b = (case (a, b) of
       (None, None) \<Rightarrow> None
     | (Some x, None) \<Rightarrow> Some (JoinError [x])
     | (None, Some y) \<Rightarrow> Some (JoinError [y])
     | (Some x, Some y) \<Rightarrow> Some (JoinError [x, y]))"

text \<open>\<^verbatim>\<open>errors.As\<close> for a mutation error: the first in depth-first order.\<close>

fun AsMutationError :: "go_error \<Rightarrow> (MutationErrorKind \<times> reason) option"
and as_first :: "go_error list \<Rightarrow> (MutationErrorKind \<times> reason) option" where
  "AsMutationError (MutationError k r) = Some (k, r)"
| "AsMutationError (JoinError es) = as_first es"
| "AsMutationError (WrapError t e) = AsMutationError e"
| "AsMutationError (FeatureDataError e) = AsMutationError e"
| "AsMutationError e = None"
| "as_first [] = None"
| "as_first (e # es) = (case AsMutationError e of Some x \<Rightarrow> Some x | None \<Rightarrow> as_first es)"

section \<open>Policies\<close>

record Principal =
  p_ID :: string
  p_Anonymous :: bool

datatype PolicyAction = ActionRead | ActionInsert | ActionReplace | ActionUpdate | ActionDelete | ActionLock

record PolicyDecision =
  Allow :: bool
  d_Reason :: string

text \<open>\<open>CollectionOnly\<close> is \<open>None\<close> for a policy that does not implement that interface.\<close>

record Policy =
  CheckCollection :: "Principal \<Rightarrow> PolicyAction \<Rightarrow> string \<Rightarrow> PolicyDecision"
  CheckRow :: "Principal \<Rightarrow> PolicyAction \<Rightarrow> PhysicalFeatureKey \<Rightarrow> PolicyDecision"
  CheckPostImage :: "Principal \<Rightarrow> PhysicalFeatureKey \<Rightarrow> (string \<times> TypedValue) list option \<Rightarrow> PolicyDecision"
  CollectionOnly :: "bool option"

definition DenyAllPolicy :: Policy where
  "DenyAllPolicy = \<lparr>
     CheckCollection = (\<lambda>p action c. if action = ActionRead then \<lparr>Allow = True, d_Reason = []\<rparr>
       else \<lparr>Allow = False, d_Reason = ''no write policy configured''\<rparr>),
     CheckRow = (\<lambda>p action k. if action = ActionRead then \<lparr>Allow = True, d_Reason = []\<rparr>
       else \<lparr>Allow = False, d_Reason = ''no write policy configured''\<rparr>),
     CheckPostImage = (\<lambda>p k ps. \<lparr>Allow = False, d_Reason = ''no write policy configured''\<rparr>),
     CollectionOnly = None\<rparr>"

definition AllowAllPolicy :: Policy where
  "AllowAllPolicy = \<lparr>
     CheckCollection = (\<lambda>p action c. \<lparr>Allow = True, d_Reason = []\<rparr>),
     CheckRow = (\<lambda>p action k. \<lparr>Allow = True, d_Reason = []\<rparr>),
     CheckPostImage = (\<lambda>p k ps. \<lparr>Allow = True, d_Reason = []\<rparr>),
     CollectionOnly = Some True\<rparr>"

definition policyActionFor :: "string \<Rightarrow> PolicyAction option" where
  "policyActionFor opName =
     (if opName = ''insert'' then Some ActionInsert
      else if opName = ''replace'' then Some ActionReplace
      else if opName = ''update'' then Some ActionUpdate
      else if opName = ''delete'' then Some ActionDelete
      else None)"

section \<open>Input validation\<close>

definition mutationValueToTyped :: "SchemaDescriptor \<Rightarrow> string \<Rightarrow> MutationValue \<Rightarrow> TypedValue" where
  "mutationValueToTyped schema name mv =
     (let tv = zero_value\<lparr>tv_State := if mv_Empty mv then ValueEmpty else if mv_Null mv then ValueNull else ValuePresent\<rparr>;
          tv = (case Property schema name of Some desc \<Rightarrow> tv\<lparr>tv_Type := pd_Type desc\<rparr> | None \<Rightarrow> tv)
      in case mv_Kind mv of
           MutationValueInteger \<Rightarrow> tv\<lparr>tv_Integer := mv_Integer mv\<rparr>
         | MutationValueDecimal \<Rightarrow> tv\<lparr>tv_Decimal := mv_Decimal mv\<rparr>
         | MutationValueString \<Rightarrow> tv\<lparr>tv_String := mv_String mv\<rparr>
         | MutationValueBoolean \<Rightarrow> tv\<lparr>tv_Boolean := mv_Boolean mv\<rparr>
         | MutationValueUnset \<Rightarrow> tv)"

fun validate_properties :: "SchemaDescriptor \<Rightarrow> (string \<times> MutationValue) list \<Rightarrow> schema_error + unit" where
  "validate_properties schema [] = Inr ()"
| "validate_properties schema ((name, mv) # ps) =
     (case ValidateInputValue schema name (mutationValueToTyped schema name mv) of
        Inl e \<Rightarrow> Inl e
      | Inr _ \<Rightarrow> validate_properties schema ps)"

definition typed_properties :: "SchemaDescriptor \<Rightarrow> (string \<times> MutationValue) list \<Rightarrow> (string \<times> TypedValue) list" where
  "typed_properties schema ps = map (\<lambda>(name, mv). (name, mutationValueToTyped schema name mv)) ps"

definition validateMutationInput :: "SchemaDescriptor \<Rightarrow> Mutation \<Rightarrow> go_error + unit" where
  "validateMutationInput schema m =
     (if m_GeometryUnchanged m \<and> (m_Op m \<noteq> MutationReplace \<or> m_IfRevision m = [] \<or> m_GeometryWKB m \<noteq> None \<or> m_GeometryAbsent m)
      then Inl (MutationError MutationErrMalformedInput (Reason ''unchanged geometry requires a revision-bound replacement without a geometry payload''))
      else if m_Op m = MutationDelete
      then (if m_FeatureID m = 0
            then Inl (MutationError MutationErrMalformedInput (Reason ''delete requires a feature ID''))
            else Inr ())
      else let missingCompleteGeometry =
             ((m_Op m = MutationInsert \<or> m_Op m = MutationReplace) \<and> m_GeometryWKB m = None \<and> \<not> m_GeometryUnchanged m)
      in if \<not> gd_Nullable (sd_Geometry schema) \<and> (m_GeometryAbsent m \<or> missingCompleteGeometry)
      then Inl (MutationError MutationErrSchemaViolation (Reason ''geometry is required and does not accept null''))
      else if m_Op m = MutationInsert \<and> m_FeatureID m \<noteq> 0
      then Inl (MutationError MutationErrMalformedInput (Reason ''insert must not carry a feature ID''))
      else if (m_Op m = MutationReplace \<or> m_Op m = MutationUpdate) \<and> m_FeatureID m = 0
      then Inl (MutationError MutationErrMalformedInput (Reason (MutationOp_String (m_Op m) @ '' requires a feature ID'')))
      else (case validate_properties schema (m_Properties m) of
          Inl e \<Rightarrow> Inl (MutationError MutationErrSchemaViolation (ReasonSchema e))
        | Inr _ \<Rightarrow>
            if m_Op m = MutationInsert \<or> m_Op m = MutationReplace
            then (case ValidateRequired schema (typed_properties schema (m_Properties m)) of
                Inl e \<Rightarrow> Inl (MutationError MutationErrSchemaViolation (ReasonSchema e))
              | Inr _ \<Rightarrow> Inr ())
            else Inr ()))"

section \<open>The coordinator\<close>

text \<open>
  A provider: \<open>provider_ptr\<close> is its identity as an interface value, \<open>'db\<close> the stored data and
  \<open>'tx\<close> an open transaction.
\<close>

record ('db, 'tx) MutationProvider =
  provider_ptr :: nat
  DescribeWritable :: "string \<Rightarrow> go_error + string"
  BeginFeatureTx :: "TxOptions \<Rightarrow> 'db \<Rightarrow> go_error + 'tx"
  tx_Apply :: "Mutation \<Rightarrow> 'tx \<Rightarrow> (go_error + MutationOutcome) \<times> 'tx"
  tx_Commit :: "'tx \<Rightarrow> 'db \<Rightarrow> (CommitReceipt \<times> go_error option) \<times> 'db"
  tx_Rollback :: "'tx \<Rightarrow> 'db \<Rightarrow> 'db"

text \<open>A callback returns the text of its panic, if it panics.\<close>

record ('db, 'tx) MutationCoordinator =
  PolicyFor :: "string \<Rightarrow> Policy option"
  SchemaFor :: "string \<Rightarrow> go_error + SchemaDescriptor"
  SchemaForContext :: "(string \<Rightarrow> go_error + SchemaDescriptor) option"
  ProviderFor :: "string \<Rightarrow> go_error + ('db, 'tx) MutationProvider \<times> string"
  OnCommit :: "(string list \<Rightarrow> string option) option"
  OnInvalidate :: "(string list \<Rightarrow> string option) option"
  LockCheck :: "(string \<Rightarrow> PhysicalFeatureKey \<Rightarrow> string option) option"

datatype event =
    EvBegin bool
  | EvCheckRow PhysicalFeatureKey bool
  | EvLockCheck string PhysicalFeatureKey bool
  | EvApply Mutation bool
  | EvPostImage PhysicalFeatureKey bool
  | EvCommit CommitStatus
  | EvInvalidate "string list"
  | EvOnCommit "string list"
  | EvRollback

record ('db, 'tx) bound =
  b_mp :: "('db, 'tx) MutationProvider"
  b_layer :: string
  b_collection :: string
  b_policy :: Policy
  b_mutation :: Mutation

definition sameProvider :: "('db, 'tx) MutationProvider \<Rightarrow> ('db, 'tx) MutationProvider \<Rightarrow> bool" where
  "sameProvider a b \<longleftrightarrow> provider_ptr a = provider_ptr b"

definition formatPK :: "u64 \<Rightarrow> string" where
  "formatPK n = FormatUint (unat n)"

definition effective_policy :: "('db, 'tx) MutationCoordinator \<Rightarrow> string \<Rightarrow> Policy" where
  "effective_policy c coll = (case PolicyFor c coll of Some p \<Rightarrow> p | None \<Rightarrow> DenyAllPolicy)"

definition resolve_schema :: "('db, 'tx) MutationCoordinator \<Rightarrow> string \<Rightarrow> go_error + SchemaDescriptor" where
  "resolve_schema c coll = (case SchemaForContext c of Some f \<Rightarrow> f coll | None \<Rightarrow> SchemaFor c coll)"

text \<open>The checks made for one mutation before the transaction begins.\<close>

definition bind_one ::
  "('db, 'tx) MutationCoordinator \<Rightarrow> Principal \<Rightarrow> string \<Rightarrow> ('db, 'tx) MutationProvider option \<Rightarrow> Mutation \<Rightarrow>
     go_error + string \<times> ('db, 'tx) bound" where
  "bind_one c actor domain first m =
     (let coll = m_Collection m in
      case policyActionFor (MutationOp_String (m_Op m)) of
        None \<Rightarrow> Inl (MutationError MutationErrMalformedInput (Reason (''unknown mutation op '' @ [CHR 0x22] @ MutationOp_String (m_Op m) @ [CHR 0x22])))
      | Some action \<Rightarrow>
          let policy = effective_policy c coll; d = CheckCollection policy actor action coll in
          if \<not> Allow d then Inl (MutationError MutationErrDenied (Reason (''collection policy denied: '' @ d_Reason d)))
          else if CollectionOnly policy \<noteq> Some True
          then Inl (MutationError MutationErrUnsupportedCapability
                 (Reason ''row-dependent authorization requires transactional pre-image and post-image support''))
          else (case resolve_schema c coll of
              Inl e \<Rightarrow> Inl e
            | Inr schema \<Rightarrow> (case validateMutationInput schema m of
                  Inl e \<Rightarrow> Inl e
                | Inr _ \<Rightarrow> (case ProviderFor c coll of
                      Inl e \<Rightarrow> Inl e
                    | Inr mpl \<Rightarrow> (case DescribeWritable (fst mpl) (snd mpl) of
                          Inl e \<Rightarrow> Inl e
                        | Inr wd_Domain \<Rightarrow>
                            if domain \<noteq> [] \<and> wd_Domain \<noteq> domain
                            then Inl (MutationError MutationErrDomainMismatch (Reason ''transaction spans multiple domains''))
                            else if (case first of None \<Rightarrow> False | Some f \<Rightarrow> \<not> sameProvider f (fst mpl))
                            then Inl (MutationError MutationErrDomainMismatch (Reason ''transaction spans multiple provider instances''))
                            else Inr (if domain = [] then wd_Domain else domain,
                              \<lparr>b_mp = fst mpl, b_layer = snd mpl, b_collection = coll, b_policy = policy,
                               b_mutation = m\<lparr>m_Collection := snd mpl\<rparr>\<rparr>))))))"

fun bind_all ::
  "('db, 'tx) MutationCoordinator \<Rightarrow> Principal \<Rightarrow> string \<Rightarrow> ('db, 'tx) MutationProvider option \<Rightarrow> Mutation list \<Rightarrow>
     go_error + string \<times> ('db, 'tx) bound list" where
  "bind_all c actor domain first [] = Inr (domain, [])"
| "bind_all c actor domain first (m # ms) =
     (case bind_one c actor domain first m of
        Inl e \<Rightarrow> Inl e
      | Inr db \<Rightarrow>
          (case bind_all c actor (fst db) (case first of None \<Rightarrow> Some (b_mp (snd db)) | Some f \<Rightarrow> Some f) ms of
             Inl e \<Rightarrow> Inl e
           | Inr (domain', bs) \<Rightarrow> Inr (domain', snd db # bs)))"

definition bound_key :: "string \<Rightarrow> ('db, 'tx) bound \<Rightarrow> PhysicalFeatureKey" where
  "bound_key domain b = \<lparr>Domain = domain, Relation = b_layer b, PK = formatPK (m_FeatureID (b_mutation b)),
     SourceIncarnation = [], EntityIncarnation = 0\<rparr>"

definition bound_action :: "('db, 'tx) bound \<Rightarrow> PolicyAction" where
  "bound_action b = (case policyActionFor (MutationOp_String (m_Op (b_mutation b))) of Some a \<Rightarrow> a | None \<Rightarrow> ActionRead)"

text \<open>The loop inside the transaction, with the calls it makes.\<close>

fun apply_all ::
  "('db, 'tx) MutationCoordinator \<Rightarrow> Principal \<Rightarrow> ('db, 'tx) MutationProvider \<Rightarrow> string \<Rightarrow> ('db, 'tx) bound list \<Rightarrow> 'tx \<Rightarrow>
     (go_error + MutationOutcome list) \<times> 'tx \<times> event list" where
  "apply_all c actor mp domain [] tx = (Inr [], tx, [])"
| "apply_all c actor mp domain (b # bs) tx =
     (let key = bound_key domain b; d = CheckRow (b_policy b) actor (bound_action b) key in
      if \<not> Allow d
      then (Inl (MutationError MutationErrDenied (Reason (''row policy denied: '' @ d_Reason d))), tx, [EvCheckRow key False])
      else
        let locked = (case LockCheck c of None \<Rightarrow> None | Some f \<Rightarrow> f (b_collection b) key);
            evs = EvCheckRow key True #
              (if LockCheck c = None then [] else [EvLockCheck (b_collection b) key (locked = None)])
        in (case locked of
             Some t \<Rightarrow> (Inl (MutationError MutationErrLockConflict (Reason t)), tx, evs)
           | None \<Rightarrow> (case tx_Apply mp (b_mutation b) tx of
                 (Inl e, tx') \<Rightarrow> (Inl e, tx', evs @ [EvApply (b_mutation b) False])
               | (Inr outcome, tx') \<Rightarrow>
                   let pd = CheckPostImage (b_policy b) actor key None;
                       evs' = evs @ [EvApply (b_mutation b) True, EvPostImage key (Allow pd)]
                   in if \<not> Allow pd
                      then (Inl (MutationError MutationErrDenied (Reason (''post-image policy denied: '' @ d_Reason pd))), tx', evs')
                      else (case apply_all c actor mp domain bs tx' of
                          (Inl e, tx'', rest) \<Rightarrow> (Inl e, tx'', evs' @ rest)
                        | (Inr outs, tx'', rest) \<Rightarrow> (Inr (outcome # outs), tx'', evs' @ rest)))))"

definition notifyMutationCommit :: "(string list \<Rightarrow> string option) \<Rightarrow> string list \<Rightarrow> go_error option" where
  "notifyMutationCommit callback cols = (case callback cols of
       Some failure \<Rightarrow> Some (OtherError (''post-commit callback failed: '' @ failure))
     | None \<Rightarrow> None)"

record 'db exec_result =
  x_outcomes :: "MutationOutcome list"
  x_receipt :: CommitReceipt
  x_err :: "go_error option"
  x_db :: 'db
  x_events :: "event list"

definition empty_receipt :: "CommitStatus \<Rightarrow> CommitReceipt" where
  "empty_receipt s = \<lparr>r_Status = s, r_TransactionID = [], r_Timestamp = [], r_Actor = [], r_Collections = []\<rparr>"

lemma r_Status_empty_receipt [simp]: "r_Status (empty_receipt s) = s"
  by (simp add: empty_receipt_def)

text \<open>The collections of the request, each once, in order of first use.\<close>

definition mutated_collections :: "('db, 'tx) bound list \<Rightarrow> string list" where
  "mutated_collections bs =
     rev (fold (\<lambda>b cols. if List.member cols (b_collection b) then cols else b_collection b # cols) bs [])"

definition finish_commit ::
  "('db, 'tx) MutationCoordinator \<Rightarrow> Principal \<Rightarrow> string \<Rightarrow> ('db, 'tx) MutationProvider \<Rightarrow> string list \<Rightarrow>
     MutationOutcome list \<Rightarrow> 'tx \<Rightarrow> 'db \<Rightarrow> 'db exec_result" where
  "finish_commit c actor timestamp mp cols outcomes tx db =
     (case tx_Commit mp tx db of
        ((receipt, err), db1) \<Rightarrow>
          let committed = (r_Status receipt = CommitCommitted);
              inval = (committed \<or> r_Status receipt = CommitUnknown);
              err1 = (case OnInvalidate c of
                  Some f \<Rightarrow> if inval then errors_Join err (notifyMutationCommit f cols) else err
                | None \<Rightarrow> err);
              ev1 = EvCommit (r_Status receipt) #
                (if OnInvalidate c \<noteq> None \<and> inval then [EvInvalidate cols] else [])
          in if \<not> committed
             then \<lparr>x_outcomes = [], x_receipt = receipt,
                   x_err = (case err1 of
                       Some e \<Rightarrow> Some e
                     | None \<Rightarrow> if r_Status receipt = CommitNotCommitted
                         then Some (MutationError MutationErrExecutionFailed (Reason ''transaction was not committed''))
                         else Some (MutationError MutationErrCommitUnknown (Reason ''commit outcome unknown''))),
                   x_db = tx_Rollback mp tx db1, x_events = ev1 @ [EvRollback]\<rparr>
             else \<lparr>x_outcomes = outcomes,
                   x_receipt = receipt\<lparr>r_Timestamp := timestamp, r_Actor := p_ID actor, r_Collections := cols\<rparr>,
                   x_err = (case OnCommit c of
                       Some f \<Rightarrow> errors_Join err1 (notifyMutationCommit f cols)
                     | None \<Rightarrow> err1),
                   x_db = db1, x_events = ev1 @ (if OnCommit c \<noteq> None then [EvOnCommit cols] else [])\<rparr>)"

text \<open>\<open>cancelled\<close>: the request context is done once the transaction is open; \<open>timestamp\<close>: the
  commit time; \<open>requestID\<close>: the value carried by the context.\<close>

definition ExecuteAll ::
  "('db, 'tx) MutationCoordinator \<Rightarrow> bool \<Rightarrow> string \<Rightarrow> string \<Rightarrow> Principal \<Rightarrow> Mutation list \<Rightarrow> 'db \<Rightarrow> 'db exec_result" where
  "ExecuteAll c cancelled requestID timestamp actor mutations db =
     (let fail = (\<lambda>e db' evs. \<lparr>x_outcomes = [], x_receipt = empty_receipt CommitNotCommitted, x_err = Some e,
                               x_db = db', x_events = evs\<rparr>)
      in if mutations = [] then fail (MutationError MutationErrMalformedInput (Reason ''no mutations'')) db []
         else (case bind_all c actor [] None mutations of
             Inl e \<Rightarrow> fail e db []
           | Inr (domain, bs) \<Rightarrow>
               let mp = b_mp (hd bs) in
               (case BeginFeatureTx mp \<lparr>tx_ReadOnly = False, tx_Actor = p_ID actor, tx_RequestID = requestID\<rparr> db of
                  Inl e \<Rightarrow> fail e db [EvBegin False]
                | Inr tx \<Rightarrow>
                    if cancelled
                    then fail (MutationError MutationErrMalformedInput (Reason ''context cancelled before begin''))
                           (tx_Rollback mp tx db) [EvBegin True, EvRollback]
                    else (case apply_all c actor mp domain bs tx of
                        (Inl e, tx', evs) \<Rightarrow> fail e (tx_Rollback mp tx' db) (EvBegin True # evs @ [EvRollback])
                      | (Inr outcomes, tx', evs) \<Rightarrow>
                          let r = finish_commit c actor timestamp mp (mutated_collections bs) outcomes tx' db
                          in r\<lparr>x_events := EvBegin True # evs @ x_events r\<rparr>))))"

definition Execute ::
  "('db, 'tx) MutationCoordinator \<Rightarrow> bool \<Rightarrow> string \<Rightarrow> string \<Rightarrow> Principal \<Rightarrow> Mutation \<Rightarrow> 'db \<Rightarrow>
     MutationOutcome \<times> CommitReceipt \<times> go_error option" where
  "Execute c cancelled requestID timestamp actor m db =
     (let r = ExecuteAll c cancelled requestID timestamp actor [m] db in
      (if x_outcomes r = [] then \<lparr>o_FeatureID = 0, o_Revision = [], o_RevisionBefore = [], o_Affected = 0\<rparr>
       else hd (x_outcomes r), x_receipt r, x_err r))"

end
