(* ===== verification/Mutation_Correct.thy ===== *)
theory Mutation_Correct
  imports Feature_Mutation
begin

text \<open>
  Correctness of the mutation coordinator: what binding a mutation establishes before the
  transaction, the protocol every run follows, the outcome reported for each commit status, the
  atomicity of a request over a provider that keeps the transaction contract, and which inputs
  schema validation accepts.
\<close>

section \<open>What binding establishes\<close>

text \<open>The checks a mutation has passed when it is bound.\<close>

definition admitted :: "('db, 'tx) MutationCoordinator \<Rightarrow> Principal \<Rightarrow> Mutation \<Rightarrow> bool" where
  "admitted c actor m \<longleftrightarrow>
     (\<exists>action. policyActionFor (MutationOp_String (m_Op m)) = Some action \<and>
        Allow (CheckCollection (effective_policy c (m_Collection m)) actor action (m_Collection m))) \<and>
     CollectionOnly (effective_policy c (m_Collection m)) = Some True \<and>
     (\<exists>schema. resolve_schema c (m_Collection m) = Inr schema \<and> validateMutationInput schema m = Inr ())"

definition bound_to :: "('db, 'tx) MutationCoordinator \<Rightarrow> Mutation \<Rightarrow> ('db, 'tx) bound \<Rightarrow> bool" where
  "bound_to c m b \<longleftrightarrow> b_collection b = m_Collection m \<and> b_policy b = effective_policy c (m_Collection m) \<and>
     ProviderFor c (m_Collection m) = Inr (b_mp b, b_layer b) \<and> b_mutation b = m\<lparr>m_Collection := b_layer b\<rparr>"

lemma bind_one_Inr:
  assumes "bind_one c actor domain first m = Inr (domain', b)"
  shows "admitted c actor m \<and> bound_to c m b \<and> (\<forall>f. first = Some f \<longrightarrow> sameProvider f (b_mp b)) \<and>
    (domain \<noteq> [] \<longrightarrow> domain' = domain)"
  using assms
  by (auto simp: bind_one_def Let_def admitted_def bound_to_def split: option.splits if_splits)

lemma bind_all_Inr:
  assumes "bind_all c actor domain first ms = Inr (domain', bs)"
  shows "list_all2 (\<lambda>m b. admitted c actor m \<and> bound_to c m b \<and> (\<forall>f. first = Some f \<longrightarrow> sameProvider f (b_mp b))) ms bs"
  using assms
proof (induction ms arbitrary: domain first bs)
  case (Cons m ms)
  from Cons.prems obtain d1 b bs1 where o: "bind_one c actor domain first m = Inr (d1, b)" "bs = b # bs1"
    and r: "bind_all c actor d1 (case first of None \<Rightarrow> Some (b_mp b) | Some f \<Rightarrow> Some f) ms = Inr (domain', bs1)"
    by (cases first) (auto split: prod.splits)
  have "list_all2 (\<lambda>m b. admitted c actor m \<and> bound_to c m b \<and> (\<forall>f. first = Some f \<longrightarrow> sameProvider f (b_mp b))) ms bs1"
    by (rule list_all2_mono [OF Cons.IH [OF r]]) (auto split: option.splits)
  with o bind_one_Inr [OF o(1)] show ?case by simp
qed simp

lemma bind_all_not_admitted:
  "m \<in> set ms \<Longrightarrow> \<not> admitted c actor m \<Longrightarrow> \<exists>e. bind_all c actor domain first ms = Inl e"
proof (rule ccontr)
  assume m: "m \<in> set ms" "\<not> admitted c actor m" and "\<nexists>e. bind_all c actor domain first ms = Inl e"
  then obtain d bs where "bind_all c actor domain first ms = Inr (d, bs)"
    by (metis old.sum.exhaust surj_pair)
  from bind_all_Inr [OF this] m show False by (auto simp: list_all2_conv_all_nth in_set_conv_nth)
qed

text \<open>
  C5. No write without authority. If the policy of any mutation's collection (the deny-all policy
  when none is configured) refuses it or is not declared row-independent, or its schema cannot be
  resolved, or its input violates the schema, then no transaction is begun and nothing in it is
  touched: the request returns an error, no outcome and a receipt that says not committed, and the
  database is unchanged.
\<close>

theorem no_write_without_admission:
  assumes "m \<in> set ms" "\<not> admitted c actor m"
  shows "let r = ExecuteAll c cancelled requestID timestamp actor ms db in
    x_events r = [] \<and> x_db r = db \<and> x_outcomes r = [] \<and> r_Status (x_receipt r) = CommitNotCommitted \<and> x_err r \<noteq> None"
proof -
  obtain e where "bind_all c actor [] None ms = Inl e" using bind_all_not_admitted [OF assms] by blast
  then show ?thesis using assms(1) by (auto simp: ExecuteAll_def Let_def)
qed

section \<open>The protocol of a transaction\<close>

datatype phase =
    Idle
  | Refused
  | Open
  | RowPassed PhysicalFeatureKey
  | LockPassed PhysicalFeatureKey
  | Applied PhysicalFeatureKey
  | Aborting
  | AfterCommit CommitStatus bool bool
  | RolledBack

definition key_matches :: "PhysicalFeatureKey \<Rightarrow> Mutation \<Rightarrow> bool" where
  "key_matches k m \<longleftrightarrow> Relation k = m_Collection m \<and> PK k = formatPK (m_FeatureID m)"

text \<open>
  The protocol: begin; for each mutation a row check, the lock check when one is configured, the
  write of that very row, the post-image check; then commit, the invalidation unless the commit is
  known to have failed, and either the success notification or a rollback. A failing step leads to
  a rollback only.
\<close>

definition protocol_step :: "('db, 'tx) MutationCoordinator \<Rightarrow> phase \<Rightarrow> event \<Rightarrow> phase option" where
  "protocol_step c p e = (case p of
       Idle \<Rightarrow> (case e of EvBegin ok \<Rightarrow> Some (if ok then Open else Refused) | _ \<Rightarrow> None)
     | Open \<Rightarrow> (case e of
           EvCheckRow k ok \<Rightarrow> Some (if ok then RowPassed k else Aborting)
         | EvRollback \<Rightarrow> Some RolledBack
         | EvCommit s \<Rightarrow> Some (AfterCommit s False False)
         | _ \<Rightarrow> None)
     | RowPassed k \<Rightarrow> (case e of
           EvLockCheck coll k' ok \<Rightarrow>
             if LockCheck c \<noteq> None \<and> k' = k then Some (if ok then LockPassed k else Aborting) else None
         | EvApply m ok \<Rightarrow>
             if LockCheck c = None \<and> key_matches k m then Some (if ok then Applied k else Aborting) else None
         | _ \<Rightarrow> None)
     | LockPassed k \<Rightarrow> (case e of
           EvApply m ok \<Rightarrow> if key_matches k m then Some (if ok then Applied k else Aborting) else None
         | _ \<Rightarrow> None)
     | Applied k \<Rightarrow> (case e of
           EvPostImage k' ok \<Rightarrow> if k' = k then Some (if ok then Open else Aborting) else None
         | _ \<Rightarrow> None)
     | Aborting \<Rightarrow> (case e of EvRollback \<Rightarrow> Some RolledBack | _ \<Rightarrow> None)
     | AfterCommit s invalidated notified \<Rightarrow> (case e of
           EvInvalidate cols \<Rightarrow>
             if OnInvalidate c \<noteq> None \<and> s \<noteq> CommitNotCommitted \<and> \<not> invalidated \<and> \<not> notified
             then Some (AfterCommit s True notified) else None
         | EvOnCommit cols \<Rightarrow>
             if OnCommit c \<noteq> None \<and> s = CommitCommitted \<and> invalidated = (OnInvalidate c \<noteq> None) \<and> \<not> notified
             then Some (AfterCommit s invalidated True) else None
         | EvRollback \<Rightarrow>
             if s \<noteq> CommitCommitted \<and> invalidated = (OnInvalidate c \<noteq> None \<and> s = CommitUnknown)
             then Some RolledBack else None
         | _ \<Rightarrow> None)
     | _ \<Rightarrow> None)"

fun protocol_run :: "('db, 'tx) MutationCoordinator \<Rightarrow> phase \<Rightarrow> event list \<Rightarrow> phase option" where
  "protocol_run c p [] = Some p"
| "protocol_run c p (e # es) = (case protocol_step c p e of None \<Rightarrow> None | Some p' \<Rightarrow> protocol_run c p' es)"

definition complete :: "('db, 'tx) MutationCoordinator \<Rightarrow> CommitStatus \<Rightarrow> phase \<Rightarrow> bool" where
  "complete c status p \<longleftrightarrow> p = (if status = CommitCommitted then AfterCommit CommitCommitted (OnInvalidate c \<noteq> None) (OnCommit c \<noteq> None)
     else RolledBack)"

lemmas protocol_step_simps [simp] = protocol_step_def

lemma protocol_run_append:
  "protocol_run c p (es @ fs) = (case protocol_run c p es of None \<Rightarrow> None | Some p' \<Rightarrow> protocol_run c p' fs)"
  by (induction es arbitrary: p) (auto split: option.splits)

lemma bound_key_matches: "bound_to c m b \<Longrightarrow> key_matches (bound_key domain b) (b_mutation b)"
  by (simp add: key_matches_def bound_key_def bound_to_def)

lemma apply_all_protocol:
  assumes "\<forall>b \<in> set bs. key_matches (bound_key domain b) (b_mutation b)"
    and "apply_all c actor mp domain bs tx = (r, tx', evs)"
  shows "protocol_run c Open evs = Some (case r of Inl _ \<Rightarrow> Aborting | Inr _ \<Rightarrow> Open)"
  using assms
proof (induction bs arbitrary: tx r tx' evs)
  case (Cons b bs)
  have k: "key_matches (bound_key domain b) (b_mutation b)" using Cons.prems(1) by simp
  obtain out tx1 where ap: "tx_Apply mp (b_mutation b) tx = (out, tx1)" by fastforce
  obtain r2 tx2 ev2 where rec: "apply_all c actor mp domain bs tx1 = (r2, tx2, ev2)" by (metis prod_cases3)
  have IH: "protocol_run c Open ev2 = Some (case r2 of Inl _ \<Rightarrow> Aborting | Inr _ \<Rightarrow> Open)"
    using Cons.IH [OF _ rec] Cons.prems(1) by simp
  show ?case using Cons.prems(2) k IH
    by (cases out; cases r2; cases "LockCheck c")
      (auto simp: ap rec Let_def protocol_run_append split: if_splits option.splits)
qed simp

lemma finish_commit_protocol:
  "let r = finish_commit c actor ts mp cols outs tx db in
   \<exists>p. protocol_run c Open (x_events r) = Some p \<and> complete c (r_Status (x_receipt r)) p"
  by (cases "r_Status (fst (fst (tx_Commit mp tx db)))")
    (auto simp: finish_commit_def Let_def complete_def split: prod.splits)

lemma bind_all_keys:
  assumes "bind_all c actor domain first ms = Inr (domain', bs)"
  shows "\<forall>b \<in> set bs. key_matches (bound_key d b) (b_mutation b)"
  using bind_all_Inr [OF assms] unfolding list_all2_conv_all_nth by (metis bound_key_matches in_set_conv_nth)

text \<open>
  C4. Every request follows the transaction protocol, whatever the policies, locks, provider and
  callbacks answer: it makes no call at all, or a begin that fails and nothing else, or a complete
  run of the protocol. Each write is preceded by the row check of that very row, by the lock check
  when one is configured, and followed by the post-image check; the run ends in a rollback unless
  the receipt says committed, invalidation is signalled exactly when the commit succeeded or its
  outcome is unknown, and the success notification exactly when it succeeded.
\<close>

theorem execute_follows_protocol:
  "let r = ExecuteAll c cancelled requestID timestamp actor ms db in
   x_events r = [] \<or> x_events r = [EvBegin False] \<or>
   (\<exists>p. protocol_run c Idle (x_events r) = Some p \<and> complete c (r_Status (x_receipt r)) p)"
proof (cases "ms = [] \<or> (\<exists>e. bind_all c actor [] None ms = Inl e)")
  case True
  then show ?thesis by (auto simp: ExecuteAll_def Let_def)
next
  case False
  then obtain domain bs where b: "bind_all c actor [] None ms = Inr (domain, bs)" "ms \<noteq> []"
    by (metis old.sum.exhaust surj_pair)
  show ?thesis
  proof (cases "BeginFeatureTx (b_mp (hd bs)) \<lparr>tx_ReadOnly = False, tx_Actor = p_ID actor, tx_RequestID = requestID\<rparr> db")
    case (Inr tx)
    obtain r tx' evs where a: "apply_all c actor (b_mp (hd bs)) domain bs tx = (r, tx', evs)" by (metis prod_cases3)
    note p = apply_all_protocol [OF bind_all_keys [OF b(1)] a]
    obtain out where "r = Inr out \<or> (\<exists>e. r = Inl e)" by (cases r) auto
    then show ?thesis
      using b Inr a p finish_commit_protocol [where c = c]
      by (auto simp: ExecuteAll_def Let_def protocol_run_append complete_def)
  qed (simp add: ExecuteAll_def Let_def b)
qed

section \<open>What is reported\<close>

lemma mutated_collections_set: "set (mutated_collections bs) = b_collection ` set bs"
  and mutated_collections_distinct: "distinct (mutated_collections bs)"
proof -
  let ?f = "\<lambda>b cols. if List.member cols (b_collection b) then cols else b_collection b # cols"
  have "set (fold ?f bs cols) = set cols \<union> b_collection ` set bs \<and> (distinct cols \<longrightarrow> distinct (fold ?f bs cols))"
    for cols by (induction bs arbitrary: cols) (auto simp: List.member_iff)
  from this [of "[]"] show "set (mutated_collections bs) = b_collection ` set bs" "distinct (mutated_collections bs)"
    by (simp_all add: mutated_collections_def)
qed

lemma apply_all_length: "apply_all c actor mp domain bs tx = (Inr outs, tx', evs) \<Longrightarrow> length outs = length bs"
  by (induction bs arbitrary: tx outs tx' evs)
    (auto simp: Let_def split: if_splits option.splits prod.splits sum.splits)

lemma bind_all_collections:
  "bind_all c actor domain first ms = Inr (domain', bs) \<Longrightarrow> map b_collection bs = map m_Collection ms \<and> length bs = length ms"
  using bind_all_Inr [of c actor domain first ms domain' bs]
  by (auto simp: list_all2_conv_all_nth bound_to_def intro: nth_equalityI)

text \<open>
  C6. The outcome of a request matches its commit. Unless the receipt says committed there is no
  outcome and there is an error (so a lost acknowledgement is never reported as success); when it
  says committed there is one outcome per mutation, and the receipt names the actor, the commit
  time and exactly the collections of the request, each once.
\<close>

theorem execute_reports_commit:
  "let r = ExecuteAll c cancelled requestID timestamp actor ms db in
   (if r_Status (x_receipt r) = CommitCommitted
    then length (x_outcomes r) = length ms \<and> r_Actor (x_receipt r) = p_ID actor \<and>
      r_Timestamp (x_receipt r) = timestamp \<and>
      set (r_Collections (x_receipt r)) = set (map m_Collection ms) \<and> distinct (r_Collections (x_receipt r))
    else x_outcomes r = [] \<and> (\<exists>e. x_err r = Some e))"
proof (cases "bind_all c actor [] None ms")
  case (Inr db1)
  then obtain domain bs where b: "bind_all c actor [] None ms = Inr (domain, bs)" by (metis surj_pair)
  have cols: "set (mutated_collections bs) = set (map m_Collection ms)" "distinct (mutated_collections bs)" "length bs = length ms"
    using bind_all_collections [OF b] mutated_collections_set [of bs] mutated_collections_distinct [of bs]
    by (metis list.set_map)+
  have fin: "let r = finish_commit c actor timestamp mp cs outs tx db in
      (if r_Status (x_receipt r) = CommitCommitted
       then x_outcomes r = outs \<and> r_Actor (x_receipt r) = p_ID actor \<and> r_Timestamp (x_receipt r) = timestamp \<and>
         r_Collections (x_receipt r) = cs
       else x_outcomes r = [] \<and> (\<exists>e. x_err r = Some e))" for mp cs outs tx
    by (auto simp: finish_commit_def Let_def split: prod.splits option.splits)
  show ?thesis
  proof (cases "BeginFeatureTx (b_mp (hd bs)) \<lparr>tx_ReadOnly = False, tx_Actor = p_ID actor, tx_RequestID = requestID\<rparr> db")
    case (Inr tx)
    obtain q tx' evs where a: "apply_all c actor (b_mp (hd bs)) domain bs tx = (q, tx', evs)" by (metis prod_cases3)
    have "length outs = length ms" if "q = Inr outs" for outs using apply_all_length a that cols(3) by metis
    then show ?thesis using Inr b a cols fin [of "b_mp (hd bs)" "mutated_collections bs" _ tx']
      by (cases q) (auto simp: ExecuteAll_def Let_def split: if_splits)
  qed (simp add: ExecuteAll_def Let_def b)
qed (simp add: ExecuteAll_def Let_def)

section \<open>Atomicity\<close>

text \<open>
  What a provider promises of its transactions: \<open>view\<close> is the data as an open transaction sees it.
  A new transaction sees the stored data; rolling back keeps the stored data; a commit reported
  as done has stored what the transaction saw, one reported as not done has stored nothing, and one
  whose outcome is unknown did either.
\<close>

definition tx_contract :: "('db, 'tx) MutationProvider \<Rightarrow> ('tx \<Rightarrow> 'db) \<Rightarrow> bool" where
  "tx_contract mp view \<longleftrightarrow>
     (\<forall>opts db tx. BeginFeatureTx mp opts db = Inr tx \<longrightarrow> view tx = db) \<and>
     (\<forall>tx db. tx_Rollback mp tx db = db) \<and>
     (\<forall>tx db r e db'. tx_Commit mp tx db = ((r, e), db') \<longrightarrow>
        (case r_Status r of CommitCommitted \<Rightarrow> db' = view tx | CommitNotCommitted \<Rightarrow> db' = db
         | CommitUnknown \<Rightarrow> db' = view tx \<or> db' = db))"

text \<open>Applying commands one after the other, all of them successfully.\<close>

fun applies :: "('db, 'tx) MutationProvider \<Rightarrow> Mutation list \<Rightarrow> 'tx \<Rightarrow> 'tx \<Rightarrow> bool" where
  "applies mp [] tx tx' \<longleftrightarrow> tx' = tx"
| "applies mp (m # ms) tx tx' \<longleftrightarrow> (\<exists>out tx1. tx_Apply mp m tx = (Inr out, tx1) \<and> applies mp ms tx1 tx')"

lemma apply_all_applies:
  "apply_all c actor mp domain bs tx = (Inr outs, tx', evs) \<Longrightarrow> applies mp (map b_mutation bs) tx tx'"
  by (induction bs arbitrary: tx outs evs)
    (auto simp: Let_def split: if_splits option.splits prod.splits sum.splits)

text \<open>The commands a request stands for: each mutation with its collection replaced by the layer.\<close>

definition pinned :: "('db, 'tx) MutationCoordinator \<Rightarrow> Mutation \<Rightarrow> Mutation" where
  "pinned c m = (case ProviderFor c (m_Collection m) of Inr (mp, layer) \<Rightarrow> m\<lparr>m_Collection := layer\<rparr> | Inl _ \<Rightarrow> m)"

lemma bind_all_pinned:
  assumes "bind_all c actor domain first ms = Inr (domain', bs)"
  shows "map b_mutation bs = map (pinned c) ms"
  using bind_all_Inr [OF assms]
  by (auto simp: list_all2_conv_all_nth bound_to_def pinned_def intro: nth_equalityI)

lemma execute_outcome:
  assumes contract: "\<forall>coll mp layer. ProviderFor c coll = Inr (mp, layer) \<longrightarrow> tx_contract mp view"
  shows "let r = ExecuteAll c cancelled requestID timestamp actor ms db;
      all_applied = (\<exists>mp layer tx tx'. ProviderFor c (m_Collection (hd ms)) = Inr (mp, layer) \<and>
        view tx = db \<and> applies mp (map (pinned c) ms) tx tx' \<and> x_db r = view tx')
    in case r_Status (x_receipt r) of
         CommitCommitted \<Rightarrow> all_applied
       | CommitNotCommitted \<Rightarrow> x_db r = db
       | CommitUnknown \<Rightarrow> x_db r = db \<or> all_applied"
proof (cases "ms = [] \<or> (\<exists>e. bind_all c actor [] None ms = Inl e)")
  case True
  then show ?thesis by (auto simp: ExecuteAll_def Let_def)
next
  case False
  then obtain domain bs where b: "bind_all c actor [] None ms = Inr (domain, bs)" "ms \<noteq> []"
    by (metis old.sum.exhaust surj_pair)
  have "bound_to c (hd ms) (hd bs)" "bs \<noteq> []"
    using bind_all_Inr [OF b(1)] b(2) by (cases ms; cases bs; auto)+
  then have k: "tx_contract (b_mp (hd bs)) view" and pf: "ProviderFor c (m_Collection (hd ms)) = Inr (b_mp (hd bs), b_layer (hd bs))"
    using contract by (auto simp: bound_to_def)
  define mp where "mp = b_mp (hd bs)"
  note k = k [folded mp_def]
  have rb: "tx_Rollback mp t d = d" for t d using k by (simp add: tx_contract_def)
  show ?thesis
  proof (cases "BeginFeatureTx mp \<lparr>tx_ReadOnly = False, tx_Actor = p_ID actor, tx_RequestID = requestID\<rparr> db")
    case (Inr tx)
    then have v: "view tx = db" using k by (auto simp: tx_contract_def)
    obtain q tx' evs where a: "apply_all c actor mp domain bs tx = (q, tx', evs)" by (metis prod_cases3)
    show ?thesis
    proof (cases "cancelled \<or> (\<exists>e. q = Inl e)")
      case True
      with b Inr a rb show ?thesis by (auto simp: ExecuteAll_def Let_def mp_def)
    next
      case False
      then obtain outs where q: "q = Inr outs" "\<not> cancelled" by (cases q) auto
      obtain rc e db' where cm: "tx_Commit mp tx' db = ((rc, e), db')" by (metis surj_pair)
      have ap: "applies mp (map (pinned c) ms) tx tx'"
        using apply_all_applies a q(1) bind_all_pinned [OF b(1)] by metis
      have "case r_Status rc of CommitCommitted \<Rightarrow> db' = view tx' | CommitNotCommitted \<Rightarrow> db' = db
         | CommitUnknown \<Rightarrow> db' = view tx' \<or> db' = db"
        using k cm by (auto simp: tx_contract_def)
      with b Inr a q rb cm v ap pf show ?thesis
        by (cases "r_Status rc") (auto simp: ExecuteAll_def finish_commit_def Let_def mp_def)
    qed
  qed (use b in \<open>simp add: ExecuteAll_def Let_def mp_def\<close>)
qed

text \<open>
  C3. A request is atomic. Over a provider that keeps the transaction contract, either the stored
  data is what it was, or every mutation of the request, in order, was applied successfully to it in
  one transaction; the second when the receipt says committed, the first when it says not committed.
\<close>

theorem execute_atomic:
  assumes contract: "\<And>coll mp layer. ProviderFor c coll = Inr (mp, layer) \<Longrightarrow> tx_contract mp view"
  shows "let r = ExecuteAll c cancelled requestID timestamp actor ms db;
      all_applied = (\<exists>mp layer tx tx'. ProviderFor c (m_Collection (hd ms)) = Inr (mp, layer) \<and>
        view tx = db \<and> applies mp (map (pinned c) ms) tx tx' \<and> x_db r = view tx')
    in case r_Status (x_receipt r) of
         CommitCommitted \<Rightarrow> all_applied
       | CommitNotCommitted \<Rightarrow> x_db r = db
       | CommitUnknown \<Rightarrow> x_db r = db \<or> all_applied"
  by (rule execute_outcome) (use contract in blast)

section \<open>A provider and a coordinator to run\<close>

definition sample_provider :: "(nat, nat) MutationProvider" where
  "sample_provider = \<lparr>provider_ptr = 1, DescribeWritable = (\<lambda>_. Inr ''d''), BeginFeatureTx = (\<lambda>_ db. Inr db),
     tx_Apply = (\<lambda>m tx. (Inr \<lparr>o_FeatureID = m_FeatureID m, o_Revision = [], o_RevisionBefore = [], o_Affected = 1\<rparr>, tx + 1)),
     tx_Commit = (\<lambda>tx db. ((empty_receipt CommitCommitted, None), tx)), tx_Rollback = (\<lambda>tx db. db)\<rparr>"

definition sample_schema :: SchemaDescriptor where
  "sample_schema = \<lparr>sd_Collection = ''roads'', sd_IDColumn = ''fid'',
     sd_Properties = [\<lparr>pd_Name = ''lanes'', pd_Column = ''lanes'', pd_Type = TypeInteger, pd_Nullable = False,
       pd_Required = True, pd_ReadOnly = False, pd_WriteOnly = False, pd_HasDefault = False, pd_MaxLength = 0,
       pd_AllowedValues = []\<rparr>],
     sd_Geometry = \<lparr>gd_Nullable = True, gd_Name = ''geometry'', gd_Column = ''geom'', gd_Type = ''point'',
       gd_Dimension = ''XY'', gd_SRID = 4326\<rparr>,
     sd_RevisionColumn = [], sd_SchemaVersion = ''1''\<rparr>"

definition sample_coordinator :: "(string \<Rightarrow> Policy option) \<Rightarrow> (nat, nat) MutationCoordinator" where
  "sample_coordinator pol = \<lparr>PolicyFor = pol, SchemaFor = (\<lambda>_. Inr sample_schema), SchemaForContext = None,
     ProviderFor = (\<lambda>c. Inr (sample_provider, c)), OnCommit = None, OnInvalidate = None, LockCheck = None\<rparr>"

definition sample_delete :: Mutation where
  "sample_delete = \<lparr>m_Op = MutationDelete, m_Collection = ''roads'', m_FeatureID = 7, m_Properties = [], m_GeometryWKB = None,
     m_GeometryAbsent = False, m_GeometrySRID = 0, m_GeometryUnchanged = False, m_IfRevision = []\<rparr>"

lemma no_write_without_admission_witness:
  "\<not> admitted (sample_coordinator (\<lambda>_. None)) \<lparr>p_ID = ''u'', p_Anonymous = False\<rparr> sample_delete \<and>
   x_db (ExecuteAll (sample_coordinator (\<lambda>_. None)) False [] ''t'' \<lparr>p_ID = ''u'', p_Anonymous = False\<rparr> [sample_delete] 0) = 0"
proof -
  have n: "\<not> admitted (sample_coordinator (\<lambda>_. None)) \<lparr>p_ID = ''u'', p_Anonymous = False\<rparr> sample_delete"
    by (simp add: admitted_def sample_coordinator_def sample_delete_def policyActionFor_def effective_policy_def DenyAllPolicy_def)
  with no_write_without_admission [OF _ n, of "[sample_delete]" False "[]" "''t''" 0] show ?thesis
    by (simp add: Let_def)
qed

lemma execute_atomic_witness:
  "r_Status (x_receipt (ExecuteAll (sample_coordinator (\<lambda>_. Some AllowAllPolicy)) False [] ''t''
     \<lparr>p_ID = ''u'', p_Anonymous = False\<rparr> [sample_delete] 0)) = CommitCommitted \<and>
   (\<exists>mp layer tx tx'. ProviderFor (sample_coordinator (\<lambda>_. Some AllowAllPolicy)) ''roads'' = Inr (mp, layer) \<and> tx = 0 \<and>
      applies mp (map (pinned (sample_coordinator (\<lambda>_. Some AllowAllPolicy))) [sample_delete]) tx tx' \<and>
      x_db (ExecuteAll (sample_coordinator (\<lambda>_. Some AllowAllPolicy)) False [] ''t''
        \<lparr>p_ID = ''u'', p_Anonymous = False\<rparr> [sample_delete] 0) = tx')"
proof -
  let ?c = "sample_coordinator (\<lambda>_. Some AllowAllPolicy)" and ?u = "\<lparr>p_ID = ''u'', p_Anonymous = False\<rparr>"
  have k: "tx_contract mp (\<lambda>tx. tx)" if "ProviderFor ?c coll = Inr (mp, layer)" for coll mp layer
    using that by (auto simp: sample_coordinator_def tx_contract_def sample_provider_def)
  have s: "r_Status (x_receipt (ExecuteAll ?c False [] ''t'' ?u [sample_delete] 0)) = CommitCommitted"
    by (simp add: ExecuteAll_def Let_def bind_one_def sample_coordinator_def sample_delete_def policyActionFor_def
        effective_policy_def AllowAllPolicy_def resolve_schema_def validateMutationInput_def sample_provider_def
        finish_commit_def)
  have "m_Collection (hd [sample_delete]) = ''roads''" by (simp add: sample_delete_def)
  with execute_atomic [of ?c "\<lambda>tx. tx", OF k, where cancelled = False and requestID = "[]" and timestamp = "''t''"
      and actor = ?u and ms = "[sample_delete]" and db = 0] s
  show ?thesis by (simp only: Let_def CommitStatus.case)
qed

section \<open>Which inputs validation accepts\<close>

lemma validate_properties_ok:
  "validate_properties schema ps = Inr () \<longleftrightarrow>
     (\<forall>(name, mv) \<in> set ps. input_fits schema name (mutationValueToTyped schema name mv))"
  by (induction ps) (auto simp: ValidateInputValue_ok)

text \<open>A complete set of properties: every required, writable one is there, or has a default, and is
  not null unless nullable.\<close>

definition complete_properties :: "SchemaDescriptor \<Rightarrow> (string \<times> TypedValue) list \<Rightarrow> bool" where
  "complete_properties schema present \<longleftrightarrow>
     (\<forall>p\<in>set (sd_Properties schema). pd_Required p \<and> \<not> pd_ReadOnly p \<longrightarrow>
        (case map_of present (pd_Name p) of
           None \<Rightarrow> pd_HasDefault p
         | Some v \<Rightarrow> (tv_State v = ValueAbsent \<longrightarrow> pd_HasDefault p) \<and> (tv_State v = ValueNull \<longrightarrow> pd_Nullable p)))"

text \<open>
  A value is checked by its state and by the textual domains only. The typed value carries the declared
  type whatever kind was supplied, so for a writable integer, boolean or geometry property a value of
  any kind, text included, passes when it is neither null nor empty.
\<close>

lemma value_kind_not_checked:
  assumes "Property schema name = Some p" "\<not> pd_ReadOnly p"
    and "pd_Type p \<in> {TypeInteger, TypeBoolean, TypeGeometry}" "\<not> mv_Null mv" "\<not> mv_Empty mv"
  shows "input_fits schema name (mutationValueToTyped schema name mv)"
  using assms
  by (auto simp: input_fits_def value_fits_def mutationValueToTyped_def Let_def split: MutationValueKind.splits)

text \<open>
  C38. The exact condition under which input validation lets a command through, independently of the
  order in which the properties are visited: a delete needs a target; an insert has none and a
  replace or update has one; a geometry kept unchanged belongs to a revision-bound replacement
  without payload; an insert or replace of a collection whose geometry is not nullable carries one;
  every property is known and writable and its value meets the checks of its descriptor
  (\<open>input_fits\<close>); and an insert or replace has all required properties. The condition does not
  include the kind of a value: an update that supplies a value of any kind, text included, that is
  neither null nor empty for a writable integer, boolean or geometry property is let through,
  although the comment of \<^verbatim>\<open>validateMutationInput\<close> says that type violations are rejected here.
\<close>

theorem mutation_input_accepted_iff:
  "(validateMutationInput schema m = Inr () \<longleftrightarrow>
     (m_GeometryUnchanged m \<longrightarrow> m_Op m = MutationReplace \<and> m_IfRevision m \<noteq> [] \<and> m_GeometryWKB m = None \<and> \<not> m_GeometryAbsent m) \<and>
     (if m_Op m = MutationDelete then m_FeatureID m \<noteq> 0
      else
        (gd_Nullable (sd_Geometry schema) \<or> \<not> m_GeometryAbsent m \<and>
          (m_Op m \<in> {MutationInsert, MutationReplace} \<longrightarrow> m_GeometryWKB m \<noteq> None \<or> m_GeometryUnchanged m)) \<and>
        (m_Op m = MutationInsert \<longrightarrow> m_FeatureID m = 0) \<and>
        (m_Op m \<in> {MutationReplace, MutationUpdate} \<longrightarrow> m_FeatureID m \<noteq> 0) \<and>
        (\<forall>(name, mv) \<in> set (m_Properties m). input_fits schema name (mutationValueToTyped schema name mv)) \<and>
        (m_Op m \<in> {MutationInsert, MutationReplace} \<longrightarrow>
           complete_properties schema (typed_properties schema (m_Properties m))))) \<and>
   (m_Op m = MutationUpdate \<and> m_FeatureID m \<noteq> 0 \<and> \<not> m_GeometryUnchanged m \<and> \<not> m_GeometryAbsent m \<and>
    m_Properties m = [(name, mv)] \<and> \<not> mv_Null mv \<and> \<not> mv_Empty mv \<and>
    Property schema name = Some p \<and> \<not> pd_ReadOnly p \<and> pd_Type p \<in> {TypeInteger, TypeBoolean, TypeGeometry} \<longrightarrow>
      validateMutationInput schema m = Inr ())"
  (is "(?accepted \<longleftrightarrow> ?condition) \<and> (?mistyped \<longrightarrow> ?accepted)")
proof -
  have u: "(\<exists>u. x = Inr u) \<longleftrightarrow> x = Inr ()" for x :: "schema_error + unit" by auto
  have r: "ValidateRequired schema ps = Inr () \<longleftrightarrow> complete_properties schema ps" for ps
    by (simp add: ValidateRequired_def complete_properties_def validate_required_ok)
  have iff: "?accepted \<longleftrightarrow> ?condition"
    unfolding validateMutationInput_def Let_def
    by (cases "m_Op m") (auto simp: u r validate_properties_ok)
  moreover have "?accepted" if "?mistyped"
    unfolding iff using that value_kind_not_checked [of schema name p mv] by simp
  ultimately show ?thesis by blast
qed

text \<open>An update, an insert without its properties, and text supplied for the integer property.\<close>

lemma mutation_input_accepted_iff_witness:
  "validateMutationInput sample_schema (sample_delete\<lparr>m_Op := MutationUpdate\<rparr>) = Inr () \<and>
   validateMutationInput sample_schema (sample_delete\<lparr>m_Op := MutationInsert, m_FeatureID := 0\<rparr>) \<noteq> Inr () \<and>
   validateMutationInput sample_schema (sample_delete\<lparr>m_Op := MutationUpdate, m_Properties := [(''lanes'',
     \<lparr>mv_Null = False, mv_Empty = False, mv_Integer = 0, mv_Decimal = [], mv_String = ''two'', mv_Boolean = False,
      mv_Kind = MutationValueString\<rparr>)]\<rparr>) = Inr ()"
proof -
  let ?two = "\<lparr>mv_Null = False, mv_Empty = False, mv_Integer = 0, mv_Decimal = [], mv_String = ''two'', mv_Boolean = False,
      mv_Kind = MutationValueString\<rparr>"
  obtain p where p: "Property sample_schema ''lanes'' = Some p" "\<not> pd_ReadOnly p" "pd_Type p \<in> {TypeInteger, TypeBoolean, TypeGeometry}"
    by (auto simp: sample_schema_def Property_def)
  have "validateMutationInput sample_schema (sample_delete\<lparr>m_Op := MutationUpdate, m_Properties := [(''lanes'', ?two)]\<rparr>) = Inr ()"
    using mutation_input_accepted_iff [of sample_schema "sample_delete\<lparr>m_Op := MutationUpdate, m_Properties := [(''lanes'', ?two)]\<rparr>" "''lanes''" ?two p] p
    by (simp add: sample_delete_def) metis
  moreover have "validateMutationInput sample_schema (sample_delete\<lparr>m_Op := MutationUpdate\<rparr>) = Inr ()"
    "validateMutationInput sample_schema (sample_delete\<lparr>m_Op := MutationInsert, m_FeatureID := 0\<rparr>) \<noteq> Inr ()"
    using mutation_input_accepted_iff [of sample_schema "sample_delete\<lparr>m_Op := MutationUpdate\<rparr>"]
      mutation_input_accepted_iff [of sample_schema "sample_delete\<lparr>m_Op := MutationInsert, m_FeatureID := 0\<rparr>"]
    by (simp_all add: sample_delete_def sample_schema_def complete_properties_def typed_properties_def)
  ultimately show ?thesis by blast
qed

end
