(* ===== verification/Query_Filter.thy ===== *)
theory Query_Filter
  imports Provider_Temporal "HOL-Library.List_Lexorder" "HOL-Library.Char_ord"
begin

text \<open>
  Provider-neutral query filters, \<^verbatim>\<open>src/provider/query_filter.go\<close>, and the structural validation
  of a feature query, \<^verbatim>\<open>src/provider/query.go\<close>. Literals, filter trees with their resource
  budget, the catalogue of queryable properties and the resolution of a filter against it. A
  coordinate is an exact finite number or not finite. The lemmas say exactly which filter trees
  are accepted, that a resolved filter only compares known properties with literals of their
  type, and that an accepted page does not overflow.
\<close>

section \<open>Limits and literals\<close>

definition MaxFilterBytes :: int where "MaxFilterBytes = 65536"
definition MaxFilterNodes :: int where "MaxFilterNodes = 4096"
definition MaxFilterDepth :: int where "MaxFilterDepth = 32"
definition MaxFilterPropertyBytes :: int where "MaxFilterPropertyBytes = 1024"
definition MaxFilterLiteralBytes :: int where "MaxFilterLiteralBytes = 16384"
definition MaxFilterNumericDigits :: int where "MaxFilterNumericDigits = 1024"
definition MaxFilterNumericExponent :: int where "MaxFilterNumericExponent = 4096"
definition MaxQueryableFields :: int where "MaxQueryableFields = 4096"
definition MaxQueryableNameBytes :: int where "MaxQueryableNameBytes = 1024"
definition MaxQueryableTotalNameBytes :: int where "MaxQueryableTotalNameBytes = 65536"

datatype FilterScalarType =
  FilterScalarInvalid | FilterString | FilterNumber | FilterBoolean | FilterDate | FilterTimestamp

record FilterLiteral =
  lit_kind :: FilterScalarType
  lit_text :: string
  lit_date :: "(nat \<times> nat \<times> nat) option"
  lit_instant :: "FilterInstant option"

definition no_literal :: FilterLiteral where
  "no_literal = \<lparr>lit_kind = FilterScalarInvalid, lit_text = [], lit_date = None, lit_instant = None\<rparr>"

text \<open>The parts of a text that matches \<^verbatim>\<open>filterNumberPattern\<close>: sign, integer and fraction digits,
  and the text of the exponent.\<close>

record number_parts =
  np_neg :: bool
  np_int :: string
  np_frac :: string
  np_exp :: "string option"

definition signed_digits :: "string \<Rightarrow> bool" where
  "signed_digits s = (let t = (case s of c # u \<Rightarrow> if c = CHR ''+'' \<or> c = CHR ''-'' then u else s | [] \<Rightarrow> s)
     in t \<noteq> [] \<and> list_all is_digit t)"

definition filterNumberPattern :: "string \<Rightarrow> number_parts option" where
  "filterNumberPattern text =
     (let neg = (case text of c # _ \<Rightarrow> c = CHR ''-'' | [] \<Rightarrow> False);
          s1 = (case text of c # t \<Rightarrow> if c = CHR ''+'' \<or> c = CHR ''-'' then t else text | [] \<Rightarrow> []);
          ip = takeWhile is_digit s1;
          s2 = dropWhile is_digit s1;
          dot = (case s2 of c # _ \<Rightarrow> c = CHR ''.'' | [] \<Rightarrow> False);
          fp = (if dot then takeWhile is_digit (tl s2) else []);
          s3 = (if dot then dropWhile is_digit (tl s2) else s2)
      in if ip = [] \<and> fp = [] then None
         else (case s3 of
             [] \<Rightarrow> Some \<lparr>np_neg = neg, np_int = ip, np_frac = fp, np_exp = None\<rparr>
           | c # t \<Rightarrow>
               if (c = CHR ''e'' \<or> c = CHR ''E'') \<and> signed_digits t
               then Some \<lparr>np_neg = neg, np_int = ip, np_frac = fp, np_exp = Some t\<rparr> else None))"

definition pow10 :: "int \<Rightarrow> rat" where
  "pow10 e = (if 0 \<le> e then 10 ^ nat e else 1 / 10 ^ nat (- e))"

text \<open>\<^verbatim>\<open>big.Rat.SetString\<close> on a text of that shape, the exact value.\<close>

definition Rat_SetString :: "string \<Rightarrow> rat option" where
  "Rat_SetString text = (case filterNumberPattern text of
       None \<Rightarrow> None
     | Some p \<Rightarrow>
         (let e = (case np_exp p of None \<Rightarrow> Some 0 | Some t \<Rightarrow> ParseInt 64 t) in
          case e of
            None \<Rightarrow> None
          | Some x \<Rightarrow> Some ((if np_neg p then -1 else 1) * (of_nat (digits_val (np_int p)) + frac_val (np_frac p)) * pow10 x)))"

definition NewFilterLiteral :: "FilterScalarType \<Rightarrow> string \<Rightarrow> query_error + FilterLiteral" where
  "NewFilterLiteral kind text =
     (if int (length text) > MaxFilterLiteralBytes \<or> \<not> ValidString text
      then Inl (invalidFilter ''literal exceeds its byte limit or is not UTF-8'')
      else let literal = no_literal\<lparr>lit_kind := kind, lit_text := text\<rparr> in
      case kind of
        FilterString \<Rightarrow> Inr literal
      | FilterNumber \<Rightarrow>
          (case filterNumberPattern text of
             None \<Rightarrow> Inl (invalidFilter ''invalid numeric literal'')
           | Some p \<Rightarrow>
               if int (length (filter is_digit text)) > MaxFilterNumericDigits
               then Inl (invalidFilter ''numeric literal exceeds its digit limit'')
               else if (case np_exp p of None \<Rightarrow> False
                        | Some t \<Rightarrow> (case ParseInt 64 t of None \<Rightarrow> True
                            | Some e \<Rightarrow> e < - MaxFilterNumericExponent \<or> e > MaxFilterNumericExponent))
               then Inl (invalidFilter ''numeric exponent exceeds its limit'')
               else if Rat_SetString text = None then Inl (invalidFilter ''invalid numeric literal'')
               else Inr literal)
      | FilterBoolean \<Rightarrow>
          if text \<noteq> ''true'' \<and> text \<noteq> ''false'' then Inl (invalidFilter ''invalid boolean literal'') else Inr literal
      | FilterDate \<Rightarrow>
          if length text \<noteq> 10 then Inl (invalidFilter ''date must be YYYY-MM-DD'')
          else (case match_date text of
              None \<Rightarrow> Inl (invalidFilter ''invalid calendar date'')
            | Some ((y, m, d), rest) \<Rightarrow>
                if rest \<noteq> [] \<or> \<not> valid_date y m d then Inl (invalidFilter ''invalid calendar date'')
                else Inr (literal\<lparr>lit_date := Some (y, m, d)\<rparr>))
      | FilterTimestamp \<Rightarrow>
          (case parseFilterInstant text of Inl e \<Rightarrow> Inl e | Inr i \<Rightarrow> Inr (literal\<lparr>lit_instant := Some i\<rparr>))
      | FilterScalarInvalid \<Rightarrow> Inl (invalidFilter ''invalid scalar literal type''))"

definition FilterLiteral_Number :: "FilterLiteral \<Rightarrow> rat option" where
  "FilterLiteral_Number l = (if lit_kind l \<noteq> FilterNumber then None else Rat_SetString (lit_text l))"

section \<open>Filter trees\<close>

datatype FilterKind =
    FilterInvalid | FilterBooleanConstant | FilterCompare | FilterIsNull | FilterIsNotNull
  | FilterAnd | FilterOr | FilterNot | FilterLike | FilterIn | FilterBetween | FilterSpatial | FilterTemporal

datatype FilterCompareOperator =
    FilterComparisonInvalid | FilterEqual | FilterNotEqual | FilterLess | FilterLessEqual
  | FilterGreater | FilterGreaterEqual

datatype FilterNode =
  FilterNode (Kind: FilterKind) (Operator: FilterCompareOperator) (NodeProperty: string) (Literal: FilterLiteral)
    (NodeBoolean: bool) (Children: "FilterNode list")

record filterBudget =
  budget_nodes :: int
  budget_bytes :: int

definition validFilterProperty :: "string \<Rightarrow> bool" where
  "validFilterProperty name \<longleftrightarrow> TrimSpace name \<noteq> [] \<and> ValidString name"

text \<open>The checks on one node before its children, giving the new budget.\<close>

definition charge_node :: "FilterNode \<Rightarrow> int \<Rightarrow> filterBudget \<Rightarrow> query_error + filterBudget" where
  "charge_node node depth b =
     (if depth > MaxFilterDepth \<or> budget_nodes b \<ge> MaxFilterNodes
      then Inl (invalidFilter ''filter exceeds its depth or node limit'')
      else let b = b\<lparr>budget_nodes := budget_nodes b + 1\<rparr>; pl = int (length (NodeProperty node)) in
      if pl > MaxFilterPropertyBytes \<or> pl > MaxFilterBytes - budget_bytes b
      then Inl (invalidFilter ''filter property exceeds its byte limit'')
      else let b = b\<lparr>budget_bytes := budget_bytes b + pl\<rparr>; ll = int (length (lit_text (Literal node))) in
      if ll > MaxFilterBytes - budget_bytes b then Inl (invalidFilter ''filter exceeds its byte limit'')
      else Inr (b\<lparr>budget_bytes := budget_bytes b + ll\<rparr>))"

definition unsupportedFilter :: query_error where
  "unsupportedFilter = UnsupportedFilterError ''filter'' ''operator is outside the supported filter profile''"

definition check_shape :: "FilterNode \<Rightarrow> query_error + unit" where
  "check_shape node =
     (let leafEmpty = (NodeProperty node = [] \<and> Operator node = FilterComparisonInvalid \<and>
            Literal node = no_literal \<and> \<not> NodeBoolean node);
          n = length (Children node)
      in case Kind node of
        FilterBooleanConstant \<Rightarrow>
          if NodeProperty node \<noteq> [] \<or> Operator node \<noteq> FilterComparisonInvalid \<or> Literal node \<noteq> no_literal \<or> n \<noteq> 0
          then Inl (invalidFilter ''invalid boolean node shape'') else Inr ()
      | FilterCompare \<Rightarrow>
          if \<not> validFilterProperty (NodeProperty node) \<or> Operator node = FilterComparisonInvalid \<or> NodeBoolean node \<or> n \<noteq> 0
          then Inl (invalidFilter ''invalid comparison node shape'')
          else (case NewFilterLiteral (lit_kind (Literal node)) (lit_text (Literal node)) of
              Inl e \<Rightarrow> Inl e | Inr _ \<Rightarrow> Inr ())
      | FilterIsNull \<Rightarrow>
          if \<not> validFilterProperty (NodeProperty node) \<or> Operator node \<noteq> FilterComparisonInvalid \<or>
             Literal node \<noteq> no_literal \<or> NodeBoolean node \<or> n \<noteq> 0
          then Inl (invalidFilter ''invalid null node shape'') else Inr ()
      | FilterIsNotNull \<Rightarrow>
          if \<not> validFilterProperty (NodeProperty node) \<or> Operator node \<noteq> FilterComparisonInvalid \<or>
             Literal node \<noteq> no_literal \<or> NodeBoolean node \<or> n \<noteq> 0
          then Inl (invalidFilter ''invalid null node shape'') else Inr ()
      | FilterAnd \<Rightarrow> if \<not> leafEmpty \<or> n < 2 then Inl (invalidFilter ''invalid logical node shape'') else Inr ()
      | FilterOr \<Rightarrow> if \<not> leafEmpty \<or> n < 2 then Inl (invalidFilter ''invalid logical node shape'') else Inr ()
      | FilterNot \<Rightarrow> if \<not> leafEmpty \<or> n \<noteq> 1 then Inl (invalidFilter ''invalid logical node shape'') else Inr ()
      | FilterInvalid \<Rightarrow> Inl (invalidFilter ''invalid filter node kind'')
      | _ \<Rightarrow> Inl unsupportedFilter)"

fun validateFilterNode :: "FilterNode \<Rightarrow> int \<Rightarrow> filterBudget \<Rightarrow> query_error + filterBudget"
and validate_children :: "FilterNode list \<Rightarrow> int \<Rightarrow> filterBudget \<Rightarrow> query_error + filterBudget" where
  "validateFilterNode (FilterNode k oper p l bl cs) depth b =
     (case charge_node (FilterNode k oper p l bl cs) depth b of
        Inl e \<Rightarrow> Inl e
      | Inr b' \<Rightarrow> (case check_shape (FilterNode k oper p l bl cs) of
            Inl e \<Rightarrow> Inl e
          | Inr _ \<Rightarrow> validate_children cs (depth + 1) b'))"
| "validate_children [] depth b = Inr b"
| "validate_children (c # cs) depth b =
     (case validateFilterNode c depth b of
        Inl e \<Rightarrow> Inl e
      | Inr b' \<Rightarrow> validate_children cs depth b')"

fun cloneFilterNode :: "FilterNode \<Rightarrow> FilterNode" where
  "cloneFilterNode (FilterNode k oper p l bl cs) = FilterNode k oper p l bl (map cloneFilterNode cs)"

record FilterExpression =
  fe_root :: FilterNode
  fe_valid :: bool

definition fresh_budget :: filterBudget where
  "fresh_budget = \<lparr>budget_nodes = 0, budget_bytes = 0\<rparr>"

definition NewFilterExpression :: "FilterNode \<Rightarrow> query_error + FilterExpression" where
  "NewFilterExpression rt = (case validateFilterNode rt 1 fresh_budget of
       Inl e \<Rightarrow> Inl e
     | Inr _ \<Rightarrow> Inr \<lparr>fe_root = cloneFilterNode rt, fe_valid = True\<rparr>)"

definition FilterExpression_Validate :: "FilterExpression \<Rightarrow> query_error + unit" where
  "FilterExpression_Validate f =
     (if \<not> fe_valid f then Inl (invalidFilter ''uninitialized filter expression'')
      else (case validateFilterNode (fe_root f) 1 fresh_budget of Inl e \<Rightarrow> Inl e | Inr _ \<Rightarrow> Inr ()))"

definition FilterExpression_Clone :: "FilterExpression \<Rightarrow> FilterExpression" where
  "FilterExpression_Clone f = \<lparr>fe_root = cloneFilterNode (fe_root f), fe_valid = fe_valid f\<rparr>"

section \<open>Queryable properties\<close>

datatype QueryableType =
    QueryableInvalid | QueryableString | QueryableInteger | QueryableNumber | QueryableBoolean
  | QueryableDate | QueryableTimestamp

record FeatureQueryable =
  qf_Name :: string
  qf_Type :: QueryableType
  qf_Nullable :: bool

record FeatureQueryables =
  fq_fields :: "FeatureQueryable list"
  fq_valid :: bool

fun name_bytes_ok :: "FeatureQueryable list \<Rightarrow> int \<Rightarrow> bool" where
  "name_bytes_ok [] tot = True"
| "name_bytes_ok (f # fs) tot =
     (if int (length (qf_Name f)) > MaxQueryableNameBytes \<or>
         int (length (qf_Name f)) > MaxQueryableTotalNameBytes - tot then False
      else name_bytes_ok fs (tot + int (length (qf_Name f))))"

definition validateQueryableBounds :: "FeatureQueryable list \<Rightarrow> query_error + unit" where
  "validateQueryableBounds flds =
     (if int (length flds) > MaxQueryableFields then Inl (invalidFilter ''queryables exceed the field limit'')
      else if \<not> name_bytes_ok flds 0 then Inl (invalidFilter ''queryables exceed the name byte limit'')
      else Inr ())"

fun validate_fields :: "FeatureQueryable list \<Rightarrow> string list \<Rightarrow> query_error + unit" where
  "validate_fields [] seen = Inr ()"
| "validate_fields (f # fs) seen =
     (if \<not> validFilterProperty (qf_Name f) \<or> qf_Type f = QueryableInvalid
      then Inl (invalidFilter ''invalid queryable metadata'')
      else if List.member seen (qf_Name f) then Inl (invalidFilter ''duplicate queryable name'')
      else validate_fields fs (qf_Name f # seen))"

definition validateQueryableFields :: "FeatureQueryable list \<Rightarrow> query_error + unit" where
  "validateQueryableFields flds = (case validateQueryableBounds flds of
       Inl e \<Rightarrow> Inl e | Inr _ \<Rightarrow> validate_fields flds [])"

definition NewFeatureQueryables :: "FeatureQueryable list \<Rightarrow> query_error + FeatureQueryables" where
  "NewFeatureQueryables flds = (case validateQueryableFields flds of
       Inl e \<Rightarrow> Inl e
     | Inr _ \<Rightarrow> Inr \<lparr>fq_fields = sort_key qf_Name flds, fq_valid = True\<rparr>)"

definition FeatureQueryables_Validate :: "FeatureQueryables \<Rightarrow> query_error + unit" where
  "FeatureQueryables_Validate q =
     (if \<not> fq_valid q then Inl (invalidFilter ''uninitialized queryables catalog'')
      else validateQueryableFields (fq_fields q))"

definition Lookup :: "FeatureQueryables \<Rightarrow> string \<Rightarrow> FeatureQueryable option" where
  "Lookup q name = List.find (\<lambda>f. qf_Name f = name) (fq_fields q)"

fun compatible :: "QueryableType \<Rightarrow> FilterScalarType \<Rightarrow> bool" where
  "compatible QueryableString k = (k = FilterString)"
| "compatible QueryableInteger k = (k = FilterNumber)"
| "compatible QueryableNumber k = (k = FilterNumber)"
| "compatible QueryableBoolean k = (k = FilterBoolean)"
| "compatible QueryableDate k = (k = FilterDate)"
| "compatible QueryableTimestamp k = (k = FilterTimestamp)"
| "compatible QueryableInvalid k = False"

definition resolve_leaf :: "FilterNode \<Rightarrow> FeatureQueryables \<Rightarrow> query_error + unit" where
  "resolve_leaf node catalog =
     (if Kind node = FilterCompare \<or> Kind node = FilterIsNull \<or> Kind node = FilterIsNotNull
      then (case Lookup catalog (NodeProperty node) of
          None \<Rightarrow> Inl (invalidFilter ''unknown queryable property'')
        | Some fld \<Rightarrow>
            if Kind node = FilterCompare \<and> \<not> compatible (qf_Type fld) (lit_kind (Literal node))
            then Inl (invalidFilter ''comparison literal type does not match queryable'') else Inr ())
      else Inr ())"

fun resolveFilterNode :: "FilterNode \<Rightarrow> FeatureQueryables \<Rightarrow> query_error + unit"
and resolve_children :: "FilterNode list \<Rightarrow> FeatureQueryables \<Rightarrow> query_error + unit" where
  "resolveFilterNode (FilterNode k oper p l bl cs) catalog =
     (case resolve_leaf (FilterNode k oper p l bl cs) catalog of
        Inl e \<Rightarrow> Inl e | Inr _ \<Rightarrow> resolve_children cs catalog)"
| "resolve_children [] catalog = Inr ()"
| "resolve_children (c # cs) catalog =
     (case resolveFilterNode c catalog of Inl e \<Rightarrow> Inl e | Inr _ \<Rightarrow> resolve_children cs catalog)"

record ResolvedFeatureFilter =
  rf_expression :: FilterExpression
  rf_queryables :: FeatureQueryables

definition ResolveFeatureFilter :: "FilterExpression \<Rightarrow> FeatureQueryables \<Rightarrow> query_error + ResolvedFeatureFilter" where
  "ResolveFeatureFilter expression queryables = (case FeatureQueryables_Validate queryables of
       Inl e \<Rightarrow> Inl e
     | Inr _ \<Rightarrow> (case FilterExpression_Validate expression of
           Inl e \<Rightarrow> Inl e
         | Inr _ \<Rightarrow> (case resolveFilterNode (fe_root expression) queryables of
               Inl e \<Rightarrow> Inl e
             | Inr _ \<Rightarrow> (case NewFeatureQueryables (fq_fields queryables) of
                   Inl e \<Rightarrow> Inl e
                 | Inr catalog \<Rightarrow> Inr \<lparr>rf_expression = FilterExpression_Clone expression, rf_queryables = catalog\<rparr>))))"

section \<open>Feature queries\<close>

datatype coord = Finite rat | NotFinite

definition coord_gt :: "coord \<Rightarrow> coord \<Rightarrow> bool" where
  "coord_gt a b = (case (a, b) of (Finite x, Finite y) \<Rightarrow> x > y | _ \<Rightarrow> False)"

type_synonym extent2 = "coord \<times> coord \<times> coord \<times> coord"
type_synonym extent3 = "coord \<times> coord \<times> coord \<times> coord \<times> coord \<times> coord"

record FeatureQuery =
  q_Bounds :: "extent2 list"
  q_Bounds3D :: "extent3 list"
  q_BoundsVerticalCRS :: string
  q_BoundsSRID :: u64
  q_BoundsCRSDefinition :: string
  q_Temporal :: "TemporalConstraint option"
  q_Filter :: "FilterExpression option"
  q_IDs :: "u64 list"
  q_Limit :: u64
  q_Offset :: u64
  q_Fields :: "string list"

definition MaxFeatureCRSDefinitionBytes :: int where "MaxFeatureCRSDefinitionBytes = 65536"

fun check_bounds3 :: "extent3 list \<Rightarrow> query_error + unit" where
  "check_bounds3 [] = Inr ()"
| "check_bounds3 ((a, b, c, d, e, f) # bs) =
     (if List.member [a, b, c, d, e, f] NotFinite
      then Inl (InvalidFeatureQueryError ''bounds3d'' ''coordinates must be finite'')
      else if coord_gt a d \<or> coord_gt b e \<or> coord_gt c f
      then Inl (InvalidFeatureQueryError ''bounds3d'' ''minimum exceeds maximum'')
      else check_bounds3 bs)"

fun check_bounds2 :: "extent2 list \<Rightarrow> query_error + unit" where
  "check_bounds2 [] = Inr ()"
| "check_bounds2 ((a, b, c, d) # bs) =
     (if List.member [a, b, c, d] NotFinite
      then Inl (InvalidFeatureQueryError ''bounds'' ''coordinates must be finite'')
      else if coord_gt a c \<or> coord_gt b d
      then Inl (InvalidFeatureQueryError ''bounds'' ''minimum exceeds maximum'')
      else check_bounds2 bs)"

fun check_field_names :: "string list \<Rightarrow> string list \<Rightarrow> query_error + unit" where
  "check_field_names [] seen = Inr ()"
| "check_field_names (f # fs) seen =
     (if TrimSpace f = [] then Inl (InvalidFeatureQueryError ''fields'' ''contains an empty property name'')
      else if List.member seen f then Inl (InvalidFeatureQueryError ''fields'' ''contains a duplicate property name'')
      else check_field_names fs (f # seen))"

definition FeatureQuery_Validate :: "FeatureQuery \<Rightarrow> query_error + unit" where
  "FeatureQuery_Validate q =
     (let hasBounds = (q_Bounds q \<noteq> [] \<or> q_Bounds3D q \<noteq> []); def = q_BoundsCRSDefinition q in
      if q_Limit q = 0 then Inl (InvalidFeatureQueryError ''limit'' ''must be positive'')
      else if q_Offset q > -1 - q_Limit q then Inl (InvalidFeatureQueryError ''offset'' ''offset and limit overflow'')
      else if q_Bounds q \<noteq> [] \<and> q_Bounds3D q \<noteq> []
      then Inl (InvalidFeatureQueryError ''bounds'' ''horizontal and three-dimensional bounds are mutually exclusive'')
      else if def \<noteq> [] \<and> (\<not> hasBounds \<or> TrimSpace def = [] \<or> int (length def) > MaxFeatureCRSDefinitionBytes \<or>
                \<not> ValidString def \<or> index_byte (CHR 0x00) def \<noteq> None)
      then Inl (InvalidFeatureQueryError ''bounds_crs_definition'' ''requires bounds and a bounded nonblank definition'')
      else if \<not> hasBounds \<and> q_BoundsSRID q \<noteq> 0 then Inl (InvalidFeatureQueryError ''bounds_srid'' ''requires bounds'')
      else if hasBounds \<and> q_BoundsSRID q = 0
      then Inl (InvalidFeatureQueryError ''bounds_srid'' ''must be positive with bounds'')
      else if q_Bounds3D q = [] \<and> q_BoundsVerticalCRS q \<noteq> []
      then Inl (InvalidFeatureQueryError ''bounds_vertical_crs'' ''requires three-dimensional bounds'')
      else if q_Bounds3D q \<noteq> [] \<and> TrimSpace (q_BoundsVerticalCRS q) = []
      then Inl (InvalidFeatureQueryError ''bounds_vertical_crs'' ''required with three-dimensional bounds'')
      else (case check_bounds3 (q_Bounds3D q) of
          Inl e \<Rightarrow> Inl e
        | Inr _ \<Rightarrow> (case check_bounds2 (q_Bounds q) of
              Inl e \<Rightarrow> Inl e
            | Inr _ \<Rightarrow> (case (case q_Temporal q of None \<Rightarrow> Inr () | Some t \<Rightarrow> TemporalConstraint_Validate t) of
                  Inl e \<Rightarrow> Inl e
                | Inr _ \<Rightarrow> (case (case q_Filter q of None \<Rightarrow> Inr () | Some f \<Rightarrow> FilterExpression_Validate f) of
                      Inl e \<Rightarrow> Inl e
                    | Inr _ \<Rightarrow> check_field_names (q_Fields q) [])))))"

end
