(* ===== verification/Cql2.thy ===== *)
theory Cql2
  imports Query_Filter
begin

text \<open>
  The CQL2 text parser, \<^verbatim>\<open>src/ogc/cql2/lexer.go\<close>, \<^verbatim>\<open>parser.go\<close> and \<^verbatim>\<open>property_name.go\<close>. The
  lexer works on the suffix of the input that is left, with its byte offset. The parser works on
  the tokens that are left and the number of nodes made so far; its mutually recursive functions
  take fuel, \<open>None\<close> meaning that it ran out, and \<open>Parse\<close> supplies three units per token and
  three more, which is enough.
\<close>

section \<open>Characters\<close>

definition maxInputBytes :: nat where "maxInputBytes = 65536"
definition maxTokens :: nat where "maxTokens = 8192"
definition maxPropertyBytes :: nat where "maxPropertyBytes = 1024"
definition maxLiteralBytes :: nat where "maxLiteralBytes = 16384"

datatype tokenKind =
    tokenEnd | tokenName | tokenQuotedName | tokenString | tokenNumber | tokenOperator
  | tokenOpen | tokenClose | tokenUnsupported

record token =
  t_kind :: tokenKind
  t_text :: string
  t_offset :: nat

definition cql_reason :: "nat \<Rightarrow> string \<Rightarrow> string" where
  "cql_reason offset r = ''cql2 '' @ r @ '' at byte '' @ FormatUint offset"

definition invalid :: "nat \<Rightarrow> string \<Rightarrow> query_error" where
  "invalid offset r = InvalidFeatureQueryError ''filter'' (cql_reason offset r)"

definition unsupported :: "nat \<Rightarrow> query_error" where
  "unsupported offset = UnsupportedFilterError ''filter'' (cql_reason offset ''unsupported expression profile'')"

definition nameStart :: "nat \<Rightarrow> bool" where
  "nameStart r \<longleftrightarrow> r = 0x3A \<or> r = 0x5F \<or> 0x41 \<le> r \<and> r \<le> 0x5A \<or> 0x61 \<le> r \<and> r \<le> 0x7A \<or>
     0xC0 \<le> r \<and> r \<le> 0xD6 \<or> 0xD8 \<le> r \<and> r \<le> 0xF6 \<or> 0xF8 \<le> r \<and> r \<le> 0x2FF \<or>
     0x370 \<le> r \<and> r \<le> 0x37D \<or> 0x37F \<le> r \<and> r \<le> 0x1FFE \<or> 0x200C \<le> r \<and> r \<le> 0x200D \<or>
     0x2070 \<le> r \<and> r \<le> 0x218F \<or> 0x2C00 \<le> r \<and> r \<le> 0x2FEF \<or> 0x3001 \<le> r \<and> r \<le> 0xD7FF \<or>
     0xF900 \<le> r \<and> r \<le> 0xFDCF \<or> 0xFDF0 \<le> r \<and> r \<le> 0xFFFD \<or> 0x10000 \<le> r \<and> r \<le> 0xEFFFF"

definition namePart :: "nat \<Rightarrow> bool" where
  "namePart r \<longleftrightarrow> nameStart r \<or> r = 0x2E \<or> 0x30 \<le> r \<and> r \<le> 0x39 \<or> 0x300 \<le> r \<and> r \<le> 0x36F \<or> 0x203F \<le> r \<and> r \<le> 0x2040"

definition cql_space :: "nat \<Rightarrow> bool" where
  "cql_space r \<longleftrightarrow> List.member [32, 9, 10, 13, 11, 12, 0x85, 0xA0, 0x1680, 0x2028, 0x2029, 0x202F, 0x205F, 0x3000] r \<or>
     0x2000 \<le> r \<and> r \<le> 0x200A"

section \<open>Scanners\<close>

text \<open>The runes of a name that follow its first.\<close>

function scan_name :: "string \<Rightarrow> string \<times> string" where
  "scan_name s =
     (if s = [] then ([], [])
      else if \<not> namePart (fst (DecodeRune s)) then ([], s)
      else let w = snd (DecodeRune s); r = scan_name (drop w s) in (take w s @ fst r, snd r))"
  by pat_completeness auto
termination
  by (relation "measure length") (auto simp: drop_DecodeRune_less)

declare scan_name.simps [simp del]

text \<open>A quoted name after its opening quote, up to and without the closing one; \<open>len\<close> is the
  number of bytes taken so far.\<close>

function scan_quoted :: "nat \<Rightarrow> nat \<Rightarrow> nat \<Rightarrow> string \<Rightarrow> query_error + string \<times> string" where
  "scan_quoted start i len s =
     (if s = [] \<or> hd s = CHR 0x22 then
        (if s = [] \<or> len = 0 then Inl (invalid start ''unterminated or empty quoted property'') else Inr ([], s))
      else let r = fst (DecodeRune s); w = snd (DecodeRune s) in
        if (if len = 0 then \<not> nameStart r else \<not> namePart r) then Inl (invalid i ''invalid quoted property'')
        else if len + w > maxPropertyBytes then Inl (invalid start ''property exceeds limit'')
        else (case scan_quoted start (i + w) (len + w) (drop w s) of
            Inl e \<Rightarrow> Inl e
          | Inr (t, rest) \<Rightarrow> Inr (take w s @ t, rest)))"
  by pat_completeness auto
termination
  by (relation "measure (\<lambda>(start, i, len, s). length s)") (auto simp: drop_DecodeRune_less)

declare scan_quoted.simps [simp del]

definition escape_value :: "char \<Rightarrow> char option" where
  "escape_value c =
     (if c = CHR 0x27 \<or> c = CHR 0x5C then Some c
      else if c = CHR ''a'' then Some (CHR 0x07)
      else if c = CHR ''b'' then Some (CHR 0x08)
      else if c = CHR ''t'' then Some (CHR 0x09)
      else if c = CHR ''n'' then Some (CHR 0x0A)
      else if c = CHR ''v'' then Some (CHR 0x0B)
      else if c = CHR ''f'' then Some (CHR 0x0C)
      else if c = CHR ''r'' then Some (CHR 0x0D)
      else None)"

definition bad_string_rune :: "nat \<Rightarrow> bool" where
  "bad_string_rune r \<longleftrightarrow> r = 0 \<or> r < 7 \<or> r > 13 \<and> r < 32 \<or> r = 0xFFFE \<or> r = 0xFFFF"

text \<open>The loop of \<^verbatim>\<open>quotedString\<close>: \<open>i\<close> is the offset of \<open>s\<close>, \<open>acc\<close> the value so far.\<close>

function quoted_loop :: "nat \<Rightarrow> nat \<Rightarrow> string \<Rightarrow> string \<Rightarrow> query_error + string \<times> string" where
  "quoted_loop start i s acc =
     (if s = [] then Inl (invalid start ''unterminated string'')
      else let r = fst (DecodeRune s); w = snd (DecodeRune s); t = drop w s in
        if r = 0x27 then
          (if t \<noteq> [] \<and> hd t = CHR 0x27 then
             (if length acc + 1 > maxLiteralBytes then Inl (invalid start ''literal exceeds limit'')
              else quoted_loop start (i + w + 1) (tl t) (acc @ [CHR 0x27]))
           else Inr (acc, t))
        else if r = 0x5C then
          (if t = [] then Inl (invalid start ''unterminated string escape'')
           else (case escape_value (hd t) of
               None \<Rightarrow> Inl (invalid (i + w) ''invalid string escape'')
             | Some c \<Rightarrow>
                 if length acc + 1 > maxLiteralBytes then Inl (invalid start ''literal exceeds limit'')
                 else quoted_loop start (i + w + 1) (tl t) (acc @ [c])))
        else if bad_string_rune r then Inl (invalid i ''invalid string character'')
        else if length (acc @ EncodeRune r) > maxLiteralBytes then Inl (invalid start ''literal exceeds limit'')
        else quoted_loop start (i + w) t (acc @ EncodeRune r))"
  by pat_completeness auto
termination
proof (relation "measure (\<lambda>(start, i, s, acc). length s)", goal_cases)
  case (2 start i s acc x xa xb)
  then show ?case using drop_DecodeRune_less [of s] by (cases s) auto
next
  case (3 start i s acc x xa xb x2)
  then show ?case using drop_DecodeRune_less [of s] by (cases s) auto
qed (auto simp: drop_DecodeRune_less)

declare quoted_loop.simps [simp del]

definition quotedString :: "nat \<Rightarrow> string \<Rightarrow> query_error + string \<times> string" where
  "quotedString start s = quoted_loop start (start + 1) (tl s) []"

text \<open>What \<^verbatim>\<open>numberEnd\<close> takes from the start of \<open>s\<close>, and what it leaves.\<close>

definition opt_sign :: "string \<Rightarrow> string \<times> string" where
  "opt_sign s = (case s of c # t \<Rightarrow> if c = CHR ''+'' \<or> c = CHR ''-'' then ([c], t) else ([], s) | [] \<Rightarrow> ([], []))"

definition digit_part :: "string \<Rightarrow> string \<times> string" where
  "digit_part s = (takeWhile is_digit s, dropWhile is_digit s)"

definition dot_part :: "string \<Rightarrow> string \<times> string" where
  "dot_part s = (case s of
       c # t \<Rightarrow> if c = CHR ''.'' then (c # fst (digit_part t), snd (digit_part t)) else ([], s)
     | [] \<Rightarrow> ([], []))"

definition exp_part :: "string \<Rightarrow> string \<times> string" where
  "exp_part s = (case s of
       c # t \<Rightarrow>
         if c = CHR ''e'' \<or> c = CHR ''E''
         then (c # fst (opt_sign t) @ fst (digit_part (snd (opt_sign t))), snd (digit_part (snd (opt_sign t))))
         else ([], s)
     | [] \<Rightarrow> ([], []))"

definition numberEnd :: "string \<Rightarrow> string \<times> string" where
  "numberEnd s =
     (let (a, s1) = opt_sign s; (b, s2) = digit_part s1; (c, s3) = dot_part s2; (d, s4) = exp_part s3
      in (a @ b @ c @ d, s4))"

section \<open>Tokens\<close>

text \<open>One token at offset \<open>i\<close> of the rest \<open>s\<close>, whose first rune is not a space.\<close>

definition lex_token :: "nat \<Rightarrow> string \<Rightarrow> query_error + token \<times> string" where
  "lex_token i s =
     (let r = fst (DecodeRune s); w = snd (DecodeRune s); t = drop w s;
          tok = (\<lambda>k x. \<lparr>t_kind = k, t_text = x, t_offset = i\<rparr>)
      in if r = 0x27 then
           (case quotedString i s of Inl e \<Rightarrow> Inl e | Inr (v, rest) \<Rightarrow> Inr (tok tokenString v, rest))
         else if r = 0x22 then
           (case scan_quoted i (i + 1) 0 (tl s) of Inl e \<Rightarrow> Inl e | Inr (v, rest) \<Rightarrow> Inr (tok tokenQuotedName v, tl rest))
         else if nameStart r then
           (let n = scan_name t in
            if length (take w s @ fst n) > maxPropertyBytes then Inl (invalid i ''property exceeds limit'')
            else Inr (tok tokenName (take w s @ fst n), snd n))
         else if 0x30 \<le> r \<and> r \<le> 0x39 \<or> r = 0x2E \<or> r = 0x2B \<or> r = 0x2D then
           (if r = 0x2D \<and> tl s \<noteq> [] \<and> hd (tl s) = CHR ''-'' then Inl (invalid i ''comments are not expressions'')
            else let n = numberEnd s in
              if length (fst n) > maxLiteralBytes then Inl (invalid i ''literal exceeds limit'')
              else Inr (tok tokenNumber (fst n), snd n))
         else if r = 0x3D \<or> r = 0x3C \<or> r = 0x3E then
           (if tl s \<noteq> [] \<and> (hd (tl s) = CHR ''='' \<or> r = 0x3C \<and> hd (tl s) = CHR ''>'')
            then Inr (tok tokenOperator (take 2 s), drop 2 s)
            else Inr (tok tokenOperator (take 1 s), drop 1 s))
         else if r = 0x28 then Inr (tok tokenOpen [], tl s)
         else if r = 0x29 then Inr (tok tokenClose [], tl s)
         else if r = 0x2A \<or> r = 0x2F \<or> r = 0x25 \<or> r = 0x5E \<or> r = 0x2C then
           (if r = 0x2F \<and> tl s \<noteq> [] \<and> hd (tl s) = CHR ''*'' then Inl (invalid i ''comments are not expressions'')
            else Inr (tok tokenUnsupported [], t))
         else Inl (invalid i ''unexpected character''))"

lemma scan_name_split: "s = fst (scan_name s) @ snd (scan_name s)"
proof (induction s rule: scan_name.induct)
  case (1 s)
  show ?case
  proof (cases "s = [] \<or> \<not> namePart (fst (DecodeRune s))")
    case False
    then have "drop (snd (DecodeRune s)) s = fst (scan_name (drop (snd (DecodeRune s)) s)) @ snd (scan_name (drop (snd (DecodeRune s)) s))"
      using "1.IH" by simp
    then show ?thesis using False by (subst (1 2) scan_name.simps) (simp add: Let_def)
  qed (subst (1 2) scan_name.simps, auto)
qed

lemma scan_quoted_split:
  "scan_quoted start i len s = Inr (t, rest) \<Longrightarrow> s = t @ rest \<and> rest \<noteq> [] \<and> hd rest = CHR 0x22"
proof (induction start i len s arbitrary: t rest rule: scan_quoted.induct)
  case (1 start i len s)
  show ?case
  proof (cases "s = [] \<or> hd s = CHR 0x22")
    case True
    with "1.prems" show ?thesis by (subst (asm) scan_quoted.simps) (auto split: if_splits)
  next
    case False
    let ?w = "snd (DecodeRune s)"
    from "1.prems" False obtain t' where
      r: "scan_quoted start (i + ?w) (len + ?w) (drop ?w s) = Inr (t', rest)" "t = take ?w s @ t'"
      and g: "\<not> (if len = 0 then \<not> nameStart (fst (DecodeRune s)) else \<not> namePart (fst (DecodeRune s)))" "\<not> len + ?w > maxPropertyBytes"
      by (subst (asm) scan_quoted.simps) (auto simp: Let_def split: if_splits)
    have "drop ?w s = t' @ rest \<and> rest \<noteq> [] \<and> hd rest = CHR 0x22"
      using "1.IH" [OF False refl refl _ _ r(1)] g by simp
    with r(2) show ?thesis by (metis append_assoc append_take_drop_id)
  qed
qed

lemma quoted_loop_step:
  assumes "quoted_loop start i s acc = Inr (v, rest)"
  shows "length rest < length s \<or> (\<exists>i' s' acc'. quoted_loop start i' s' acc' = Inr (v, rest) \<and> length s' < length s)"
proof -
  from assms have s: "s \<noteq> []" by (subst (asm) quoted_loop.simps) (auto split: if_splits)
  define t where "t = drop (snd (DecodeRune s)) s"
  have t: "length t < length s" using drop_DecodeRune_less [OF s] by (simp add: t_def)
  then have "length (tl t) < length s" by simp
  with t assms s show ?thesis
    by (subst (asm) quoted_loop.simps) (auto simp: Let_def simp flip: t_def simp del: length_tl split: if_splits option.splits)
qed

lemma quoted_loop_shorter: "quoted_loop start i s acc = Inr (v, rest) \<Longrightarrow> length rest < length s"
proof (induction "length s" arbitrary: i s acc rule: less_induct)
  case less
  from quoted_loop_step [OF less.prems] less.hyps show ?case by (meson less_trans)
qed

lemma number_parts_split [simp]:
  "fst (opt_sign s) @ snd (opt_sign s) = s" "fst (digit_part s) @ snd (digit_part s) = s"
  "fst (dot_part s) @ snd (dot_part s) = s"
  by (auto simp: opt_sign_def digit_part_def dot_part_def split: list.splits)

lemma exp_part_split [simp]: "fst (exp_part s) @ snd (exp_part s) = s"
  using number_parts_split(1,2) by (auto simp: exp_part_def split: list.splits)

lemma numberEnd_split: "fst (numberEnd s) @ snd (numberEnd s) = s"
  by (simp add: numberEnd_def split_beta)

lemma numberEnd_nonempty:
  "s \<noteq> [] \<Longrightarrow> is_digit (hd s) \<or> hd s \<in> {CHR ''.'', CHR ''+'', CHR ''-''} \<Longrightarrow> length (snd (numberEnd s)) < length s"
proof -
  assume s: "s \<noteq> []" "is_digit (hd s) \<or> hd s \<in> {CHR ''.'', CHR ''+'', CHR ''-''}"
  have "fst (numberEnd s) \<noteq> []"
    using s by (cases s) (auto simp: numberEnd_def opt_sign_def digit_part_def dot_part_def split_beta split: list.splits)
  then show ?thesis by (metis numberEnd_split length_append length_greater_0_conv less_add_same_cancel2)
qed

lemma lex_token_shorter:
  assumes s: "s \<noteq> []" and tok: "lex_token i s = Inr (tok, rest)"
  shows "length rest < length s"
proof -
  define r where "r = fst (DecodeRune s)"
  define t where "t = drop (snd (DecodeRune s)) s"
  have t: "length t < length s" using drop_DecodeRune_less [OF s] by (simp add: t_def)
  have tl: "length (tl s) < length s" using s by (cases s) auto
  have q: "length x < length s" if "quotedString i s = Inr (v, x)" for v x
    using quoted_loop_shorter [of i "i + 1" "tl s" "[]"] that tl by (auto simp: quotedString_def)
  have sq: "length (tl x) < length s" if "scan_quoted i (i + 1) 0 (tl s) = Inr (v, x)" for v x
    using scan_quoted_split [OF that] tl by (cases x) auto
  have n: "length (snd (scan_name t)) < length s"
    using arg_cong [OF scan_name_split [of t], of length] t by simp
  have d: "length (snd (numberEnd s)) < length s" if "0x30 \<le> r \<and> r \<le> 0x39 \<or> r = 0x2E \<or> r = 0x2B \<or> r = 0x2D"
  proof (rule numberEnd_nonempty [OF s])
    have "byte (hd s) = r" using DecodeRune_ascii_head(1) [OF s] that by (auto simp: r_def)
    then show "is_digit (hd s) \<or> hd s \<in> {CHR ''.'', CHR ''+'', CHR ''-''}"
      using that by (auto simp: is_digit_def eq_char_iff)
  qed
  have dr: "length (drop 2 s) < length s" "length (drop 1 s) < length s" using s by (cases s; simp)+
  show ?thesis
    using tok t tl q sq n d dr unfolding lex_token_def Let_def r_def [symmetric] t_def [symmetric]
    by (auto simp del: length_tl length_drop split: if_splits)
qed

text \<open>The main loop; \<open>n\<close> is the number of tokens so far.\<close>

function lex_loop :: "nat \<Rightarrow> nat \<Rightarrow> string \<Rightarrow> query_error + token list" where
  "lex_loop i n s =
     (if s = [] then Inr [\<lparr>t_kind = tokenEnd, t_text = [], t_offset = i\<rparr>]
      else if cql_space (fst (DecodeRune s)) then lex_loop (i + snd (DecodeRune s)) n (drop (snd (DecodeRune s)) s)
      else if n \<ge> maxTokens then Inl (invalid i ''token count exceeds limit'')
      else (case lex_token i s of
          Inl e \<Rightarrow> Inl e
        | Inr tr \<Rightarrow> (case lex_loop (i + (length s - length (snd tr))) (n + 1) (snd tr) of
              Inl e \<Rightarrow> Inl e
            | Inr ts \<Rightarrow> Inr (fst tr # ts))))"
  by pat_completeness auto
termination
  by (relation "measure (\<lambda>(i, n, s). length s)") (auto simp: drop_DecodeRune_less dest: lex_token_shorter)

declare lex_loop.simps [simp del]

definition lex :: "string \<Rightarrow> query_error + token list" where
  "lex input =
     (if length input > maxInputBytes then Inl (invalid 0 ''input exceeds limit'')
      else if \<not> ValidString input then Inl (invalid 0 ''invalid utf8'')
      else lex_loop 0 0 input)"

section \<open>The parser\<close>

definition maxASTDepth :: nat where "maxASTDepth = 32"
definition maxASTNodes :: nat where "maxASTNodes = 4096"

record parsedNode =
  pn_node :: FilterNode
  pn_depth :: nat

record parser =
  ps_tokens :: "token list"
  ps_nodes :: nat

text \<open>The tokens left always end in the end token; without any, the end token is read.\<close>

definition current :: "parser \<Rightarrow> token" where
  "current p = (case ps_tokens p of t # _ \<Rightarrow> t | [] \<Rightarrow> \<lparr>t_kind = tokenEnd, t_text = [], t_offset = 0\<rparr>)"

definition advance :: "parser \<Rightarrow> parser" where
  "advance p = (if t_kind (current p) = tokenEnd then p else p\<lparr>ps_tokens := tl (ps_tokens p)\<rparr>)"

definition asciiUpper :: "string \<Rightarrow> string" where
  "asciiUpper s = map ascii_upper_char s"

definition asciiEqual :: "string \<Rightarrow> string \<Rightarrow> bool" where
  "asciiEqual l r \<longleftrightarrow> asciiUpper l = asciiUpper r"

definition asciiBoolean :: "string \<Rightarrow> string" where
  "asciiBoolean v = (if asciiEqual v ''TRUE'' then ''true'' else ''false'')"

definition is_keyword :: "token \<Rightarrow> string \<Rightarrow> bool" where
  "is_keyword t word \<longleftrightarrow> t_kind t = tokenName \<and> asciiEqual (t_text t) word"

definition keyword :: "parser \<Rightarrow> string \<Rightarrow> bool" where
  "keyword p word = is_keyword (current p) word"

definition makeNode :: "parser \<Rightarrow> FilterNode \<Rightarrow> nat \<Rightarrow> query_error + parsedNode \<times> parser" where
  "makeNode p node depth =
     (let p' = p\<lparr>ps_nodes := ps_nodes p + 1\<rparr> in
      if ps_nodes p' > maxASTNodes \<or> depth > maxASTDepth
      then Inl (invalid (t_offset (current p)) ''expression exceeds structural limit'')
      else Inr (\<lparr>pn_node = node, pn_depth = depth\<rparr>, p'))"

definition reserved_words :: "string list" where
  "reserved_words =
     [''AND'', ''OR'', ''NOT'', ''IS'', ''NULL'', ''TRUE'', ''FALSE'', ''DATE'', ''TIMESTAMP'', ''LIKE'', ''IN'', ''BETWEEN'',
      ''CASEI'', ''ACCENTI'', ''DIV'', ''BBOX'', ''INTERVAL'', ''POINT'', ''LINESTRING'', ''POLYGON'', ''MULTIPOINT'',
      ''MULTILINESTRING'', ''MULTIPOLYGON'', ''GEOMETRYCOLLECTION'',
      ''S_INTERSECTS'', ''S_EQUALS'', ''S_DISJOINT'', ''S_TOUCHES'', ''S_WITHIN'', ''S_OVERLAPS'', ''S_CROSSES'', ''S_CONTAINS'',
      ''T_AFTER'', ''T_BEFORE'', ''T_CONTAINS'', ''T_DISJOINT'', ''T_DURING'', ''T_EQUALS'', ''T_FINISHEDBY'', ''T_FINISHES'',
      ''T_INTERSECTS'', ''T_MEETS'', ''T_METBY'', ''T_OVERLAPPEDBY'', ''T_OVERLAPS'', ''T_STARTEDBY'', ''T_STARTS'',
      ''A_EQUALS'', ''A_CONTAINS'', ''A_CONTAINEDBY'', ''A_OVERLAPS'']"

definition reserved :: "string \<Rightarrow> bool" where
  "reserved v = List.member reserved_words (asciiUpper v)"

definition advancedToken :: "token \<Rightarrow> bool" where
  "advancedToken t \<longleftrightarrow>
     (t_kind t = tokenNumber \<and> t_text t \<noteq> [] \<and> (hd (t_text t) = CHR ''+'' \<or> hd (t_text t) = CHR ''-'')) \<or>
     t_kind t = tokenUnsupported \<or>
     (t_kind t = tokenName \<and>
        List.member [''LIKE'', ''IN'', ''BETWEEN'', ''CASEI'', ''ACCENTI'', ''DIV'', ''INTERVAL''] (asciiUpper (t_text t)))"

definition with_state :: "query_error + 'a \<Rightarrow> parser \<Rightarrow> query_error + 'a \<times> parser" where
  "with_state r p = (case r of Inl e \<Rightarrow> Inl e | Inr x \<Rightarrow> Inr (x, p))"

definition temporal_literal :: "FilterScalarType \<Rightarrow> parser \<Rightarrow> query_error + FilterLiteral \<times> parser" where
  "temporal_literal kind p =
     (if t_kind (current p) \<noteq> tokenOpen
      then Inl (invalid (t_offset (current p)) ''expected temporal literal parentheses'')
      else let p1 = advance p; v = current p1 in
      if t_kind v \<noteq> tokenString then Inl (invalid (t_offset v) ''expected temporal literal string'')
      else let p2 = advance p1 in
      if t_kind (current p2) \<noteq> tokenClose
      then Inl (invalid (t_offset (current p2)) ''expected temporal literal closing parenthesis'')
      else with_state (NewFilterLiteral kind (t_text v)) (advance p2))"

definition literal :: "parser \<Rightarrow> query_error + FilterLiteral \<times> parser" where
  "literal p =
     (let t = current p in
      case t_kind t of
        tokenString \<Rightarrow> with_state (NewFilterLiteral FilterString (t_text t)) (advance p)
      | tokenNumber \<Rightarrow> with_state (NewFilterLiteral FilterNumber (t_text t)) (advance p)
      | tokenName \<Rightarrow>
          if keyword p ''NULL'' then Inl (invalid (t_offset t) ''null requires is null'')
          else if keyword p ''TRUE'' \<or> keyword p ''FALSE''
          then with_state (NewFilterLiteral FilterBoolean (asciiBoolean (t_text t))) (advance p)
          else if keyword p ''DATE'' \<or> keyword p ''TIMESTAMP''
          then temporal_literal (if asciiEqual (t_text t) ''TIMESTAMP'' then FilterTimestamp else FilterDate) (advance p)
          else Inl (unsupported (t_offset t))
      | tokenQuotedName \<Rightarrow> Inl (unsupported (t_offset t))
      | tokenUnsupported \<Rightarrow> Inl (unsupported (t_offset t))
      | tokenOpen \<Rightarrow> Inl (unsupported (t_offset t))
      | _ \<Rightarrow> Inl (invalid (t_offset t) ''expected scalar literal''))"

definition compare_operator :: "string \<Rightarrow> FilterCompareOperator option" where
  "compare_operator s =
     (if s = ''='' then Some FilterEqual
      else if s = ''<>'' then Some FilterNotEqual
      else if s = ''<'' then Some FilterLess
      else if s = ''<='' then Some FilterLessEqual
      else if s = ''>'' then Some FilterGreater
      else if s = ''>='' then Some FilterGreaterEqual
      else None)"

definition leaf_node :: "FilterKind \<Rightarrow> FilterCompareOperator \<Rightarrow> string \<Rightarrow> FilterLiteral \<Rightarrow> bool \<Rightarrow> FilterNode" where
  "leaf_node k oper p l b = FilterNode k oper p l b []"

definition logical_node :: "FilterKind \<Rightarrow> FilterNode list \<Rightarrow> FilterNode" where
  "logical_node k cs = FilterNode k FilterComparisonInvalid [] no_literal False cs"

text \<open>A predicate that starts with a property: the rest of \<^verbatim>\<open>factor\<close> after the name.\<close>

definition property_predicate :: "token \<Rightarrow> parser \<Rightarrow> query_error + parsedNode \<times> parser" where
  "property_predicate t p =
     (if t_kind (current p) = tokenOpen then Inl (unsupported (t_offset t))
      else if keyword p ''IS'' then
        (let p1 = advance p; negated = keyword p1 ''NOT''; p2 = (if negated then advance p1 else p1) in
         if \<not> keyword p2 ''NULL'' then Inl (invalid (t_offset (current p2)) ''expected null test'')
         else makeNode (advance p2)
                (leaf_node (if negated then FilterIsNotNull else FilterIsNull) FilterComparisonInvalid (t_text t) no_literal False) 1)
      else let op_tok = current p in
      if t_kind op_tok \<noteq> tokenOperator then
        (if advancedToken op_tok \<or> keyword p ''NOT'' \<or> t_kind op_tok = tokenNumber
         then Inl (unsupported (t_offset op_tok)) else Inl (invalid (t_offset op_tok) ''expected comparison''))
      else (case compare_operator (t_text op_tok) of
          None \<Rightarrow> Inl (invalid (t_offset op_tok) ''invalid comparison operator'')
        | Some oper \<Rightarrow> (case literal (advance p) of
              Inl e \<Rightarrow> Inl e
            | Inr (l, p') \<Rightarrow> makeNode p' (leaf_node FilterCompare oper (t_text t) l False) 1)))"

text \<open>The cases of \<^verbatim>\<open>factor\<close> that are neither a negation nor a group.\<close>

definition predicate :: "parser \<Rightarrow> query_error + parsedNode \<times> parser" where
  "predicate p =
     (let t = current p in
      if keyword p ''TRUE'' \<or> keyword p ''FALSE'' then
        (let p1 = advance p in
         if t_kind (current p1) = tokenOperator then Inl (unsupported (t_offset t))
         else makeNode p1 (leaf_node FilterBooleanConstant FilterComparisonInvalid [] no_literal (asciiEqual (t_text t) ''TRUE'')) 1)
      else if t_kind t \<noteq> tokenName \<and> t_kind t \<noteq> tokenQuotedName then
        (if t_kind t = tokenNumber \<or> t_kind t = tokenString \<or> advancedToken t
         then Inl (unsupported (t_offset t)) else Inl (invalid (t_offset t) ''expected predicate''))
      else if t_kind t = tokenName \<and> reserved (t_text t) then Inl (unsupported (t_offset t))
      else property_predicate t (advance p))"

definition and_then :: "('e + 'a) option \<Rightarrow> ('a \<Rightarrow> ('e + 'b) option) \<Rightarrow> ('e + 'b) option" where
  "and_then r k = (case r of None \<Rightarrow> None | Some (Inl e) \<Rightarrow> Some (Inl e) | Some (Inr x) \<Rightarrow> k x)"

definition close_group :: "parsedNode \<Rightarrow> parser \<Rightarrow> query_error + parsedNode \<times> parser" where
  "close_group node p =
     (if t_kind (current p) \<noteq> tokenClose then Inl (invalid (t_offset (current p)) ''missing closing parenthesis'')
      else Inr (node, advance p))"

fun expression :: "nat \<Rightarrow> nat \<Rightarrow> parser \<Rightarrow> (query_error + parsedNode \<times> parser) option"
and or_loop :: "nat \<Rightarrow> nat \<Rightarrow> parsedNode \<Rightarrow> parser \<Rightarrow> (query_error + parsedNode \<times> parser) option"
and cql_term :: "nat \<Rightarrow> nat \<Rightarrow> parser \<Rightarrow> (query_error + parsedNode \<times> parser) option"
and and_loop :: "nat \<Rightarrow> nat \<Rightarrow> parsedNode \<Rightarrow> parser \<Rightarrow> (query_error + parsedNode \<times> parser) option"
and factor :: "nat \<Rightarrow> nat \<Rightarrow> parser \<Rightarrow> (query_error + parsedNode \<times> parser) option" where
  "expression 0 g p = None"
| "expression (Suc n) g p = and_then (cql_term n g p) (\<lambda>(left, p1). or_loop n g left p1)"
| "or_loop 0 g left p = None"
| "or_loop (Suc n) g left p =
     (if keyword p ''OR'' then
        and_then (cql_term n g (advance p)) (\<lambda>(right, p1).
        and_then (Some (makeNode p1 (logical_node FilterOr [pn_node left, pn_node right]) (max (pn_depth left) (pn_depth right) + 1)))
          (\<lambda>(left', p2). or_loop n g left' p2))
      else Some (Inr (left, p)))"
| "cql_term 0 g p = None"
| "cql_term (Suc n) g p = and_then (factor n g p) (\<lambda>(left, p1). and_loop n g left p1)"
| "and_loop 0 g left p = None"
| "and_loop (Suc n) g left p =
     (if keyword p ''AND'' then
        and_then (factor n g (advance p)) (\<lambda>(right, p1).
        and_then (Some (makeNode p1 (logical_node FilterAnd [pn_node left, pn_node right]) (max (pn_depth left) (pn_depth right) + 1)))
          (\<lambda>(left', p2). and_loop n g left' p2))
      else Some (Inr (left, p)))"
| "factor 0 g p = None"
| "factor (Suc n) g p =
     (if g \<ge> maxASTDepth then Some (Inl (invalid (t_offset (current p)) ''expression exceeds nesting limit''))
      else if keyword p ''NOT'' then
        and_then (factor n (g + 1) (advance p)) (\<lambda>(child, p1).
          Some (makeNode p1 (logical_node FilterNot [pn_node child]) (pn_depth child + 1)))
      else if t_kind (current p) = tokenOpen then
        and_then (expression n (g + 1) (advance p)) (\<lambda>(node, p1). Some (close_group node p1))
      else Some (predicate p))"

definition finish_parse :: "parsedNode \<Rightarrow> parser \<Rightarrow> query_error + FilterExpression" where
  "finish_parse rt p =
     (if t_kind (current p) \<noteq> tokenEnd
      then (if advancedToken (current p) then Inl (unsupported (t_offset (current p)))
            else Inl (invalid (t_offset (current p)) ''unexpected trailing input''))
      else NewFilterExpression (pn_node rt))"

definition parse_fuel :: "token list \<Rightarrow> nat" where
  "parse_fuel ts = 3 * length ts + 3"

definition Parse :: "string \<Rightarrow> (query_error + FilterExpression) option" where
  "Parse text = (case lex text of
       Inl e \<Rightarrow> Some (Inl e)
     | Inr tokens \<Rightarrow>
         and_then (expression (parse_fuel tokens) 0 \<lparr>ps_tokens = tokens, ps_nodes = 0\<rparr>) (\<lambda>(rt, p). Some (finish_parse rt p)))"

section \<open>Property names\<close>

fun name_runes :: "nat list \<Rightarrow> bool \<Rightarrow> bool" where
  "name_runes [] first = True"
| "name_runes (r # rs) first = (if (if first then nameStart r else namePart r) then name_runes rs False else False)"

definition CanReferenceProperty :: "string \<Rightarrow> bool" where
  "CanReferenceProperty name \<longleftrightarrow>
     (if name = [] \<or> length name > maxPropertyBytes \<or> \<not> ValidString name then False
      else name_runes (map snd (runes_at 0 name)) True)"

end
