(* ===== verification/Filter_Correct.thy ===== *)
theory Filter_Correct
  imports Query_Filter
begin

text \<open>
  Properties of query filters: exactly which filter trees and catalogues are accepted, that the
  stored copy is the tree given, that resolution against a catalogue is sound, that numeric
  literals keep their exact value, and that an accepted page of a query does not overflow.
\<close>

section \<open>The accepted filter trees\<close>

fun node_count :: "FilterNode \<Rightarrow> int" and count_all :: "FilterNode list \<Rightarrow> int" where
  "node_count (FilterNode k oper p l bl cs) = 1 + count_all cs"
| "count_all [] = 0"
| "count_all (c # cs) = node_count c + count_all cs"

fun node_height :: "FilterNode \<Rightarrow> int" and height_all :: "FilterNode list \<Rightarrow> int" where
  "node_height (FilterNode k oper p l bl cs) = 1 + height_all cs"
| "height_all [] = 0"
| "height_all (c # cs) = max (node_height c) (height_all cs)"

fun node_bytes :: "FilterNode \<Rightarrow> int" and bytes_all :: "FilterNode list \<Rightarrow> int" where
  "node_bytes (FilterNode k oper p l bl cs) = int (length p) + int (length (lit_text l)) + bytes_all cs"
| "bytes_all [] = 0"
| "bytes_all (c # cs) = node_bytes c + bytes_all cs"

text \<open>The shapes of the profile.\<close>

definition literal_ok :: "FilterLiteral \<Rightarrow> bool" where
  "literal_ok l \<longleftrightarrow> (\<exists>l'. NewFilterLiteral (lit_kind l) (lit_text l) = Inr l')"

inductive filter_shape :: "FilterNode \<Rightarrow> bool" where
  shape_constant: "filter_shape (FilterNode FilterBooleanConstant FilterComparisonInvalid [] no_literal b [])"
| shape_compare: "validFilterProperty p \<Longrightarrow> int (length p) \<le> MaxFilterPropertyBytes \<Longrightarrow> oper \<noteq> FilterComparisonInvalid \<Longrightarrow>
    literal_ok l \<Longrightarrow> filter_shape (FilterNode FilterCompare oper p l False [])"
| shape_null: "validFilterProperty p \<Longrightarrow> int (length p) \<le> MaxFilterPropertyBytes \<Longrightarrow> k \<in> {FilterIsNull, FilterIsNotNull} \<Longrightarrow>
    filter_shape (FilterNode k FilterComparisonInvalid p no_literal False [])"
| shape_not: "filter_shape c \<Longrightarrow> filter_shape (FilterNode FilterNot FilterComparisonInvalid [] no_literal False [c])"
| shape_logical: "k \<in> {FilterAnd, FilterOr} \<Longrightarrow> 2 \<le> length cs \<Longrightarrow> list_all filter_shape cs \<Longrightarrow>
    filter_shape (FilterNode k FilterComparisonInvalid [] no_literal False cs)"
  monos list.pred_mono

inductive_simps filter_shape_simps: "filter_shape (FilterNode k oper p l b cs)"

lemma node_measures_nonneg:
  "1 \<le> node_count n \<and> 1 \<le> node_height n \<and> 0 \<le> node_bytes n"
  "0 \<le> count_all cs \<and> 0 \<le> height_all cs \<and> 0 \<le> bytes_all cs"
  by (induction n and cs rule: node_count_count_all.induct) auto

lemma shape_children:
  "check_shape (FilterNode k oper p l b cs) = Inr () \<and> int (length p) \<le> MaxFilterPropertyBytes \<and> list_all filter_shape cs \<longleftrightarrow>
     filter_shape (FilterNode k oper p l b cs)"
proof -
  have u: "(\<exists>u. (x :: query_error + FilterLiteral) = Inr u \<and> (Inr () :: query_error + unit) = Inr ()) \<longleftrightarrow> (\<exists>u. x = Inr u)" for x by simp
  show ?thesis
    by (cases k; cases cs)
      (auto simp: check_shape_def filter_shape_simps literal_ok_def Let_def Suc_le_eq length_Suc_conv MaxFilterPropertyBytes_def)
qed

lemma charge_node_Inr:
  "charge_node n d b = Inr b' \<longleftrightarrow>
     d \<le> MaxFilterDepth \<and> budget_nodes b + 1 \<le> MaxFilterNodes \<and> int (length (NodeProperty n)) \<le> MaxFilterPropertyBytes \<and>
     budget_bytes b + int (length (NodeProperty n)) + int (length (lit_text (Literal n))) \<le> MaxFilterBytes \<and>
     b' = \<lparr>budget_nodes = budget_nodes b + 1,
           budget_bytes = budget_bytes b + int (length (NodeProperty n)) + int (length (lit_text (Literal n)))\<rparr>"
  by (cases b) (auto simp: charge_node_def Let_def)

lemma validate_Inr:
  "budget_nodes b \<le> MaxFilterNodes \<Longrightarrow> budget_bytes b \<le> MaxFilterBytes \<Longrightarrow>
     validateFilterNode n d b = Inr b' \<longleftrightarrow>
       filter_shape n \<and> d - 1 + node_height n \<le> MaxFilterDepth \<and> budget_nodes b + node_count n \<le> MaxFilterNodes \<and>
       budget_bytes b + node_bytes n \<le> MaxFilterBytes \<and>
       b' = \<lparr>budget_nodes = budget_nodes b + node_count n, budget_bytes = budget_bytes b + node_bytes n\<rparr>"
  "budget_nodes b \<le> MaxFilterNodes \<Longrightarrow> budget_bytes b \<le> MaxFilterBytes \<Longrightarrow> d \<le> MaxFilterDepth + 1 \<Longrightarrow>
     validate_children cs d b = Inr b' \<longleftrightarrow>
       list_all filter_shape cs \<and> d - 1 + height_all cs \<le> MaxFilterDepth \<and> budget_nodes b + count_all cs \<le> MaxFilterNodes \<and>
       budget_bytes b + bytes_all cs \<le> MaxFilterBytes \<and>
       b' = \<lparr>budget_nodes = budget_nodes b + count_all cs, budget_bytes = budget_bytes b + bytes_all cs\<rparr>"
proof (induction n d b and cs d b arbitrary: b' and b' rule: validateFilterNode_validate_children.induct)
  case (1 k oper p l bl cs depth b)
  let ?n = "FilterNode k oper p l bl cs"
  let ?b = "\<lparr>budget_nodes = budget_nodes b + 1, budget_bytes = budget_bytes b + int (length p) + int (length (lit_text l))\<rparr>"
  show ?case
  proof (cases "charge_node ?n depth b = Inr ?b \<and> check_shape ?n = Inr ()")
    case True
    then have c: "depth \<le> MaxFilterDepth" "budget_nodes ?b \<le> MaxFilterNodes" "budget_bytes ?b \<le> MaxFilterBytes"
      "int (length p) \<le> MaxFilterPropertyBytes" by (auto simp: charge_node_Inr)
    have s: "filter_shape ?n \<longleftrightarrow> list_all filter_shape cs" using True c(4) shape_children by blast
    show ?thesis using True "1.IH" [of ?b "()" b'] c s by (simp add: algebra_simps)
  next
    case False
    then have "validateFilterNode ?n depth b \<noteq> Inr b'" by (auto simp: charge_node_Inr)
    moreover have "charge_node ?n depth b = Inr ?b" if "depth - 1 + node_height ?n \<le> MaxFilterDepth"
      "budget_nodes b + node_count ?n \<le> MaxFilterNodes" "budget_bytes b + node_bytes ?n \<le> MaxFilterBytes" "filter_shape ?n"
      using that node_measures_nonneg(2) [of cs] shape_children [of k oper p l bl cs]
      by (auto simp: charge_node_Inr)
    moreover have "filter_shape ?n \<Longrightarrow> check_shape ?n = Inr ()" using shape_children by blast
    ultimately show ?thesis using False by blast
  qed
next
  case (2 d b)
  then show ?case by (cases b) auto
next
  case (3 c cs d b)
  let ?b = "\<lparr>budget_nodes = budget_nodes b + node_count c, budget_bytes = budget_bytes b + node_bytes c\<rparr>"
  note n = node_measures_nonneg(1) [of c] node_measures_nonneg(2) [of cs]
  show ?case
  proof (cases "validateFilterNode c d b = Inr ?b")
    case True
    then have "budget_nodes ?b \<le> MaxFilterNodes" "budget_bytes ?b \<le> MaxFilterBytes" "filter_shape c"
      "d - 1 + node_height c \<le> MaxFilterDepth"
      using "3.IH"(1) [of ?b] "3.prems" by auto
    with True "3.IH"(2) [OF True, of b'] "3.prems" show ?thesis by (auto simp: algebra_simps)
  next
    case False
    have "validateFilterNode c d b \<noteq> Inr x" for x using False "3.IH"(1) [of x] "3.IH"(1) [of ?b] "3.prems" by blast
    moreover have "\<not> (filter_shape c \<and> d - 1 + node_height c \<le> MaxFilterDepth \<and> budget_nodes b + node_count c \<le> MaxFilterNodes \<and>
        budget_bytes b + node_bytes c \<le> MaxFilterBytes)"
      using False "3.IH"(1) [of ?b] "3.prems" by blast
    ultimately show ?thesis using n by auto
  qed
qed

lemma clone_id: "cloneFilterNode n = n"
  by (induction n) (simp add: map_idI)

text \<open>
  C28. A filter is accepted exactly when every node has a shape of the supported profile, it is at most
  32 levels deep, it has at most 4096 nodes, and its property names and literals take at most
  65536 bytes together; what is stored is the filter given, and validating it again succeeds.
\<close>

theorem filter_accepted_iff:
  "NewFilterExpression n = Inr e \<longleftrightarrow>
     filter_shape n \<and> node_height n \<le> 32 \<and> node_count n \<le> 4096 \<and> node_bytes n \<le> 65536 \<and>
     e = \<lparr>fe_root = n, fe_valid = True\<rparr> \<and> FilterExpression_Validate e = Inr () \<and> FilterExpression_Clone e = e"
proof -
  have v: "(\<exists>b. validateFilterNode n 1 fresh_budget = Inr b) \<longleftrightarrow>
      filter_shape n \<and> node_height n \<le> 32 \<and> node_count n \<le> 4096 \<and> node_bytes n \<le> 65536"
    using validate_Inr(1) [of fresh_budget n 1]
    by (auto simp: fresh_budget_def MaxFilterBytes_def MaxFilterNodes_def MaxFilterDepth_def)
  have "NewFilterExpression n = Inr e \<longleftrightarrow>
      (\<exists>b. validateFilterNode n 1 fresh_budget = Inr b) \<and> e = \<lparr>fe_root = n, fe_valid = True\<rparr>"
    by (auto simp: NewFilterExpression_def clone_id)
  moreover have "FilterExpression_Validate \<lparr>fe_root = n, fe_valid = True\<rparr> = Inr () \<longleftrightarrow>
      (\<exists>b. validateFilterNode n 1 fresh_budget = Inr b)"
    by (auto simp: FilterExpression_Validate_def)
  ultimately show ?thesis using v by (auto simp: FilterExpression_Clone_def clone_id)
qed

section \<open>Numeric literals\<close>

lemma length_filter_takeWhile: "length (takeWhile P xs) + length (filter P (dropWhile P xs)) = length (filter P xs)"
  by (induction xs) auto

lemma takeWhile_all: "list_all P (takeWhile P xs)"
  by (simp add: list_all_iff) (blast dest: set_takeWhileD)

lemma number_pattern_digits:
  assumes "filterNumberPattern text = Some p"
  shows "list_all is_digit (np_int p) \<and> list_all is_digit (np_frac p) \<and>
    length (np_int p) + length (np_frac p) \<le> length (filter is_digit text)"
proof -
  define s1 where "s1 = (case text of c # t \<Rightarrow> if c = CHR ''+'' \<or> c = CHR ''-'' then t else text | [] \<Rightarrow> [])"
  define s2 where "s2 = dropWhile is_digit s1"
  define dot where "dot \<longleftrightarrow> (case s2 of c # _ \<Rightarrow> c = CHR ''.'' | [] \<Rightarrow> False)"
  have p: "np_int p = takeWhile is_digit s1" "np_frac p = (if dot then takeWhile is_digit (tl s2) else [])"
    using assms unfolding filterNumberPattern_def Let_def s1_def [symmetric] s2_def [symmetric] dot_def [symmetric]
    by (auto split: if_splits list.splits)
  have "length (filter is_digit s1) \<le> length (filter is_digit text)" by (auto simp: s1_def split: list.splits)
  moreover have "length (filter is_digit s1) = length (np_int p) + length (filter is_digit s2)"
    using length_filter_takeWhile [of is_digit s1] by (simp add: p s2_def)
  moreover have "length (np_frac p) \<le> length (filter is_digit s2)"
  proof (cases dot)
    case True
    then obtain t where t: "s2 = CHR ''.'' # t" by (auto simp: dot_def split: list.splits)
    then have "length (filter is_digit s2) = length (filter is_digit t)" by (simp add: is_digit_def)
    with True t show ?thesis using length_filter_takeWhile [of is_digit t] by (simp add: p)
  qed (simp add: p)
  ultimately show ?thesis by (auto simp: p takeWhile_all)
qed

lemma mantissa_bound: "list_all is_digit s \<Longrightarrow> of_nat (digits_val s) + 1 \<le> (10 ^ length s :: rat)"
proof (induction s rule: rev_induct)
  case (snoc c s)
  have "digit_val c \<le> 9" using snoc.prems digit_val_le_9 by simp
  then have "of_nat (digit_val c) \<le> (9 :: rat)" by (metis of_nat_le_iff of_nat_numeral)
  with snoc show ?case by simp
qed (simp add: digits_val_def)

lemma frac_scaled: "\<exists>k. frac_val s * 10 ^ length s = of_nat k"
  using digits_val_frac [of s] by (metis mult.commute)

lemma pow10_bound:
  assumes "- int N \<le> e" "e \<le> int N"
  shows "0 < pow10 e" "pow10 e \<le> 10 ^ N" "\<exists>k. pow10 e * 10 ^ N = of_nat k"
proof -
  show "0 < pow10 e" by (simp add: pow10_def)
  have one: "(1 :: rat) \<le> 10 ^ n" for n by (rule one_le_power) simp
  have up: "0 \<le> e \<Longrightarrow> (10 :: rat) ^ nat e \<le> 10 ^ N" using assms by (intro power_increasing) auto
  have "1 / 10 ^ nat (- e) \<le> (1 :: rat)" by (simp add: one [of "nat (- e)"] divide_le_eq_1)
  then have "1 / 10 ^ nat (- e) \<le> (10 :: rat) ^ N" using one [of N] by (rule order_trans)
  then show "pow10 e \<le> 10 ^ N"
    using up by (simp add: pow10_def)
  show "\<exists>k. pow10 e * 10 ^ N = of_nat k"
  proof (cases "0 \<le> e")
    case True
    then have "pow10 e * 10 ^ N = of_nat (10 ^ nat e * 10 ^ N)" by (simp add: pow10_def)
    then show ?thesis by blast
  next
    case False
    then have "nat (- e) + (N - nat (- e)) = N" using assms by simp
    then have "(10 :: rat) ^ N = 10 ^ nat (- e) * 10 ^ (N - nat (- e))" by (metis power_add)
    then have "pow10 e * 10 ^ N = of_nat (10 ^ (N - nat (- e)))"
      using False by (simp add: pow10_def)
    then show ?thesis by blast
  qed
qed

lemma decimal_value_bound:
  assumes i: "list_all is_digit i" "length i \<le> M" and f: "list_all is_digit f" "length f \<le> M"
    and e: "- int N \<le> e" "e \<le> int N"
    and v: "v = (if neg then -1 else 1) * (of_nat (digits_val i) + frac_val f) * pow10 e"
  shows "\<bar>v\<bar> < 10 ^ (M + N) \<and> (\<exists>k. v * 10 ^ (M + N) = of_int k)"
proof -
  let ?m = "of_nat (digits_val i) + frac_val f :: rat"
  have m0: "0 \<le> ?m" using frac_val_bounds [OF f(1)] by simp
  have "?m < of_nat (digits_val i) + 1" using frac_val_bounds [OF f(1)] by simp
  also have "\<dots> \<le> 10 ^ length i" by (rule mantissa_bound [OF i(1)])
  also have "\<dots> \<le> 10 ^ M" using i(2) by (intro power_increasing) auto
  finally have m: "?m < 10 ^ M" .
  note p = pow10_bound [OF e]
  have "?m * pow10 e < 10 ^ M * pow10 e" using m p(1) by simp
  also have "\<dots> \<le> 10 ^ M * 10 ^ N" using p(2) by simp
  finally have "?m * pow10 e < 10 ^ (M + N)" by (simp add: power_add)
  moreover have "\<bar>v\<bar> = ?m * pow10 e" using v m0 p(1) by (simp add: abs_mult)
  ultimately have a: "\<bar>v\<bar> < 10 ^ (M + N)" by simp
  obtain k where k: "frac_val f * 10 ^ length f = of_nat k" using frac_scaled by blast
  have "M = length f + (M - length f)" using f(2) by simp
  then have "frac_val f * 10 ^ M = frac_val f * 10 ^ length f * 10 ^ (M - length f)"
    by (metis power_add mult.assoc)
  then have "frac_val f * 10 ^ M = of_nat (k * 10 ^ (M - length f))" by (simp add: k)
  then have "?m * 10 ^ M = of_nat (digits_val i * 10 ^ M + k * 10 ^ (M - length f))" by (simp add: distrib_right)
  moreover obtain l where "pow10 e * 10 ^ N = of_nat l" using p(3) by blast
  ultimately have "(?m * 10 ^ M) * (pow10 e * 10 ^ N) = of_nat ((digits_val i * 10 ^ M + k * 10 ^ (M - length f)) * l)"
    by (simp only: of_nat_mult)
  then have "v * 10 ^ (M + N) = of_int ((if neg then -1 else 1) * int ((digits_val i * 10 ^ M + k * 10 ^ (M - length f)) * l))"
    unfolding v by (simp add: power_add mult.assoc mult.left_commute)
  with a show ?thesis by blast
qed

lemma NewFilterLiteral_number:
  assumes "NewFilterLiteral FilterNumber text = Inr l"
  obtains p e where "filterNumberPattern text = Some p" "length (filter is_digit text) \<le> 1024"
    "(case np_exp p of None \<Rightarrow> Some 0 | Some t \<Rightarrow> ParseInt 64 t) = Some e" "- 4096 \<le> e" "e \<le> 4096"
    "lit_kind l = FilterNumber" "lit_text l = text"
  using assms that
  by (cases "filterNumberPattern text")
    (auto simp: NewFilterLiteral_def MaxFilterNumericDigits_def MaxFilterNumericExponent_def no_literal_def Let_def
      split: if_splits option.splits)

text \<open>
  An accepted numeric literal has an exact value of bounded size: it denotes a rational number
  smaller in magnitude than \<open>10 ^ 5120\<close> with at most 5120 decimal places.
\<close>

theorem number_literal_bounded:
  assumes "NewFilterLiteral FilterNumber text = Inr l"
  shows "\<exists>v k. FilterLiteral_Number l = Some v \<and> \<bar>v\<bar> < 10 ^ (1024 + 4096) \<and> v * 10 ^ (1024 + 4096) = of_int k"
proof -
  obtain p e where p: "filterNumberPattern text = Some p" "length (filter is_digit text) \<le> 1024"
    and e: "(case np_exp p of None \<Rightarrow> Some 0 | Some t \<Rightarrow> ParseInt 64 t) = Some e" "- 4096 \<le> e" "e \<le> 4096"
    and l: "lit_kind l = FilterNumber" "lit_text l = text"
    using NewFilterLiteral_number [OF assms] by blast
  define v where "v = (if np_neg p then -1 else 1) * (of_nat (digits_val (np_int p)) + frac_val (np_frac p)) * pow10 e"
  have "FilterLiteral_Number l = Some v"
    by (simp add: FilterLiteral_Number_def Rat_SetString_def l p e(1) v_def Let_def)
  moreover have "\<bar>v\<bar> < 10 ^ (1024 + 4096) \<and> (\<exists>k. v * 10 ^ (1024 + 4096) = of_int k)"
    using number_pattern_digits [OF p(1)] p(2) e(2,3)
    by (intro decimal_value_bound [OF _ _ _ _ _ _ v_def]) auto
  ultimately show ?thesis by blast
qed

lemma number_literal_bounded_witness:
  "\<exists>v k. FilterLiteral_Number (no_literal\<lparr>lit_kind := FilterNumber, lit_text := ''-12.5e3''\<rparr>) = Some v \<and>
     \<bar>v\<bar> < 10 ^ (1024 + 4096) \<and> v * 10 ^ (1024 + 4096) = of_int k"
proof -
  have "NewFilterLiteral FilterNumber ''-12.5e3'' = Inr (no_literal\<lparr>lit_kind := FilterNumber, lit_text := ''-12.5e3''\<rparr>)"
    by (simp add: NewFilterLiteral_def MaxFilterLiteralBytes_def MaxFilterNumericDigits_def MaxFilterNumericExponent_def
        Rat_SetString_def filterNumberPattern_def signed_digits_def ParseInt_def is_digit_def digits_val_def digit_val_def)
  then show ?thesis by (rule number_literal_bounded)
qed

section \<open>Catalogues and resolution\<close>

lemma validate_fields_ok:
  "validate_fields fs seen = Inr () \<longleftrightarrow>
     (\<forall>f \<in> set fs. validFilterProperty (qf_Name f) \<and> qf_Type f \<noteq> QueryableInvalid) \<and>
     distinct (map qf_Name fs) \<and> set seen \<inter> qf_Name ` set fs = {}"
  by (induction fs arbitrary: seen) (auto simp: List.member_iff)

lemma validateQueryableFields_distinct:
  "validateQueryableFields fs = Inr () \<Longrightarrow> distinct (map qf_Name fs)"
  by (auto simp: validateQueryableFields_def validate_fields_ok)

lemma find_name_map_of: "List.find (\<lambda>f. qf_Name f = n) fs = map_of (map (\<lambda>f. (qf_Name f, f)) fs) n"
  by (induction fs) auto

lemma find_sort_name:
  assumes "distinct (map qf_Name fs)"
  shows "List.find (\<lambda>f. qf_Name f = n) (sort_key qf_Name fs) = List.find (\<lambda>f. qf_Name f = n) fs"
proof -
  have "distinct (map qf_Name (sort_key qf_Name fs))"
    using assms by (simp add: distinct_map inj_on_def)
  then have "map_of (map (\<lambda>f. (qf_Name f, f)) (sort_key qf_Name fs)) = map_of (map (\<lambda>f. (qf_Name f, f)) fs)"
    using assms by (subst map_of_inject_set) (simp_all add: comp_def)
  then show ?thesis by (simp add: find_name_map_of)
qed

fun subnodes :: "FilterNode \<Rightarrow> FilterNode list" and subnodes_all :: "FilterNode list \<Rightarrow> FilterNode list" where
  "subnodes (FilterNode k oper p l bl cs) = FilterNode k oper p l bl cs # subnodes_all cs"
| "subnodes_all [] = []"
| "subnodes_all (c # cs) = subnodes c @ subnodes_all cs"

lemma resolve_Inr:
  "resolveFilterNode n q = Inr () \<longleftrightarrow> (\<forall>m \<in> set (subnodes n). resolve_leaf m q = Inr ())"
  "resolve_children cs q = Inr () \<longleftrightarrow> (\<forall>m \<in> set (subnodes_all cs). resolve_leaf m q = Inr ())"
  by (induction n q and cs q rule: resolveFilterNode_resolve_children.induct) auto

lemma resolve_leaf_Inr:
  "resolve_leaf m q = Inr () \<longleftrightarrow> (Kind m \<in> {FilterCompare, FilterIsNull, FilterIsNotNull} \<longrightarrow>
     (\<exists>f. Lookup q (NodeProperty m) = Some f \<and>
        (Kind m = FilterCompare \<longrightarrow> compatible (qf_Type f) (lit_kind (Literal m)))))"
  by (auto simp: resolve_leaf_def)

text \<open>
  C29. Resolution is sound. A resolved filter is the filter given, over the same catalogue sorted by
  name without duplicates, in which every name finds the entry it found before; every property a
  node of the filter compares or tests for null is a queryable of the catalogue, and every
  comparison is with a literal of that queryable's type.
\<close>

theorem resolved_filter_sound:
  assumes "ResolveFeatureFilter expr q = Inr r"
  shows "rf_expression r = expr \<and> set (fq_fields (rf_queryables r)) = set (fq_fields q) \<and>
    sorted (map qf_Name (fq_fields (rf_queryables r))) \<and> distinct (map qf_Name (fq_fields (rf_queryables r))) \<and>
    Lookup (rf_queryables r) name = Lookup q name \<and>
    (\<forall>m \<in> set (subnodes (fe_root (rf_expression r))). Kind m \<in> {FilterCompare, FilterIsNull, FilterIsNotNull} \<longrightarrow>
       (\<exists>f \<in> set (fq_fields (rf_queryables r)). qf_Name f = NodeProperty m \<and>
          (Kind m = FilterCompare \<longrightarrow> compatible (qf_Type f) (lit_kind (Literal m)))))"
proof -
  have c: "rf_expression r = expr" "resolveFilterNode (fe_root expr) q = Inr ()"
    "rf_queryables r = \<lparr>fq_fields = sort_key qf_Name (fq_fields q), fq_valid = True\<rparr>"
    and v: "validateQueryableFields (fq_fields q) = Inr ()"
    using assms by (auto simp: ResolveFeatureFilter_def NewFeatureQueryables_def FilterExpression_Clone_def clone_id)
  note d = validateQueryableFields_distinct [OF v]
  have "Lookup q n = Some f \<Longrightarrow> f \<in> set (fq_fields q) \<and> qf_Name f = n" for n f
    by (auto simp: Lookup_def find_Some_iff)
  moreover have "Lookup (rf_queryables r) n = Lookup q n" for n
    using find_sort_name [OF d, of n] by (simp add: Lookup_def c)
  moreover have "distinct (map qf_Name (fq_fields (rf_queryables r)))" using d by (simp add: c distinct_map)
  ultimately show ?thesis using c(1,2) unfolding resolve_Inr resolve_leaf_Inr
    by (simp add: c(3)) blast
qed

lemma resolved_filter_sound_witness:
  "let q = \<lparr>fq_fields = [\<lparr>qf_Name = ''n'', qf_Type = QueryableNumber, qf_Nullable = True\<rparr>], fq_valid = True\<rparr>;
       e = \<lparr>fe_root = FilterNode FilterIsNull FilterComparisonInvalid ''n'' no_literal False [], fe_valid = True\<rparr>
   in ResolveFeatureFilter e q = Inr \<lparr>rf_expression = e, rf_queryables = q\<rparr> \<and> sorted (map qf_Name (fq_fields q))"
proof -
  let ?q = "\<lparr>fq_fields = [\<lparr>qf_Name = ''n'', qf_Type = QueryableNumber, qf_Nullable = True\<rparr>], fq_valid = True\<rparr>"
  let ?e = "\<lparr>fe_root = FilterNode FilterIsNull FilterComparisonInvalid ''n'' no_literal False [], fe_valid = True\<rparr>"
  have p: "validFilterProperty ''n''" by (simp add: validFilterProperty_def TrimSpace_Nil_iff IsSpace_def)
  then have "ResolveFeatureFilter ?e ?q = Inr \<lparr>rf_expression = ?e, rf_queryables = ?q\<rparr>"
    by (simp add: ResolveFeatureFilter_def FeatureQueryables_Validate_def validateQueryableFields_def validateQueryableBounds_def
        FilterExpression_Validate_def FilterExpression_Clone_def NewFeatureQueryables_def charge_node_def check_shape_def
        resolve_leaf_def Lookup_def fresh_budget_def no_literal_def MaxQueryableFields_def MaxQueryableNameBytes_def
        MaxQueryableTotalNameBytes_def MaxFilterDepth_def MaxFilterNodes_def MaxFilterPropertyBytes_def MaxFilterBytes_def)
  with resolved_filter_sound [OF this, of "''n''"] show ?thesis by (simp add: Let_def)
qed

section \<open>Accepted queries\<close>

lemma check_field_names_ok:
  "check_field_names fs seen = Inr () \<longleftrightarrow> (\<forall>f \<in> set fs. TrimSpace f \<noteq> []) \<and> distinct fs \<and> set seen \<inter> set fs = {}"
  by (induction fs arbitrary: seen) (auto simp: List.member_iff)

lemma u64_page: "off \<le> -1 - m \<Longrightarrow> unat (off + m) = unat off + unat (m :: u64)"
proof -
  assume a: "off \<le> -1 - m"
  have "unat (-1 - m) = 2 ^ 64 - 1 - unat m"
    using unat_sub [of m "-1"] by (simp add: unsigned_minus_1_eq_mask mask_eq_exp_minus_1)
  then have "unat off \<le> 2 ^ 64 - 1 - unat m" using a by (simp add: word_le_nat_alt)
  then have "unat off + unat m < 2 ^ 64" using unat_u64_less [of m] by simp
  then show ?thesis by (simp add: unat_word_ariths)
qed

text \<open>
  In an accepted feature query the page from the offset to offset plus limit is not empty and
  does not wrap around in 64 bits; the selected fields are distinct and not blank; bounds of
  the two kinds are not mixed, every extent is finite and ordered, and a reference system is
  named exactly when there are bounds.
\<close>

theorem accepted_query_page:
  assumes "FeatureQuery_Validate q = Inr ()"
  shows "unat (q_Offset q + q_Limit q) = unat (q_Offset q) + unat (q_Limit q) \<and> q_Offset q < q_Offset q + q_Limit q \<and>
    distinct (q_Fields q) \<and> (\<forall>f \<in> set (q_Fields q). TrimSpace f \<noteq> []) \<and>
    (q_Bounds q = [] \<or> q_Bounds3D q = []) \<and>
    (q_BoundsSRID q \<noteq> 0 \<longleftrightarrow> \<not> (q_Bounds q = [] \<and> q_Bounds3D q = [])) \<and>
    (\<forall>(a, b, c, d) \<in> set (q_Bounds q). \<exists>x y x' y'. a = Finite x \<and> b = Finite y \<and> c = Finite x' \<and> d = Finite y' \<and> x \<le> x' \<and> y \<le> y')"
proof -
  have l: "q_Limit q \<noteq> 0" "q_Offset q \<le> -1 - q_Limit q" and f: "check_field_names (q_Fields q) [] = Inr ()"
    and b: "check_bounds2 (q_Bounds q) = Inr ()"
    using assms by (auto simp: FeatureQuery_Validate_def Let_def not_less)
  note p = u64_page [OF l(2)]
  have "0 < unat (q_Limit q)" using l(1) by (simp add: unat_gt_0)
  then have "q_Offset q < q_Offset q + q_Limit q" using p by (simp add: word_less_nat_alt)
  moreover have "check_bounds2 bs = Inr () \<Longrightarrow> \<forall>(a, b, c, d) \<in> set bs.
      \<exists>x y x' y'. a = Finite x \<and> b = Finite y \<and> c = Finite x' \<and> d = Finite y' \<and> x \<le> x' \<and> y \<le> y'" for bs
  proof (induction bs rule: check_bounds2.induct)
    case (2 a b c d bs)
    then show ?case by (cases a; cases b; cases c; cases d) (auto simp: coord_gt_def not_less)
  qed simp
  ultimately show ?thesis
    using assms p f b by (auto simp: check_field_names_ok FeatureQuery_Validate_def Let_def)
qed

lemma accepted_query_page_witness:
  "unat (5 + 7 :: u64) = unat (5 :: u64) + unat (7 :: u64) \<and> distinct [''name'', ''kind'']"
proof -
  let ?q = "\<lparr>q_Bounds = [], q_Bounds3D = [], q_BoundsVerticalCRS = [], q_BoundsSRID = 0, q_BoundsCRSDefinition = [],
    q_Temporal = None, q_Filter = None, q_IDs = [], q_Limit = 7, q_Offset = 5, q_Fields = [''name'', ''kind'']\<rparr>"
  have "FeatureQuery_Validate ?q = Inr ()"
    by (simp add: FeatureQuery_Validate_def TrimSpace_Nil_iff IsSpace_def word_less_nat_alt)
  from accepted_query_page [OF this] show ?thesis by simp
qed

end
