(* ===== verification/Cql2_Correct.thy ===== *)
theory Cql2_Correct
  imports Cql2 Filter_Correct
begin

text \<open>
  The CQL2 parser against the grammar of the supported profile: it always returns, the tokens it
  consumes derive the tree it builds, and the tokens of a text lie in order inside it.
\<close>

section \<open>The grammar\<close>

definition g_name :: "token \<Rightarrow> bool" where
  "g_name t \<longleftrightarrow> t_kind t = tokenQuotedName \<or> t_kind t = tokenName \<and> \<not> reserved (t_text t)"

inductive g_literal :: "token list \<Rightarrow> FilterLiteral \<Rightarrow> bool" where
  g_string: "t_kind t = tokenString \<Longrightarrow> NewFilterLiteral FilterString (t_text t) = Inr l \<Longrightarrow> g_literal [t] l"
| g_number: "t_kind t = tokenNumber \<Longrightarrow> NewFilterLiteral FilterNumber (t_text t) = Inr l \<Longrightarrow> g_literal [t] l"
| g_boolean: "is_keyword t ''TRUE'' \<or> is_keyword t ''FALSE'' \<Longrightarrow>
    NewFilterLiteral FilterBoolean (asciiBoolean (t_text t)) = Inr l \<Longrightarrow> g_literal [t] l"
| g_date: "is_keyword t ''DATE'' \<Longrightarrow> t_kind a = tokenOpen \<Longrightarrow> t_kind v = tokenString \<Longrightarrow> t_kind b = tokenClose \<Longrightarrow>
    NewFilterLiteral FilterDate (t_text v) = Inr l \<Longrightarrow> g_literal [t, a, v, b] l"
| g_timestamp: "is_keyword t ''TIMESTAMP'' \<Longrightarrow> t_kind a = tokenOpen \<Longrightarrow> t_kind v = tokenString \<Longrightarrow> t_kind b = tokenClose \<Longrightarrow>
    NewFilterLiteral FilterTimestamp (t_text v) = Inr l \<Longrightarrow> g_literal [t, a, v, b] l"

inductive g_predicate :: "token list \<Rightarrow> FilterNode \<Rightarrow> bool" where
  g_constant: "is_keyword t ''TRUE'' \<or> is_keyword t ''FALSE'' \<Longrightarrow>
    g_predicate [t] (leaf_node FilterBooleanConstant FilterComparisonInvalid [] no_literal (is_keyword t ''TRUE''))"
| g_is_null: "g_name t \<Longrightarrow> is_keyword i ''IS'' \<Longrightarrow> is_keyword n ''NULL'' \<Longrightarrow>
    g_predicate [t, i, n] (leaf_node FilterIsNull FilterComparisonInvalid (t_text t) no_literal False)"
| g_is_not_null: "g_name t \<Longrightarrow> is_keyword i ''IS'' \<Longrightarrow> is_keyword m ''NOT'' \<Longrightarrow> is_keyword n ''NULL'' \<Longrightarrow>
    g_predicate [t, i, m, n] (leaf_node FilterIsNotNull FilterComparisonInvalid (t_text t) no_literal False)"
| g_compare: "g_name t \<Longrightarrow> t_kind o' = tokenOperator \<Longrightarrow> compare_operator (t_text o') = Some oper \<Longrightarrow> g_literal ls l \<Longrightarrow>
    g_predicate (t # o' # ls) (leaf_node FilterCompare oper (t_text t) l False)"

inductive g_expr :: "token list \<Rightarrow> FilterNode \<Rightarrow> bool"
and g_term :: "token list \<Rightarrow> FilterNode \<Rightarrow> bool"
and g_factor :: "token list \<Rightarrow> FilterNode \<Rightarrow> bool" where
  g_expr_term: "g_term ts n \<Longrightarrow> g_expr ts n"
| g_expr_or: "g_expr ts l \<Longrightarrow> is_keyword t ''OR'' \<Longrightarrow> g_term us r \<Longrightarrow> g_expr (ts @ t # us) (logical_node FilterOr [l, r])"
| g_term_factor: "g_factor ts n \<Longrightarrow> g_term ts n"
| g_term_and: "g_term ts l \<Longrightarrow> is_keyword t ''AND'' \<Longrightarrow> g_factor us r \<Longrightarrow> g_term (ts @ t # us) (logical_node FilterAnd [l, r])"
| g_factor_not: "is_keyword t ''NOT'' \<Longrightarrow> g_factor ts n \<Longrightarrow> g_factor (t # ts) (logical_node FilterNot [n])"
| g_factor_group: "t_kind a = tokenOpen \<Longrightarrow> g_expr ts n \<Longrightarrow> t_kind b = tokenClose \<Longrightarrow> g_factor (a # ts @ [b]) n"
| g_factor_predicate: "g_predicate ts n \<Longrightarrow> g_factor ts n"

section \<open>The parser follows the grammar\<close>

lemma advance_tokens:
  "t_kind (current p) \<noteq> tokenEnd \<Longrightarrow> ps_tokens p = current p # ps_tokens (advance p)"
  by (cases "ps_tokens p") (auto simp: current_def advance_def)

lemma keyword_current: "keyword p w \<Longrightarrow> is_keyword (current p) w \<and> t_kind (current p) \<noteq> tokenEnd"
  by (auto simp: keyword_def is_keyword_def)

lemma keyword_tokens: "keyword p w \<Longrightarrow> ps_tokens p = current p # ps_tokens (advance p)"
  using keyword_current advance_tokens by blast

lemma makeNode_Inr:
  "makeNode p n d = Inr (x, p') \<Longrightarrow> ps_tokens p' = ps_tokens p \<and> pn_node x = n"
  by (auto simp: makeNode_def Let_def split: if_splits)

lemma with_state_Inr: "with_state r p = Inr (x, p') \<longleftrightarrow> r = Inr x \<and> p' = p"
  by (cases r) (auto simp: with_state_def)

lemma literal_sound:
  assumes "literal p = Inr (l, p')"
  shows "\<exists>ts. ps_tokens p = ts @ ps_tokens p' \<and> g_literal ts l"
proof -
  let ?t = "current p"
  have tl: "\<exists>a v b. ps_tokens q = a # v # b # ps_tokens p' \<and> t_kind a = tokenOpen \<and> t_kind v = tokenString \<and>
      t_kind b = tokenClose \<and> NewFilterLiteral k (t_text v) = Inr l" if "temporal_literal k q = Inr (l, p')" for k q
    using that advance_tokens [of q] advance_tokens [of "advance q"] advance_tokens [of "advance (advance q)"]
    by (auto simp: temporal_literal_def Let_def with_state_Inr split: if_splits)
  consider "t_kind ?t = tokenString" | "t_kind ?t = tokenNumber" | "t_kind ?t = tokenName"
    using assms by (cases "t_kind ?t") (auto simp: literal_def Let_def)
  then show ?thesis
  proof cases
    case 3
    then have p: "ps_tokens p = ?t # ps_tokens (advance p)" using advance_tokens by simp
    show ?thesis
    proof (cases "keyword p ''TRUE'' \<or> keyword p ''FALSE''")
      case True
      with assms 3 have "NewFilterLiteral FilterBoolean (asciiBoolean (t_text ?t)) = Inr l" "p' = advance p"
        by (auto simp: literal_def Let_def with_state_Inr split: if_splits)
      with p True show ?thesis by (intro exI [of _ "[?t]"]) (auto simp: keyword_def intro: g_boolean)
    next
      case False
      let ?k = "if asciiEqual (t_text ?t) ''TIMESTAMP'' then FilterTimestamp else FilterDate"
      from assms 3 False have k: "keyword p ''DATE'' \<or> keyword p ''TIMESTAMP''" "temporal_literal ?k (advance p) = Inr (l, p')"
        by (auto simp: literal_def Let_def split: if_splits)
      from tl [OF k(2)] obtain a v b where abv: "ps_tokens (advance p) = a # v # b # ps_tokens p'" "t_kind a = tokenOpen"
        "t_kind v = tokenString" "t_kind b = tokenClose" "NewFilterLiteral ?k (t_text v) = Inr l" by blast
      with p k(1) show ?thesis
        by (intro exI [of _ "[?t, a, v, b]"]) (auto simp: keyword_def is_keyword_def intro: g_date g_timestamp split: if_splits)
    qed
  qed (use assms advance_tokens [of p] in \<open>auto simp: literal_def Let_def with_state_Inr intro!: exI [of _ "[?t]"] intro: g_string g_number\<close>)
qed

lemma property_predicate_sound:
  assumes "property_predicate t p = Inr (x, p')" "g_name t"
  shows "\<exists>ts. ps_tokens p = ts @ ps_tokens p' \<and> g_predicate (t # ts) (pn_node x)"
proof (cases "keyword p ''IS''")
  case True
  let ?p1 = "advance p"
  let ?p2 = "if keyword ?p1 ''NOT'' then advance ?p1 else ?p1"
  from assms True have n: "keyword ?p2 ''NULL''"
    and m: "makeNode (advance ?p2) (leaf_node (if keyword ?p1 ''NOT'' then FilterIsNotNull else FilterIsNull)
      FilterComparisonInvalid (t_text t) no_literal False) 1 = Inr (x, p')"
    by (auto simp: property_predicate_def Let_def split: if_splits)
  note tk = keyword_tokens [OF True] keyword_tokens [OF n] makeNode_Inr [OF m]
  show ?thesis
  proof (cases "keyword ?p1 ''NOT''")
    case nt: True
    with tk keyword_tokens [OF nt] keyword_current [OF True] keyword_current [OF n] keyword_current [OF nt] assms(2)
    show ?thesis
      by (intro exI [of _ "[current p, current ?p1, current ?p2]"]) (auto intro: g_is_not_null)
  next
    case False
    with tk keyword_current [OF True] keyword_current [OF n] assms(2) show ?thesis
      by (intro exI [of _ "[current p, current ?p2]"]) (auto intro: g_is_null)
  qed
next
  case False
  let ?o = "current p"
  from assms(1) False obtain oper l q where o: "t_kind ?o = tokenOperator" "compare_operator (t_text ?o) = Some oper"
    "literal (advance p) = Inr (l, q)" "makeNode q (leaf_node FilterCompare oper (t_text t) l False) 1 = Inr (x, p')"
    by (auto simp: property_predicate_def Let_def split: if_splits)
  from literal_sound [OF o(3)] obtain ts where ts: "ps_tokens (advance p) = ts @ ps_tokens q" "g_literal ts l" by blast
  have "ps_tokens p = ?o # ps_tokens (advance p)" using advance_tokens o(1) by simp
  with ts makeNode_Inr [OF o(4)] o(1,2) assms(2) show ?thesis
    by (intro exI [of _ "?o # ts"]) (auto intro: g_compare)
qed

lemma predicate_sound:
  assumes "predicate p = Inr (x, p')"
  shows "\<exists>ts. ps_tokens p = ts @ ps_tokens p' \<and> g_predicate ts (pn_node x)"
proof (cases "keyword p ''TRUE'' \<or> keyword p ''FALSE''")
  case True
  then have k: "is_keyword (current p) ''TRUE'' \<or> is_keyword (current p) ''FALSE''" "t_kind (current p) = tokenName"
    by (auto simp: keyword_def is_keyword_def)
  from assms True have m: "makeNode (advance p) (leaf_node FilterBooleanConstant FilterComparisonInvalid [] no_literal
      (asciiEqual (t_text (current p)) ''TRUE'')) 1 = Inr (x, p')"
    by (auto simp: predicate_def Let_def split: if_splits)
  have "asciiEqual (t_text (current p)) ''TRUE'' = is_keyword (current p) ''TRUE''" using k(2) by (simp add: is_keyword_def)
  with makeNode_Inr [OF m] k advance_tokens [of p] show ?thesis
    by (intro exI [of _ "[current p]"]) (auto intro: g_constant)
next
  case False
  with assms have g: "g_name (current p)" and pp: "property_predicate (current p) (advance p) = Inr (x, p')"
    by (auto simp: predicate_def g_name_def Let_def split: if_splits)
  have "ps_tokens p = current p # ps_tokens (advance p)" using g advance_tokens by (auto simp: g_name_def)
  with property_predicate_sound [OF pp g] show ?thesis by (metis append_Cons)
qed

lemma and_then_Inr:
  "and_then r k = Some (Inr y) \<longleftrightarrow> (\<exists>x. r = Some (Inr x) \<and> k x = Some (Inr y))"
  by (auto simp: and_then_def split: option.splits sum.splits)

lemma parser_sound:
  "expression n g p = Some (Inr (x, p')) \<Longrightarrow> \<exists>ts. ps_tokens p = ts @ ps_tokens p' \<and> g_expr ts (pn_node x)"
  "or_loop n g left p = Some (Inr (x, p')) \<Longrightarrow> g_expr ts0 (pn_node left) \<Longrightarrow>
     \<exists>ts. ps_tokens p = ts @ ps_tokens p' \<and> g_expr (ts0 @ ts) (pn_node x)"
  "cql_term n g p = Some (Inr (x, p')) \<Longrightarrow> \<exists>ts. ps_tokens p = ts @ ps_tokens p' \<and> g_term ts (pn_node x)"
  "and_loop n g left p = Some (Inr (x, p')) \<Longrightarrow> g_term ts0 (pn_node left) \<Longrightarrow>
     \<exists>ts. ps_tokens p = ts @ ps_tokens p' \<and> g_term (ts0 @ ts) (pn_node x)"
  "factor n g p = Some (Inr (x, p')) \<Longrightarrow> \<exists>ts. ps_tokens p = ts @ ps_tokens p' \<and> g_factor ts (pn_node x)"
proof (induction n arbitrary: g p x p' left ts0)
  case (Suc n)
  { case 1
    then obtain l p1 where t: "cql_term n g p = Some (Inr (l, p1))" and o: "or_loop n g l p1 = Some (Inr (x, p'))"
      by (auto simp: and_then_Inr)
    from Suc(3) [OF t] obtain us where us: "ps_tokens p = us @ ps_tokens p1" "g_term us (pn_node l)" by blast
    from Suc(2) [OF o g_expr_term [OF us(2)]] us(1) show ?case by auto
  next
    case 2
    show ?case
    proof (cases "keyword p ''OR''")
      case True
      with 2(1) obtain r p1 l2 p2 where t: "cql_term n g (advance p) = Some (Inr (r, p1))"
        and m: "makeNode p1 (logical_node FilterOr [pn_node left, pn_node r]) (max (pn_depth left) (pn_depth r) + 1) = Inr (l2, p2)"
        and o: "or_loop n g l2 p2 = Some (Inr (x, p'))"
        by (auto simp: and_then_Inr)
      from Suc(3) [OF t] obtain us where us: "ps_tokens (advance p) = us @ ps_tokens p1" "g_term us (pn_node r)" by blast
      have "g_expr (ts0 @ current p # us) (pn_node l2)"
        using g_expr_or [OF 2(2) _ us(2)] keyword_current [OF True] makeNode_Inr [OF m] by simp
      from Suc(2) [OF o this] us(1) keyword_tokens [OF True] makeNode_Inr [OF m] show ?thesis by auto
    qed (use 2 in auto)
  next
    case 3
    then obtain l p1 where t: "factor n g p = Some (Inr (l, p1))" and o: "and_loop n g l p1 = Some (Inr (x, p'))"
      by (auto simp: and_then_Inr)
    from Suc(5) [OF t] obtain us where us: "ps_tokens p = us @ ps_tokens p1" "g_factor us (pn_node l)" by blast
    from Suc(4) [OF o g_term_factor [OF us(2)]] us(1) show ?case by auto
  next
    case 4
    show ?case
    proof (cases "keyword p ''AND''")
      case True
      with 4(1) obtain r p1 l2 p2 where t: "factor n g (advance p) = Some (Inr (r, p1))"
        and m: "makeNode p1 (logical_node FilterAnd [pn_node left, pn_node r]) (max (pn_depth left) (pn_depth r) + 1) = Inr (l2, p2)"
        and o: "and_loop n g l2 p2 = Some (Inr (x, p'))"
        by (auto simp: and_then_Inr)
      from Suc(5) [OF t] obtain us where us: "ps_tokens (advance p) = us @ ps_tokens p1" "g_factor us (pn_node r)" by blast
      have "g_term (ts0 @ current p # us) (pn_node l2)"
        using g_term_and [OF 4(2) _ us(2)] keyword_current [OF True] makeNode_Inr [OF m] by simp
      from Suc(4) [OF o this] us(1) keyword_tokens [OF True] makeNode_Inr [OF m] show ?thesis by auto
    qed (use 4 in auto)
  next
    case 5
    consider (neg) "keyword p ''NOT''" | (group) "\<not> keyword p ''NOT''" "t_kind (current p) = tokenOpen"
      | (pred) "\<not> keyword p ''NOT''" "t_kind (current p) \<noteq> tokenOpen" by blast
    then show ?case
    proof cases
      case neg
      with 5 obtain c p1 where t: "factor n (g + 1) (advance p) = Some (Inr (c, p1))"
        and m: "makeNode p1 (logical_node FilterNot [pn_node c]) (pn_depth c + 1) = Inr (x, p')"
        by (auto simp: and_then_Inr split: if_splits)
      from Suc(5) [OF t] keyword_tokens [OF neg] makeNode_Inr [OF m] keyword_current [OF neg] show ?thesis
        by (metis append_Cons g_factor_not)
    next
      case group
      with 5 obtain c p1 where t: "expression n (g + 1) (advance p) = Some (Inr (c, p1))" and m: "close_group c p1 = Inr (x, p')"
        by (auto simp: and_then_Inr split: if_splits)
      from m have c: "x = c" "t_kind (current p1) = tokenClose" "p' = advance p1"
        by (auto simp: close_group_def split: if_splits)
      then have "ps_tokens p1 = current p1 # ps_tokens p'" using advance_tokens by simp
      with Suc(1) [OF t] advance_tokens [of p] group(2) c show ?thesis
        by (metis append.assoc append_Cons append_Nil g_factor_group tokenKind.distinct(11))
    next
      case pred
      with 5 have "predicate p = Inr (x, p')" by (auto split: if_splits)
      from predicate_sound [OF this] show ?thesis by (blast intro: g_factor_predicate)
    qed }
qed simp_all

lemma parser_tokens_shrink:
  "expression n g p = Some (Inr (x, p')) \<Longrightarrow> length (ps_tokens p') \<le> length (ps_tokens p)"
  "cql_term n g p = Some (Inr (x, p')) \<Longrightarrow> length (ps_tokens p') \<le> length (ps_tokens p)"
  "factor n g p = Some (Inr (x, p')) \<Longrightarrow> length (ps_tokens p') \<le> length (ps_tokens p)"
  using parser_sound(1,3,5) [of n g p x p'] by auto

text \<open>Enough fuel for the tokens that are left.\<close>

lemma parser_total:
  "3 * length (ps_tokens p) + 3 \<le> n \<Longrightarrow> expression n g p \<noteq> None"
  "3 * length (ps_tokens p) + 2 \<le> n \<Longrightarrow> or_loop n g left p \<noteq> None"
  "3 * length (ps_tokens p) + 2 \<le> n \<Longrightarrow> cql_term n g p \<noteq> None"
  "3 * length (ps_tokens p) + 1 \<le> n \<Longrightarrow> and_loop n g left p \<noteq> None"
  "3 * length (ps_tokens p) + 1 \<le> n \<Longrightarrow> factor n g p \<noteq> None"
proof (induction n arbitrary: g p left)
  case (Suc n)
  { case 1
    have "cql_term n g p \<noteq> None" using Suc(3) 1 by simp
    moreover have "or_loop n g l p1 \<noteq> None" if "cql_term n g p = Some (Inr (l, p1))" for l p1
      using Suc(2) [of p1] parser_tokens_shrink(2) [OF that] 1 by simp
    ultimately show ?case by (auto simp: and_then_def split: option.splits sum.splits)
  next
    case 2
    show ?case
    proof (cases "keyword p ''OR''")
      case True
      have a: "length (ps_tokens p) = Suc (length (ps_tokens (advance p)))" using keyword_tokens [OF True] by (metis length_Cons)
      have "cql_term n g (advance p) \<noteq> None" using Suc(3) [of "advance p"] 2 a by simp
      moreover have "or_loop n g l2 p2 \<noteq> None"
        if "cql_term n g (advance p) = Some (Inr (r, p1))" "makeNode p1 x d = Inr (l2, p2)" for r p1 x d l2 p2
        using Suc(2) [of p2] parser_tokens_shrink(2) [OF that(1)] makeNode_Inr [OF that(2)] 2 a by simp
      ultimately show ?thesis using True by (auto simp: and_then_def split: option.splits sum.splits)
    qed simp
  next
    case 3
    have "factor n g p \<noteq> None" using Suc(5) 3 by simp
    moreover have "and_loop n g l p1 \<noteq> None" if "factor n g p = Some (Inr (l, p1))" for l p1
      using Suc(4) [of p1] parser_tokens_shrink(3) [OF that] 3 by simp
    ultimately show ?case by (auto simp: and_then_def split: option.splits sum.splits)
  next
    case 4
    show ?case
    proof (cases "keyword p ''AND''")
      case True
      have a: "length (ps_tokens p) = Suc (length (ps_tokens (advance p)))" using keyword_tokens [OF True] by (metis length_Cons)
      have "factor n g (advance p) \<noteq> None" using Suc(5) [of "advance p"] 4 a by simp
      moreover have "and_loop n g l2 p2 \<noteq> None"
        if "factor n g (advance p) = Some (Inr (r, p1))" "makeNode p1 x d = Inr (l2, p2)" for r p1 x d l2 p2
        using Suc(4) [of p2] parser_tokens_shrink(3) [OF that(1)] makeNode_Inr [OF that(2)] 4 a by simp
      ultimately show ?thesis using True by (auto simp: and_then_def split: option.splits sum.splits)
    qed simp
  next
    case 5
    have o: "expression n (g + 1) (advance p) \<noteq> None" if "t_kind (current p) = tokenOpen"
    proof -
      have "length (ps_tokens p) = Suc (length (ps_tokens (advance p)))"
        using advance_tokens [of p] that by (metis length_Cons tokenKind.distinct(11))
      then show ?thesis using Suc(1) [of "advance p"] 5 by simp
    qed
    have f: "factor n (g + 1) (advance p) \<noteq> None" if "keyword p ''NOT''"
    proof -
      have "length (ps_tokens p) = Suc (length (ps_tokens (advance p)))" using keyword_tokens [OF that] by (metis length_Cons)
      then show ?thesis using Suc(5) [of "advance p"] 5 by simp
    qed
    show ?case using o f by (auto simp: and_then_def split: option.splits sum.splits)
  }
qed simp_all

text \<open>
  C25. The parser terminates on every input: \<open>Parse\<close> gives a filter or an error, never running out
  of the fuel it is supplied with.
\<close>

theorem parse_terminates: "\<exists>r. Parse text = Some r"
proof (cases "lex text")
  case (Inr ts)
  have "expression (parse_fuel ts) 0 \<lparr>ps_tokens = ts, ps_nodes = 0\<rparr> \<noteq> None"
    by (rule parser_total) (simp add: parse_fuel_def)
  then show ?thesis using Inr
    by (auto simp: Parse_def and_then_def split: option.splits sum.splits)
qed (simp add: Parse_def)

section \<open>Tokens\<close>

definition runes :: "string \<Rightarrow> nat list" where
  "runes s = map snd (runes_at 0 s)"

lemma runes_Nil [simp]: "runes [] = []"
  by (simp add: runes_def)

lemma runes_rune:
  "s \<noteq> [] \<Longrightarrow> DecodeRune s \<noteq> (RuneError, 1) \<Longrightarrow>
     runes (take (snd (DecodeRune s)) s @ t) = fst (DecodeRune s) # runes t"
  using map_snd_runes_at [of "snd (DecodeRune s)" t 0] by (simp add: runes_def rune_append(1))

lemma scan_name_runes:
  "ValidString s \<Longrightarrow> ValidString (fst (scan_name s)) \<and> ValidString (snd (scan_name s)) \<and> list_all namePart (runes (fst (scan_name s)))"
proof (induction s rule: scan_name.induct)
  case (1 s)
  show ?case
  proof (cases "s = [] \<or> \<not> namePart (fst (DecodeRune s))")
    case True
    then show ?thesis using "1.prems" by (subst (1 2 3) scan_name.simps) auto
  next
    case False
    let ?w = "snd (DecodeRune s)"
    have v: "DecodeRune s \<noteq> (RuneError, 1)" "ValidString (drop ?w s)" using ValidString_drop "1.prems" False by auto
    from "1.IH" [OF _ _ refl] v(2) False have ih: "ValidString (fst (scan_name (drop ?w s)))"
      "ValidString (snd (scan_name (drop ?w s)))" "list_all namePart (runes (fst (scan_name (drop ?w s))))" by auto
    have e: "scan_name s = (take ?w s @ fst (scan_name (drop ?w s)), snd (scan_name (drop ?w s)))"
      using False by (subst scan_name.simps) (simp add: Let_def)
    show ?thesis using False v(1) ih by (simp add: e rune_append(2) runes_rune)
  qed
qed

lemma name_runes_False: "name_runes rs False \<longleftrightarrow> list_all namePart rs"
  by (induction rs) auto

lemma scan_quoted_runes:
  "scan_quoted start i len s = Inr (t, rest) \<Longrightarrow> ValidString s \<Longrightarrow>
     ValidString t \<and> ValidString rest \<and> name_runes (runes t) (len = 0) \<and> (t \<noteq> [] \<longrightarrow> len + length t \<le> maxPropertyBytes) \<and>
     (len = 0 \<longrightarrow> t \<noteq> [])"
proof (induction start i len s arbitrary: t rest rule: scan_quoted.induct)
  case (1 start i len s)
  show ?case
  proof (cases "s = [] \<or> hd s = CHR 0x22")
    case True
    with "1.prems" show ?thesis by (subst (asm) scan_quoted.simps) (auto split: if_splits)
  next
    case False
    let ?r = "fst (DecodeRune s)" and ?w = "snd (DecodeRune s)"
    have v: "DecodeRune s \<noteq> (RuneError, 1)" "ValidString (drop ?w s)" using ValidString_drop "1.prems"(2) False by auto
    have w: "0 < ?w" "?w \<le> length s" using DecodeRune_width_pos DecodeRune_width_le False by (metis Suc_le_eq One_nat_def)+
    from "1.prems"(1) False obtain t' where
      r: "scan_quoted start (i + ?w) (len + ?w) (drop ?w s) = Inr (t', rest)" "t = take ?w s @ t'"
      and g: "\<not> (if len = 0 then \<not> nameStart ?r else \<not> namePart ?r)" "\<not> len + ?w > maxPropertyBytes"
      by (subst (asm) scan_quoted.simps) (auto simp: Let_def split: if_splits)
    have "ValidString t' \<and> ValidString rest \<and> name_runes (runes t') (len + ?w = 0) \<and>
        (t' \<noteq> [] \<longrightarrow> len + ?w + length t' \<le> maxPropertyBytes)"
      using "1.IH" [OF False refl refl g r(1) v(2)] by simp
    moreover have "ValidString t = ValidString t'" "runes t = ?r # runes t'" "length t = ?w + length t'" "t \<noteq> []"
      using rune_append(2) [of s t'] runes_rune [of s t'] v(1) False w r(2) by auto
    ultimately show ?thesis using g w by (cases "t' = []") auto
  qed
qed

lemma quoted_loop_valid_step:
  assumes q: "quoted_loop start i s acc = Inr (v, rest)" and vs: "ValidString s"
  shows "ValidString rest \<or> (\<exists>i' s' acc'. quoted_loop start i' s' acc' = Inr (v, rest) \<and> ValidString s' \<and> length s' < length s)"
proof -
  from q have s: "s \<noteq> []" by (subst (asm) quoted_loop.simps) (auto split: if_splits)
  define r where "r = fst (DecodeRune s)"
  define t where "t = drop (snd (DecodeRune s)) s"
  have t: "ValidString t" "length t < length s"
    using ValidString_drop [OF s vs] drop_DecodeRune_less [OF s] by (auto simp: t_def)
  have tt: "ValidString (tl t) \<and> length (tl t) < length s" if "t \<noteq> []" "byte (hd t) < 0x80"
    using t that by (cases t) simp_all
  have esc: "byte c < 0x80" if "escape_value c = Some d" for c d
    using that by (auto simp: escape_value_def split: if_splits)
  note u = q [unfolded quoted_loop.simps [of start i s] Let_def, folded r_def t_def]
  consider (quote) "r = 0x27" "t \<noteq> []" "hd t = CHR 0x27" | (close) "r = 0x27" "t = [] \<or> hd t \<noteq> CHR 0x27"
    | (escape) "r = 0x5C" | (other) "r \<noteq> 0x27" "r \<noteq> 0x5C" by blast
  then show ?thesis
  proof cases
    case quote
    then have "byte (hd t) < 0x80" by simp
    with u quote s tt show ?thesis by (auto simp del: length_tl split: if_splits)
  next
    case escape
    with u s obtain c j where c: "t \<noteq> []" "escape_value (hd t) = Some c" "quoted_loop start j (tl t) (acc @ [c]) = Inr (v, rest)"
      by (auto split: if_splits option.splits)
    with tt [OF c(1) esc [OF c(2)]] show ?thesis by blast
  qed (use u s t in \<open>auto split: if_splits\<close>)
qed

lemma quoted_loop_valid: "quoted_loop start i s acc = Inr (v, rest) \<Longrightarrow> ValidString s \<Longrightarrow> ValidString rest"
proof (induction "length s" arbitrary: i s acc rule: less_induct)
  case less
  from quoted_loop_valid_step [OF less.prems] less.hyps show ?case by blast
qed

lemma tl_valid: "s \<noteq> [] \<Longrightarrow> ValidString s \<Longrightarrow> byte (hd s) < 0x80 \<Longrightarrow> ValidString (tl s)"
  by (cases s) simp_all

lemma numberEnd_ascii: "list_all (\<lambda>c. byte c < 0x80) (fst (numberEnd s))"
proof -
  have d: "list_all (\<lambda>c. byte c < 0x80) (fst (digit_part s))" for s
    by (auto simp: digit_part_def list_all_iff is_digit_def dest: set_takeWhileD)
  have o: "list_all (\<lambda>c. byte c < 0x80) (fst (opt_sign s))" for s
    by (auto simp: opt_sign_def split: list.splits)
  have "list_all (\<lambda>c. byte c < 0x80) (fst (dot_part s))" "list_all (\<lambda>c. byte c < 0x80) (fst (exp_part s))" for s
    using d o by (auto simp: dot_part_def exp_part_def split: list.splits)
  with d o show ?thesis by (simp add: numberEnd_def split_beta)
qed

lemma numberEnd_valid: "ValidString s \<Longrightarrow> ValidString (snd (numberEnd s))"
  using ValidString_append_ascii [OF numberEnd_ascii [of s], of "snd (numberEnd s)"] by (simp add: numberEnd_split)

lemma CanReferenceProperty_runes:
  "CanReferenceProperty n \<longleftrightarrow> n \<noteq> [] \<and> length n \<le> maxPropertyBytes \<and> ValidString n \<and> name_runes (runes n) True"
  by (auto simp: CanReferenceProperty_def runes_def)

text \<open>A token starts where it was read, is never the end token, and a name it carries can be
  referenced.\<close>

definition token_ok :: "nat \<Rightarrow> token \<Rightarrow> bool" where
  "token_ok i t \<longleftrightarrow> t_offset t = i \<and> t_kind t \<noteq> tokenEnd \<and>
     (t_kind t = tokenName \<or> t_kind t = tokenQuotedName \<longrightarrow> CanReferenceProperty (t_text t))"

lemma lex_token_ok:
  assumes s: "s \<noteq> []" and vs: "ValidString s" and tok: "lex_token i s = Inr (tk, rest)"
  shows "token_ok i tk \<and> ValidString rest"
proof -
  define r where "r = fst (DecodeRune s)"
  define w where "w = snd (DecodeRune s)"
  define t where "t = drop w s"
  have v: "DecodeRune s \<noteq> (RuneError, 1)" "ValidString t" using ValidString_drop [OF s vs] by (auto simp: t_def w_def)
  have w: "0 < w" "w \<le> length s" using DecodeRune_width_pos [OF s] DecodeRune_width_le [OF s] by (auto simp: w_def)
  have hd: "byte (hd s) = r" "ValidString (tl s)" if "r < 0x80"
    using that DecodeRune_ascii_head [OF s] tl_valid [OF s vs] by (auto simp: r_def)
  have q: "ValidString x" if "quotedString i s = Inr (u, x)" "r = 0x27" for u x
    using quoted_loop_valid [of i "i + 1" "tl s" "[]"] that hd by (auto simp: quotedString_def)
  have sq: "CanReferenceProperty u \<and> ValidString (tl x)" if "scan_quoted i (i + 1) 0 (tl s) = Inr (u, x)" "r = 0x22" for u x
    using scan_quoted_runes [OF that(1)] scan_quoted_split [OF that(1)] tl_valid [of x] hd that(2) by (auto simp: CanReferenceProperty_runes)
  have n: "CanReferenceProperty (take w s @ fst (scan_name t))" "ValidString (snd (scan_name t))"
    if "nameStart r" "length (take w s @ fst (scan_name t)) \<le> maxPropertyBytes"
    using that scan_name_runes [OF v(2)] rune_append(2) [OF s v(1), folded w_def] runes_rune [OF s v(1), folded w_def r_def] w s
    by (auto simp: CanReferenceProperty_runes name_runes_False)
  have d: "ValidString (drop 2 s)" if "r < 0x80" "tl s \<noteq> []" "byte (hd (tl s)) < 0x80"
    using tl_valid [OF that(2) hd(2) [OF that(1)] that(3)] by (simp add: drop_Suc numeral_2_eq_2)
  show ?thesis
    using tok v(2) hd(2) q sq n d numberEnd_valid [OF vs]
    unfolding lex_token_def Let_def r_def [symmetric] w_def [symmetric] t_def [symmetric] token_ok_def
    by (auto simp: drop_Suc split: if_splits)
qed

text \<open>What the main loop gives from offset \<open>i\<close> with \<open>n\<close> tokens so far, reading to \<open>e\<close>.\<close>

definition tokens_ok :: "nat \<Rightarrow> nat \<Rightarrow> nat \<Rightarrow> token list \<Rightarrow> bool" where
  "tokens_ok i e n us \<longleftrightarrow> n + length us \<le> maxTokens \<and>
     sorted_wrt (\<lambda>a b. t_offset a < t_offset b) us \<and>
     list_all (\<lambda>t. i \<le> t_offset t \<and> t_offset t < e \<and> token_ok (t_offset t) t) us"

lemma tokens_ok_mono: "tokens_ok j e n us \<Longrightarrow> i \<le> j \<Longrightarrow> tokens_ok i e n us"
  by (auto simp: tokens_ok_def list_all_iff)

lemma tokens_ok_Cons:
  "token_ok i t \<Longrightarrow> i < j \<Longrightarrow> i < e \<Longrightarrow> tokens_ok j e (n + 1) us \<Longrightarrow> tokens_ok i e n (t # us)"
  by (fastforce simp: tokens_ok_def list_all_iff token_ok_def)

lemma lex_loop_ok:
  "lex_loop i n s = Inr ts \<Longrightarrow> ValidString s \<Longrightarrow> n \<le> maxTokens \<Longrightarrow>
     \<exists>us. ts = us @ [\<lparr>t_kind = tokenEnd, t_text = [], t_offset = i + length s\<rparr>] \<and> tokens_ok i (i + length s) n us"
proof (induction "length s" arbitrary: i n s ts rule: less_induct)
  case less
  let ?w = "snd (DecodeRune s)"
  show ?case
  proof (cases "s = []")
    case True
    with less.prems show ?thesis by (subst (asm) lex_loop.simps) (auto simp: tokens_ok_def)
  next
    case s: False
    note w = DecodeRune_width_pos [OF s] DecodeRune_width_le [OF s]
    show ?thesis
    proof (cases "cql_space (fst (DecodeRune s))")
      case True
      with less.prems(1) s have "lex_loop (i + ?w) n (drop ?w s) = Inr ts" by (subst (asm) lex_loop.simps) simp
      from less.hyps [OF _ this _ less.prems(3)] ValidString_drop [OF s less.prems(2)] drop_DecodeRune_less [OF s]
      obtain us where "ts = us @ [\<lparr>t_kind = tokenEnd, t_text = [], t_offset = i + ?w + (length s - ?w)\<rparr>]"
        "tokens_ok (i + ?w) (i + ?w + (length s - ?w)) n us" by auto
      with w tokens_ok_mono [of "i + ?w" _ n us i] show ?thesis by auto
    next
      case False
      with less.prems(1) s obtain t rest us' where u: "n < maxTokens" "lex_token i s = Inr (t, rest)"
        "lex_loop (i + (length s - length rest)) (n + 1) rest = Inr us'" "ts = t # us'"
        by (subst (asm) lex_loop.simps) (auto split: if_splits sum.splits)
      have r: "length rest < length s" using lex_token_shorter [OF s u(2)] .
      have k: "token_ok i t" "ValidString rest" using lex_token_ok [OF s less.prems(2) u(2)] by auto
      from less.hyps [OF r u(3) k(2)] u(1) r obtain us where us:
        "us' = us @ [\<lparr>t_kind = tokenEnd, t_text = [], t_offset = i + length s\<rparr>]"
        "tokens_ok (i + (length s - length rest)) (i + length s) (n + 1) us" by auto
      have "i < i + (length s - length rest)" "i < i + length s" using r by auto
      from tokens_ok_Cons [OF k(1) this us(2)] us(1) u(4) show ?thesis by (intro exI [of _ "t # us"]) simp
    qed
  qed
qed

end
