(* ===== verification/Cql2_Sound.thy ===== *)
theory Cql2_Sound
  imports Cql2_Correct
begin

text \<open>
  Properties of the CQL2 front end as a whole: the tokens of a text, soundness of \<open>Parse\<close> for the
  grammar, and the round trip of quoted string literals.
\<close>

section \<open>Tokens and trees\<close>

lemmas cql_eval = maxInputBytes_def maxTokens_def maxPropertyBytes_def maxLiteralBytes_def nameStart_def namePart_def
  cql_space_def scan_name.simps numberEnd_def opt_sign_def digit_part_def dot_part_def exp_part_def is_digit_def

lemmas parse_eval = keyword_def is_keyword_def asciiEqual_def asciiUpper_def ascii_upper_char_def current_def advance_def
  predicate_def property_predicate_def reserved_def reserved_words_def makeNode_def maxASTDepth_def maxASTNodes_def
  finish_parse_def NewFilterExpression_def clone_id leaf_node_def charge_node_def check_shape_def fresh_budget_def
  MaxFilterDepth_def MaxFilterNodes_def MaxFilterPropertyBytes_def MaxFilterBytes_def Let_def no_literal_def
  validFilterProperty_def TrimSpace_Nil_iff runes_at_ascii IsSpace_def

text \<open>
  The tokens of an accepted text lie inside it in strictly increasing order, at most 8192 of
  them, followed by one end token at the length of the text; no other token is an end token, and
  every name they carry can be referenced as a property.
\<close>

theorem lex_tokens_in_order:
  assumes "lex input = Inr ts"
  shows "\<exists>us. ts = us @ [\<lparr>t_kind = tokenEnd, t_text = [], t_offset = length input\<rparr>] \<and>
      length us \<le> maxTokens \<and> length input \<le> maxInputBytes \<and>
      sorted_wrt (\<lambda>a b. t_offset a < t_offset b) ts \<and>
      (\<forall>t\<in>set us. t_kind t \<noteq> tokenEnd \<and>
         (t_kind t = tokenName \<or> t_kind t = tokenQuotedName \<longrightarrow> CanReferenceProperty (t_text t)))"
proof -
  from assms have "lex_loop 0 0 input = Inr ts" "ValidString input" "length input \<le> maxInputBytes"
    by (auto simp: lex_def split: if_splits)
  with lex_loop_ok [of 0 0 input ts] obtain us where
    "ts = us @ [\<lparr>t_kind = tokenEnd, t_text = [], t_offset = length input\<rparr>]" "tokens_ok 0 (length input) 0 us" by auto
  with \<open>length input \<le> maxInputBytes\<close> show ?thesis
    by (intro exI [of _ us]) (auto simp: tokens_ok_def sorted_wrt_append list_all_iff token_ok_def)
qed

theorem lex_tokens_in_order_witness:
  "lex ''a>=-1.5'' = Inr [\<lparr>t_kind = tokenName, t_text = ''a'', t_offset = 0\<rparr>, \<lparr>t_kind = tokenOperator, t_text = ''>='', t_offset = 1\<rparr>,
      \<lparr>t_kind = tokenNumber, t_text = ''-1.5'', t_offset = 3\<rparr>, \<lparr>t_kind = tokenEnd, t_text = [], t_offset = 7\<rparr>] \<and>
   CanReferenceProperty ''a''"
proof -
  have l: "lex ''a>=-1.5'' = Inr [\<lparr>t_kind = tokenName, t_text = ''a'', t_offset = 0\<rparr>, \<lparr>t_kind = tokenOperator, t_text = ''>='', t_offset = 1\<rparr>,
      \<lparr>t_kind = tokenNumber, t_text = ''-1.5'', t_offset = 3\<rparr>, \<lparr>t_kind = tokenEnd, t_text = [], t_offset = 7\<rparr>]"
    by (simp add: lex_def lex_loop.simps lex_token_def cql_eval)
  from lex_tokens_in_order [OF l] l show ?thesis by auto
qed

text \<open>The properties a tree compares or tests for null.\<close>

fun refs_ok :: "FilterNode \<Rightarrow> bool" where
  "refs_ok (FilterNode k oper p l bl cs) \<longleftrightarrow>
     (k \<in> {FilterCompare, FilterIsNull, FilterIsNotNull} \<longrightarrow> CanReferenceProperty p) \<and> list_all refs_ok cs"

lemma grammar_refs:
  "g_predicate ts n \<Longrightarrow> list_all (\<lambda>t. token_ok (t_offset t) t) ts \<Longrightarrow> refs_ok n"
  by (induction rule: g_predicate.induct) (auto simp: leaf_node_def token_ok_def g_name_def)

lemma grammar_refs_ok:
  "g_expr ts n \<Longrightarrow> list_all (\<lambda>t. token_ok (t_offset t) t) ts \<longrightarrow> refs_ok n"
  "g_term ts n \<Longrightarrow> list_all (\<lambda>t. token_ok (t_offset t) t) ts \<longrightarrow> refs_ok n"
  "g_factor ts n \<Longrightarrow> list_all (\<lambda>t. token_ok (t_offset t) t) ts \<longrightarrow> refs_ok n"
  by (induction rule: g_expr_g_term_g_factor.inducts) (auto simp: logical_node_def dest: grammar_refs)

lemma grammar_no_end:
  "g_expr ts n \<Longrightarrow> list_all (\<lambda>t. t_kind t \<noteq> tokenEnd) ts"
  "g_term ts n \<Longrightarrow> list_all (\<lambda>t. t_kind t \<noteq> tokenEnd) ts"
  "g_factor ts n \<Longrightarrow> list_all (\<lambda>t. t_kind t \<noteq> tokenEnd) ts"
  by (induction rule: g_expr_g_term_g_factor.inducts) (auto simp: is_keyword_def g_name_def elim!: g_predicate.cases g_literal.cases)

lemma tokens_consumed:
  assumes eq: "us @ [e] = ts @ rs" and us: "list_all (\<lambda>t. t_kind t \<noteq> tokenEnd) us"
    and ts: "list_all (\<lambda>t. t_kind t \<noteq> tokenEnd) ts" and e: "t_kind e = tokenEnd" and r: "rs = r # rs'" "t_kind r = tokenEnd"
  shows "ts = us"
proof -
  from eq r(1) consider vs where "us = ts @ r # vs" | "rs = [e]" "ts = us"
    by (auto simp: append_eq_append_conv2 append_eq_Cons_conv Cons_eq_append_conv)
  then show ?thesis by cases (use us r(2) in auto)
qed

text \<open>
  C24. What \<open>Parse\<close> accepts is a sentence of the grammar: the tokens of the text before the end
  token derive the returned tree, every property the tree compares or tests for null can be
  referenced, and the returned filter validates.
\<close>

theorem parse_sound:
  assumes "Parse input = Some (Inr e)"
  shows "\<exists>us. lex input = Inr (us @ [\<lparr>t_kind = tokenEnd, t_text = [], t_offset = length input\<rparr>]) \<and>
      g_expr us (fe_root e) \<and> refs_ok (fe_root e) \<and> FilterExpression_Validate e = Inr ()"
proof -
  let ?stop = "\<lparr>t_kind = tokenEnd, t_text = [], t_offset = length input\<rparr>"
  from assms obtain ts x p where x: "lex input = Inr ts"
    "expression (parse_fuel ts) 0 \<lparr>ps_tokens = ts, ps_nodes = 0\<rparr> = Some (Inr (x, p))" "finish_parse x p = Inr e"
    by (auto simp: Parse_def and_then_def split: sum.splits option.splits)
  from x(3) have e: "t_kind (current p) = tokenEnd" "NewFilterExpression (pn_node x) = Inr e"
    by (auto simp: finish_parse_def split: if_splits)
  from x(1) have "lex_loop 0 0 input = Inr ts" "ValidString input" by (auto simp: lex_def split: if_splits)
  with lex_loop_ok [of 0 0 input ts] obtain us where us: "ts = us @ [?stop]" "list_all (\<lambda>t. token_ok (t_offset t) t) us"
    by (auto simp: tokens_ok_def list_all_iff)
  from parser_sound(1) [OF x(2)] obtain vs where vs: "ts = vs @ ps_tokens p" "g_expr vs (pn_node x)" by auto
  have "vs = us"
  proof (cases "ps_tokens p")
    case Nil
    with us(1) vs(1) grammar_no_end(1) [OF vs(2)] show ?thesis by auto
  next
    case (Cons r rs)
    with tokens_consumed [of us ?stop vs "ps_tokens p" r rs] us vs grammar_no_end(1) [OF vs(2)] e(1) show ?thesis
      by (auto simp: current_def list_all_iff token_ok_def)
  qed
  moreover have "fe_root e = pn_node x" "FilterExpression_Validate e = Inr ()"
    using e(2) by (auto simp: NewFilterExpression_def FilterExpression_Validate_def clone_id split: sum.splits)
  ultimately show ?thesis using us vs(2) x(1) grammar_refs_ok(1) [OF vs(2)] by auto
qed

theorem parse_sound_witness:
  "Parse ''a IS NULL'' = Some (Inr \<lparr>fe_root = leaf_node FilterIsNull FilterComparisonInvalid ''a'' no_literal False, fe_valid = True\<rparr>) \<and>
   refs_ok (leaf_node FilterIsNull FilterComparisonInvalid ''a'' no_literal False)"
proof -
  have l: "lex ''a IS NULL'' = Inr [\<lparr>t_kind = tokenName, t_text = ''a'', t_offset = 0\<rparr>, \<lparr>t_kind = tokenName, t_text = ''IS'', t_offset = 2\<rparr>,
      \<lparr>t_kind = tokenName, t_text = ''NULL'', t_offset = 5\<rparr>, \<lparr>t_kind = tokenEnd, t_text = [], t_offset = 9\<rparr>]"
    by (simp add: lex_def lex_loop.simps lex_token_def cql_eval)
  have p: "Parse ''a IS NULL'' = Some (Inr \<lparr>fe_root = leaf_node FilterIsNull FilterComparisonInvalid ''a'' no_literal False, fe_valid = True\<rparr>)"
    by (simp add: Parse_def l parse_fuel_def and_then_def eval_nat_numeral parse_eval)
  from parse_sound [OF p] p show ?thesis by auto
qed

section \<open>String literals\<close>

text \<open>A text as a literal: quotes and backslashes doubled.\<close>

fun escape_string :: "string \<Rightarrow> string" where
  "escape_string [] = []"
| "escape_string (c # t) = (if c = CHR 0x27 \<or> c = CHR 0x5C then c # c # escape_string t else c # escape_string t)"

definition quote_string :: "string \<Rightarrow> string" where
  "quote_string s = CHR 0x27 # escape_string s @ [CHR 0x27]"

lemma escape_string_high:
  "list_all (\<lambda>c. 0x80 \<le> byte c) a \<Longrightarrow> escape_string (a @ s) = a @ escape_string s"
  by (induction a) auto

lemma escape_string_wide:
  "s \<noteq> [] \<Longrightarrow> DecodeRune s \<noteq> (RuneError, 1) \<Longrightarrow> 0x80 \<le> fst (DecodeRune s) \<Longrightarrow>
     escape_string s = take (snd (DecodeRune s)) s @ escape_string (drop (snd (DecodeRune s)) s)"
proof -
  assume s: "s \<noteq> []" "DecodeRune s \<noteq> (RuneError, 1)" "0x80 \<le> fst (DecodeRune s)"
  then have "list_all (\<lambda>c. 0x80 \<le> byte c) (take (snd (DecodeRune s)) s)"
    by (cases s rule: DecodeRune_cases) (simp_all add: cont_byte_def second_ok_def split: if_splits)
  from escape_string_high [OF this] show ?thesis by (metis append_take_drop_id)
qed

lemma quoted_loop_escape:
  "ValidString s \<Longrightarrow> list_all (\<lambda>r. \<not> bad_string_rune r) (runes s) \<Longrightarrow> length acc + length s \<le> maxLiteralBytes \<Longrightarrow>
     rest = [] \<or> hd rest \<noteq> CHR 0x27 \<Longrightarrow>
     quoted_loop start i (escape_string s @ CHR 0x27 # rest) acc = Inr (acc @ s, rest)"
proof (induction "length s" arbitrary: s i acc rule: less_induct)
  case less
  let ?r = "fst (DecodeRune s)" and ?w = "snd (DecodeRune s)"
  show ?case
  proof (cases "s = []")
    case True
    then show ?thesis using less.prems by (subst quoted_loop.simps) auto
  next
    case s: False
    have v: "DecodeRune s \<noteq> (RuneError, 1)" "ValidString (drop ?w s)" using ValidString_drop [OF s less.prems(1)] by auto
    note w = DecodeRune_width_pos [OF s] DecodeRune_width_le [OF s]
    have rs: "runes s = ?r # runes (drop ?w s)" using runes_rune [OF s v(1), of "drop ?w s"] by simp
    have ih: "quoted_loop start j (escape_string (drop ?w s) @ CHR 0x27 # rest) (acc @ take ?w s) = Inr (acc @ s, rest)" for j
      using less.hyps [of "drop ?w s" "acc @ take ?w s" j] less.prems v(2) rs w s by auto
    show ?thesis
    proof (cases "?r < 0x80")
      case True
      then obtain c t where c: "s = c # t" "DecodeRune s = (byte c, 1)" "byte c < 0x80"
        using DecodeRune_ascii_head [OF s] s by (cases s) auto
      have e: "EncodeRune (byte c) = [c]" using c(3) by (simp add: EncodeRune_def)
      from rs c less.prems(2) have b: "\<not> bad_string_rune (byte c)" by auto
      have q: "byte c = 0x27 \<longleftrightarrow> c = CHR 0x27" "byte c = 0x5C \<longleftrightarrow> c = CHR 0x5C" by (auto simp: eq_char_iff)
      show ?thesis
        using ih c less.prems(3) e b q by (subst quoted_loop.simps) (auto simp: escape_value_def)
    next
      case False
      have e: "EncodeRune ?r = take ?w s" using EncodeRune_DecodeRune [OF s v(1)] .
      have d: "DecodeRune (take ?w s @ x) = DecodeRune s" for x using DecodeRune_take_width [OF s v(1)] .
      have "take ?w s \<noteq> []" using w s by auto
      with ih False e d [of "escape_string (drop ?w s) @ CHR 0x27 # rest"] rs less.prems(2,3) w show ?thesis
        by (subst quoted_loop.simps) (auto simp: escape_string_wide [OF s v(1)])
    qed
  qed
qed

text \<open>
  A quoted text reads back as itself: for valid UTF-8 without control characters the lexer
  refuses, up to the literal limit, \<open>quotedString\<close> on the quoted form gives the text and leaves
  what follows, unless that starts with another quote.
\<close>

theorem quoted_string_roundtrip:
  assumes "ValidString s" "list_all (\<lambda>r. \<not> bad_string_rune r) (runes s)" "length s \<le> maxLiteralBytes"
    and "rest = [] \<or> hd rest \<noteq> CHR 0x27"
  shows "quotedString start (quote_string s @ rest) = Inr (s, rest)"
  using quoted_loop_escape [of s "[]" rest start "start + 1"] assms by (simp add: quotedString_def quote_string_def)

theorem quoted_string_roundtrip_witness:
  "quote_string [CHR 0x27, CHR ''x'', CHR 0x5C] = [CHR 0x27, CHR 0x27, CHR 0x27, CHR ''x'', CHR 0x5C, CHR 0x5C, CHR 0x27] \<and>
   quotedString 4 (quote_string [CHR 0x27, CHR ''x'', CHR 0x5C] @ '' AND'') = Inr ([CHR 0x27, CHR ''x'', CHR 0x5C], '' AND'')"
  using quoted_string_roundtrip [of "[CHR 0x27, CHR ''x'', CHR 0x5C]" "'' AND''" 4]
  by (simp add: quote_string_def runes_def bad_string_rune_def maxLiteralBytes_def)

end
