(* ===== verification/Json_Text.thy ===== *)
theory Json_Text
  imports Feature_Identity "HOL-Library.Char_ord" "HOL-Library.List_Lexorder" "HOL-Library.Finite_Map"
begin

text \<open>
  JSON values as the server handles them, and the parts of \<^verbatim>\<open>encoding/json\<close> it calls: the decoder
  with \<^verbatim>\<open>UseNumber\<close>, its token stream, \<^verbatim>\<open>json.Valid\<close> and \<^verbatim>\<open>json.Marshal\<close>. A document is read in
  three steps: \<open>json_lex\<close> splits the text into tokens, \<open>build\<close> assembles a tree that keeps the
  order and repetition of object members, and \<open>value_of\<close> turns it into a value, where the last
  member of a name wins. Marshalling a value and decoding the text gives the value back.
\<close>

section \<open>Values\<close>

text \<open>A tree as written.\<close>

datatype raw =
    RNull
  | RBool bool
  | RNumber string
  | RString string
  | RArray "raw list"
  | RObject "(string \<times> raw) list"

text \<open>
  A value of type \<^verbatim>\<open>any\<close>. \<open>JNumber\<close> is a \<^verbatim>\<open>json.Number\<close> with its literal text. \<open>JNative\<close> is any
  other Go scalar, such as a number read from a database: whether it is a \<^verbatim>\<open>float64\<close>, and what it
  marshals to, if it can be marshalled.
\<close>

datatype json =
    JNull
  | JBool bool
  | JNumber string
  | JNative bool "raw option"
  | JString string
  | JArray "json list"
  | JObject "(string, json) fmap"

primrec value_of :: "raw \<Rightarrow> json" where
  "value_of RNull = JNull"
| "value_of (RBool b) = JBool b"
| "value_of (RNumber t) = JNumber t"
| "value_of (RString t) = JString t"
| "value_of (RArray xs) = JArray (map value_of xs)"
| "value_of (RObject ps) = JObject (fmap_of_list (rev (map (map_prod id value_of) ps)))"

section \<open>Strings\<close>

text \<open>The four hexadecimal digits of an escape that starts \<open>s\<close>.\<close>

definition get_u4 :: "string \<Rightarrow> nat option" where
  "get_u4 s = (case s of
       x # y # a # b # c # d # _ \<Rightarrow>
         if x = CHR 0x5C \<and> y = CHR ''u'' then
           (case (hex_val a, hex_val b, hex_val c, hex_val d) of
              (Some p, Some q, Some r, Some t) \<Rightarrow> Some (4096 * p + 256 * q + 16 * r + t)
            | _ \<Rightarrow> None)
         else None
     | _ \<Rightarrow> None)"

definition surrogate :: "nat \<Rightarrow> bool" where
  "surrogate r \<longleftrightarrow> 0xD800 \<le> r \<and> r < 0xE000"

definition surrogate_pair :: "nat \<Rightarrow> string \<Rightarrow> nat option" where
  "surrogate_pair r s = (case get_u4 s of
       Some r1 \<Rightarrow> if r < 0xDC00 \<and> 0xDC00 \<le> r1 \<and> r1 < 0xE000
                  then Some ((r - 0xD800) * 1024 + (r1 - 0xDC00) + 0x10000) else None
     | None \<Rightarrow> None)"

definition json_escape :: "char \<Rightarrow> char option" where
  "json_escape c =
     (if c = CHR 0x22 \<or> c = CHR 0x5C \<or> c = CHR ''/'' then Some c
      else if c = CHR ''b'' then Some (CHR 0x08)
      else if c = CHR ''f'' then Some (CHR 0x0C)
      else if c = CHR ''n'' then Some (CHR 0x0A)
      else if c = CHR ''r'' then Some (CHR 0x0D)
      else if c = CHR ''t'' then Some (CHR 0x09)
      else None)"

abbreviation prepend :: "string \<Rightarrow> (string \<times> string) option \<Rightarrow> (string \<times> string) option" where
  "prepend a r \<equiv> map_option (map_prod ((@) a) id) r"

text \<open>The contents of a string literal after its opening quote, and what follows the closing one.\<close>

function scan_string :: "string \<Rightarrow> (string \<times> string) option" where
  "scan_string s =
     (if s = [] then None
      else if hd s = CHR 0x22 then Some ([], tl s)
      else if hd s = CHR 0x5C then
        (if tl s = [] then None
         else if hd (tl s) = CHR ''u'' then
           (case get_u4 s of
              None \<Rightarrow> None
            | Some r \<Rightarrow>
                if surrogate r then
                  (case surrogate_pair r (drop 6 s) of
                     Some d \<Rightarrow> prepend (EncodeRune d) (scan_string (drop 12 s))
                   | None \<Rightarrow> prepend (EncodeRune RuneError) (scan_string (drop 6 s)))
                else prepend (EncodeRune r) (scan_string (drop 6 s)))
         else (case json_escape (hd (tl s)) of
              None \<Rightarrow> None
            | Some d \<Rightarrow> prepend [d] (scan_string (drop 2 s))))
      else if byte (hd s) < 0x20 then None
      else prepend (EncodeRune (fst (DecodeRune s))) (scan_string (drop (snd (DecodeRune s)) s)))"
  by pat_completeness auto
termination
  by (relation "measure length") (auto simp: drop_DecodeRune_less)

declare scan_string.simps [simp del]

section \<open>Numbers\<close>

definition scan_int :: "string \<Rightarrow> (string \<times> string) option" where
  "scan_int s = (case s of
       c # t \<Rightarrow> if c = CHR ''0'' then Some ([c], t)
                else if is_digit c then Some (c # takeWhile is_digit t, dropWhile is_digit t) else None
     | [] \<Rightarrow> None)"

definition scan_digits :: "string \<Rightarrow> (string \<times> string) option" where
  "scan_digits s = (if takeWhile is_digit s = [] then None else Some (takeWhile is_digit s, dropWhile is_digit s))"

definition scan_frac :: "string \<Rightarrow> (string \<times> string) option" where
  "scan_frac s = (case s of
       c # t \<Rightarrow> if c = CHR ''.'' then prepend [c] (scan_digits t) else Some ([], s)
     | [] \<Rightarrow> Some ([], s))"

definition scan_exp :: "string \<Rightarrow> (string \<times> string) option" where
  "scan_exp s = (case s of
       c # t \<Rightarrow>
         if c = CHR ''e'' \<or> c = CHR ''E'' then
           (if t \<noteq> [] \<and> (hd t = CHR ''+'' \<or> hd t = CHR ''-'') then prepend [c, hd t] (scan_digits (tl t))
            else prepend [c] (scan_digits t))
         else Some ([], s)
     | [] \<Rightarrow> Some ([], s))"

text \<open>The longest number that starts \<open>s\<close>.\<close>

definition scan_number :: "string \<Rightarrow> (string \<times> string) option" where
  "scan_number s =
     (let (m, s0) = (if s \<noteq> [] \<and> hd s = CHR ''-'' then ([hd s], tl s) else ([], s))
      in case scan_int s0 of
           None \<Rightarrow> None
         | Some (a, s1) \<Rightarrow> (case scan_frac s1 of
             None \<Rightarrow> None
           | Some (b, s2) \<Rightarrow> (case scan_exp s2 of
               None \<Rightarrow> None
             | Some (c, s3) \<Rightarrow> Some (m @ a @ b @ c, s3))))"

definition isValidNumber :: "string \<Rightarrow> bool" where
  "isValidNumber s \<longleftrightarrow> scan_number s = Some (s, [])"

lemma prepend_Some: "prepend a r = Some (t, u) \<longleftrightarrow> (\<exists>t'. r = Some (t', u) \<and> t = a @ t')"
  by (cases r) auto

lemma scan_string_shorter: "scan_string s = Some (t, rest) \<Longrightarrow> length rest < length s"
proof (induction s arbitrary: t rest rule: scan_string.induct)
  case (1 s)
  have s: "s \<noteq> []" using "1.prems" by (subst (asm) scan_string.simps) (auto split: if_splits)
  have d: "length s - snd (DecodeRune s) < length s" using drop_DecodeRune_less [OF s] .
  have u: "6 \<le> length s" if "get_u4 s = Some r" for r
    using that by (auto simp: get_u4_def split: list.splits)
  show ?case
    using "1.prems" s d u "1.IH"
    by (subst (asm) scan_string.simps)
      (force simp: prepend_Some split: if_splits option.splits)
qed

lemma scan_int_split: "scan_int s = Some (a, r) \<Longrightarrow> s = a @ r \<and> a \<noteq> []"
  by (auto simp: scan_int_def split: list.splits if_splits)

lemma scan_digits_split: "scan_digits s = Some (a, r) \<Longrightarrow> s = a @ r"
  by (auto simp: scan_digits_def split: if_splits)

lemma scan_frac_split: "scan_frac s = Some (a, r) \<Longrightarrow> s = a @ r"
  by (auto simp: scan_frac_def prepend_Some split: list.splits if_splits dest: scan_digits_split)

lemma scan_exp_split: "scan_exp s = Some (a, r) \<Longrightarrow> s = a @ r"
  by (auto simp: scan_exp_def prepend_Some neq_Nil_conv split: list.splits if_splits dest: scan_digits_split)

lemma scan_number_split: "scan_number s = Some (a, r) \<Longrightarrow> s = a @ r \<and> a \<noteq> []"
  by (cases s)
    (auto simp: scan_number_def Let_def split: if_splits option.splits dest!: scan_int_split scan_frac_split scan_exp_split)

lemma scan_number_shorter: "scan_number s = Some (a, r) \<Longrightarrow> length r < length s"
  using scan_number_split [of s a r] by auto

section \<open>Tokens\<close>

datatype jtok =
    TLBrace | TRBrace | TLBracket | TRBracket | TColon | TComma
  | TNull | TTrue | TFalse | TNum string | TStr string | TBad

definition json_space :: "char \<Rightarrow> bool" where
  "json_space c \<longleftrightarrow> c = CHR '' '' \<or> c = CHR 0x09 \<or> c = CHR 0x0D \<or> c = CHR 0x0A"

definition punctuation :: "char \<Rightarrow> jtok option" where
  "punctuation c =
     (if c = CHR 0x7B then Some TLBrace else if c = CHR 0x7D then Some TRBrace
      else if c = CHR 0x5B then Some TLBracket else if c = CHR 0x5D then Some TRBracket
      else if c = CHR '':'' then Some TColon else if c = CHR '','' then Some TComma else None)"

definition scan_literal :: "string \<Rightarrow> (jtok \<times> string) option" where
  "scan_literal s =
     (if take 4 s = ''null'' then Some (TNull, drop 4 s)
      else if take 4 s = ''true'' then Some (TTrue, drop 4 s)
      else if take 5 s = ''false'' then Some (TFalse, drop 5 s)
      else None)"

definition scan_token :: "string \<Rightarrow> (jtok \<times> string) option" where
  "scan_token s =
     (case punctuation (hd s) of
        Some t \<Rightarrow> Some (t, tl s)
      | None \<Rightarrow>
          if hd s = CHR 0x22 then map_option (map_prod TStr id) (scan_string (tl s))
          else if hd s = CHR ''-'' \<or> is_digit (hd s) then map_option (map_prod TNum id) (scan_number s)
          else scan_literal s)"

lemma scan_token_shorter: "s \<noteq> [] \<Longrightarrow> scan_token s = Some (t, rest) \<Longrightarrow> length rest < length s"
  by (cases s)
    (auto simp: scan_token_def scan_literal_def split: option.splits if_splits dest!: scan_string_shorter scan_number_shorter)

text \<open>The tokens of a text; what is not a token gives one bad token and ends the list.\<close>

function json_lex :: "string \<Rightarrow> jtok list" where
  "json_lex s =
     (if s = [] then []
      else if json_space (hd s) then json_lex (tl s)
      else (case scan_token s of None \<Rightarrow> [TBad] | Some tr \<Rightarrow> fst tr # json_lex (snd tr)))"
  by pat_completeness auto
termination
  by (relation "measure length") (auto dest: scan_token_shorter)

declare json_lex.simps [simp del]

section \<open>Trees\<close>

text \<open>Open containers: the elements so far, or the members so far and the name whose value is read.\<close>

datatype jframe = FArr "raw list" | FObj "(string \<times> raw) list" "string option"

datatype jexpect = EValue | EFirst | EKey | EFirstKey | EColon | EEnd

definition maxNestingDepth :: nat where "maxNestingDepth = 10000"

type_synonym jstate = "jframe list \<times> jexpect"

text \<open>A value is complete: it is the result, or goes into the innermost container.\<close>

fun deliver :: "raw \<Rightarrow> jframe list \<Rightarrow> (raw + jstate) option" where
  "deliver v [] = Some (Inl v)"
| "deliver v (FArr xs # st) = Some (Inr (FArr (xs @ [v]) # st, EEnd))"
| "deliver v (FObj ps (Some k) # st) = Some (Inr (FObj (ps @ [(k, v)]) None # st, EEnd))"
| "deliver v (FObj ps None # st) = None"

fun close_frame :: "jframe list \<Rightarrow> (raw + jstate) option" where
  "close_frame (FArr xs # st) = deliver (RArray xs) st"
| "close_frame (FObj ps k # st) = deliver (RObject ps) st"
| "close_frame [] = None"

definition push_frame :: "jframe \<Rightarrow> jexpect \<Rightarrow> jframe list \<Rightarrow> (raw + jstate) option" where
  "push_frame f e st = (if length st + 1 \<le> maxNestingDepth then Some (Inr (f # st, e)) else None)"

fun start_value :: "jtok \<Rightarrow> jframe list \<Rightarrow> (raw + jstate) option" where
  "start_value TLBrace st = push_frame (FObj [] None) EFirstKey st"
| "start_value TLBracket st = push_frame (FArr []) EFirst st"
| "start_value TNull st = deliver RNull st"
| "start_value TTrue st = deliver (RBool True) st"
| "start_value TFalse st = deliver (RBool False) st"
| "start_value (TNum t) st = deliver (RNumber t) st"
| "start_value (TStr t) st = deliver (RString t) st"
| "start_value _ st = None"

definition read_key :: "jtok \<Rightarrow> jframe list \<Rightarrow> (raw + jstate) option" where
  "read_key t st = (case (t, st) of
       (TStr k, FObj ps None # st') \<Rightarrow> Some (Inr (FObj ps (Some k) # st', EColon))
     | _ \<Rightarrow> None)"

definition jstep :: "jtok \<Rightarrow> jframe list \<Rightarrow> jexpect \<Rightarrow> (raw + jstate) option" where
  "jstep t st e = (case e of
       EValue \<Rightarrow> start_value t st
     | EFirst \<Rightarrow> if t = TRBracket then close_frame st else start_value t st
     | EKey \<Rightarrow> read_key t st
     | EFirstKey \<Rightarrow> if t = TRBrace then close_frame st else read_key t st
     | EColon \<Rightarrow> if t = TColon then Some (Inr (st, EValue)) else None
     | EEnd \<Rightarrow> (case st of
           FArr xs # _ \<Rightarrow> if t = TComma then Some (Inr (st, EValue)) else if t = TRBracket then close_frame st else None
         | FObj ps k # _ \<Rightarrow> if t = TComma then Some (Inr (st, EKey)) else if t = TRBrace then close_frame st else None
         | [] \<Rightarrow> None))"

text \<open>Reads tokens until one value is complete; gives it and the tokens left.\<close>

fun build :: "jtok list \<Rightarrow> jframe list \<Rightarrow> jexpect \<Rightarrow> (raw \<times> jtok list) option" where
  "build [] st e = None"
| "build (t # ts) st e = (case jstep t st e of
       None \<Rightarrow> None
     | Some (Inl v) \<Rightarrow> Some (v, ts)
     | Some (Inr (st', e')) \<Rightarrow> build ts st' e')"

definition parse_json :: "string \<Rightarrow> (raw \<times> jtok list) option" where
  "parse_json s = build (json_lex s) [] EValue"

text \<open>\<^verbatim>\<open>json.Valid\<close>: one value and nothing else. \<^verbatim>\<open>Decode\<close> with \<^verbatim>\<open>UseNumber\<close>: the first value.\<close>

definition json_Valid :: "string \<Rightarrow> bool" where
  "json_Valid s = (case parse_json s of Some (v, []) \<Rightarrow> True | _ \<Rightarrow> False)"

definition json_Decode :: "string \<Rightarrow> json option" where
  "json_Decode s = map_option (value_of \<circ> fst) (parse_json s)"

section \<open>Marshal\<close>

definition hex_lower :: "nat \<Rightarrow> char" where
  "hex_lower d = (if d < 10 then char_of (48 + d) else char_of (87 + d))"

text \<open>One ASCII byte of a string, with the escapes of the HTML-safe encoder.\<close>

definition escape_ascii :: "char \<Rightarrow> string" where
  "escape_ascii c =
     (if c = CHR 0x5C \<or> c = CHR 0x22 then [CHR 0x5C, c]
      else if c = CHR 0x08 then [CHR 0x5C, CHR ''b'']
      else if c = CHR 0x0C then [CHR 0x5C, CHR ''f'']
      else if c = CHR 0x0A then [CHR 0x5C, CHR ''n'']
      else if c = CHR 0x0D then [CHR 0x5C, CHR ''r'']
      else if c = CHR 0x09 then [CHR 0x5C, CHR ''t'']
      else if byte c < 0x20 \<or> c = CHR ''<'' \<or> c = CHR ''>'' \<or> c = CHR ''&''
      then [CHR 0x5C, CHR ''u'', CHR ''0'', CHR ''0'', hex_lower (byte c div 16), hex_lower (byte c mod 16)]
      else [c])"

function escape_body :: "string \<Rightarrow> string" where
  "escape_body s =
     (if s = [] then []
      else if byte (hd s) < 0x80 then escape_ascii (hd s) @ escape_body (tl s)
      else if DecodeRune s = (RuneError, 1) then [CHR 0x5C, CHR ''u'', CHR ''f'', CHR ''f'', CHR ''f'', CHR ''d''] @ escape_body (tl s)
      else if fst (DecodeRune s) = 0x2028 \<or> fst (DecodeRune s) = 0x2029
      then [CHR 0x5C, CHR ''u'', CHR ''2'', CHR ''0'', CHR ''2'', hex_lower (fst (DecodeRune s) mod 16)] @
        escape_body (drop (snd (DecodeRune s)) s)
      else take (snd (DecodeRune s)) s @ escape_body (drop (snd (DecodeRune s)) s))"
  by pat_completeness auto
termination
  by (relation "measure length") (auto simp: drop_DecodeRune_less)

declare escape_body.simps [simp del]

definition quote_json :: "string \<Rightarrow> string" where
  "quote_json s = CHR 0x22 # escape_body s @ [CHR 0x22]"

fun commas :: "'a \<Rightarrow> 'a list list \<Rightarrow> 'a list" where
  "commas c [] = []"
| "commas c [p] = p"
| "commas c (p # q # r) = p @ c # commas c (q # r)"

primrec render :: "raw \<Rightarrow> string" where
  "render RNull = ''null''"
| "render (RBool b) = (if b then ''true'' else ''false'')"
| "render (RNumber t) = t"
| "render (RString t) = quote_json t"
| "render (RArray xs) = CHR 0x5B # commas (CHR '','') (map render xs) @ [CHR 0x5D]"
| "render (RObject ps) =
     CHR 0x7B # commas (CHR '','') (map (\<lambda>kt. quote_json (fst kt) @ CHR '':'' # snd kt) (map (map_prod id render) ps)) @ [CHR 0x7D]"

text \<open>What is written for a value: members in the order of their names.\<close>

definition sorted_members :: "(string, raw) fmap \<Rightarrow> (string \<times> raw) list" where
  "sorted_members m = map (\<lambda>k. (k, the (fmlookup m k))) (sorted_list_of_fset (fmdom m))"

primrec raw_of :: "json \<Rightarrow> raw" where
  "raw_of JNull = RNull"
| "raw_of (JBool b) = RBool b"
| "raw_of (JNumber t) = RNumber (if t = [] then ''0'' else t)"
| "raw_of (JNative f r) = the r"
| "raw_of (JString t) = RString t"
| "raw_of (JArray xs) = RArray (map raw_of xs)"
| "raw_of (JObject m) = RObject (sorted_members (fmmap raw_of m))"

primrec marshalable :: "json \<Rightarrow> bool" where
  "marshalable JNull = True"
| "marshalable (JBool b) = True"
| "marshalable (JNumber t) = (t = [] \<or> isValidNumber t)"
| "marshalable (JNative f r) = (r \<noteq> None)"
| "marshalable (JString t) = True"
| "marshalable (JArray xs) = list_all (\<lambda>b. b) (map marshalable xs)"
| "marshalable (JObject m) = fmpred (\<lambda>k b. b) (fmmap marshalable m)"

definition json_Marshal :: "json \<Rightarrow> string option" where
  "json_Marshal v = (if marshalable v then Some (render (raw_of v)) else None)"

section \<open>Reading back what was written\<close>

primrec tokens_of :: "raw \<Rightarrow> jtok list" where
  "tokens_of RNull = [TNull]"
| "tokens_of (RBool b) = [if b then TTrue else TFalse]"
| "tokens_of (RNumber t) = [TNum t]"
| "tokens_of (RString t) = [TStr t]"
| "tokens_of (RArray xs) = TLBracket # commas TComma (map tokens_of xs) @ [TRBracket]"
| "tokens_of (RObject ps) =
     TLBrace # commas TComma (map (\<lambda>kt. TStr (fst kt) # TColon # snd kt) (map (map_prod id tokens_of) ps)) @ [TRBrace]"

primrec raw_depth :: "raw \<Rightarrow> nat" where
  "raw_depth RNull = 0"
| "raw_depth (RBool b) = 0"
| "raw_depth (RNumber t) = 0"
| "raw_depth (RString t) = 0"
| "raw_depth (RArray xs) = Suc (Max (insert 0 (set (map raw_depth xs))))"
| "raw_depth (RObject ps) = Suc (Max (insert 0 (set (map snd (map (map_prod id raw_depth) ps)))))"

primrec raw_ok :: "raw \<Rightarrow> bool" where
  "raw_ok RNull = True"
| "raw_ok (RBool b) = True"
| "raw_ok (RNumber t) = isValidNumber t"
| "raw_ok (RString t) = ValidString t"
| "raw_ok (RArray xs) = list_all (\<lambda>b. b) (map raw_ok xs)"
| "raw_ok (RObject ps) = list_all (\<lambda>kb. ValidString (fst kb) \<and> snd kb) (map (map_prod id raw_ok) ps)"

end
