(* ===== verification/Geojson_Input.thy ===== *)
theory Geojson_Input
  imports Json_Text Query_Filter Feature_Mutation "HOL-Library.Log_Nat"
begin

text \<open>
  Model of \<^verbatim>\<open>server/mutation_geojson.go\<close>: reading a GeoJSON feature from a request body, its
  geometry and properties, JSON Merge Patch, the entity tag of a response body, and the check for
  repeated member names.
\<close>

section \<open>Numbers: strconv.ParseFloat\<close>

text \<open>A finite \<^verbatim>\<open>float64\<close>: its sign bit and its magnitude.\<close>

type_synonym f64 = "bool \<times> rat"

definition f64_eq :: "f64 \<Rightarrow> f64 \<Rightarrow> bool" where
  "f64_eq x y \<longleftrightarrow> snd x = snd y \<and> (fst x = fst y \<or> snd x = 0)"

definition pow2 :: "int \<Rightarrow> rat" where
  "pow2 e = (if 0 \<le> e then 2 ^ nat e else 1 / 2 ^ nat (- e))"

definition round_even :: "rat \<Rightarrow> int" where
  "round_even x =
     (let f = \<lfloor>x\<rfloor>; r = x - of_int f
      in if r < 1 / 2 then f else if r > 1 / 2 then f + 1 else if even f then f else f + 1)"

text \<open>The exponent of the largest power of two that is not above a positive number.\<close>

definition binade :: "rat \<Rightarrow> int" where
  "binade x =
     (let q = quotient_of x; k = int (floorlog 2 (nat (fst q))) - int (floorlog 2 (nat (snd q)))
      in if pow2 k \<le> x then k else k - 1)"

definition round64 :: "rat \<Rightarrow> rat" where
  "round64 x =
     (if x = 0 then 0
      else let e = max (binade x - 52) (- 1074) in of_int (round_even (x / pow2 e)) * pow2 e)"

definition decimal_exponent :: "string \<Rightarrow> int" where
  "decimal_exponent t =
     (if t \<noteq> [] \<and> hd t = CHR ''-'' then - int (digits_val (tl t))
      else if t \<noteq> [] \<and> hd t = CHR ''+'' then int (digits_val (tl t))
      else int (digits_val t))"

definition decimal_magnitude :: "number_parts \<Rightarrow> rat" where
  "decimal_magnitude p =
     (of_nat (digits_val (np_int p)) + frac_val (np_frac p)) *
     pow10 (case np_exp p of None \<Rightarrow> 0 | Some t \<Rightarrow> decimal_exponent t)"

text \<open>Out of range is an error, as in \<^verbatim>\<open>ParseFloat\<close>.\<close>

definition ParseFloat :: "string \<Rightarrow> f64 option" where
  "ParseFloat t = (case filterNumberPattern t of
       None \<Rightarrow> None
     | Some p \<Rightarrow> let m = round64 (decimal_magnitude p) in if m < 2 ^ 1024 then Some (np_neg p, m) else None)"

section \<open>Geometries\<close>

type_synonym position = "f64 \<times> f64"

datatype geometry =
    Point position
  | MultiPoint "position list"
  | LineString "position list"
  | MultiLineString "position list list"
  | Polygon "position list list"
  | MultiPolygon "position list list list"

datatype geo_error =
    InvalidCoordinate
  | ThreeDimensional nat
  | NotANumber
  | BadFloat string
  | InvalidSequence
  | TooFewPoints nat
  | InvalidPolygon
  | NoRing
  | RingTooShort nat nat
  | RingNotClosed nat
  | InvalidMultiLineString
  | InvalidMultiPolygon
  | UnsupportedGeometry string
  | InvalidJSON
  | TrailingData
  | NotAFeature
  | CRSMember
  | GeometryNotObject
  | PropertiesNotObject
  | DuplicateKey string
  | NoSuchProperty string
  | InProperty string geo_error
  | NotAnInteger string
  | Expected string
  | UnsupportedType

definition toFloat :: "json \<Rightarrow> geo_error + f64" where
  "toFloat v = (case v of
       JNumber t \<Rightarrow> (case ParseFloat t of None \<Rightarrow> Inl (BadFloat t) | Some x \<Rightarrow> Inr x)
     | JNative True (Some (RNumber t)) \<Rightarrow> (case ParseFloat t of None \<Rightarrow> Inl (BadFloat t) | Some x \<Rightarrow> Inr x)
     | _ \<Rightarrow> Inl NotANumber)"

definition toCoord :: "json \<Rightarrow> geo_error + position" where
  "toCoord v = (case v of
       JArray arr \<Rightarrow>
         if length arr < 2 then Inl InvalidCoordinate
         else if length arr > 2 then Inl (ThreeDimensional (length arr))
         else (case toFloat (arr ! 0) of
             Inl e \<Rightarrow> Inl e
           | Inr x \<Rightarrow> (case toFloat (arr ! 1) of Inl e \<Rightarrow> Inl e | Inr y \<Rightarrow> Inr (x, y)))
     | _ \<Rightarrow> Inl InvalidCoordinate)"

text \<open>A loop that converts every element and stops at the first error.\<close>

fun convert_each :: "('a \<Rightarrow> geo_error + 'b) \<Rightarrow> 'a list \<Rightarrow> geo_error + 'b list" where
  "convert_each f [] = Inr []"
| "convert_each f (x # xs) = (case f x of
       Inl e \<Rightarrow> Inl e
     | Inr y \<Rightarrow> (case convert_each f xs of Inl e \<Rightarrow> Inl e | Inr ys \<Rightarrow> Inr (y # ys)))"

definition toPositions :: "json \<Rightarrow> geo_error + position list" where
  "toPositions v = (case v of JArray arr \<Rightarrow> convert_each toCoord arr | _ \<Rightarrow> Inl InvalidSequence)"

definition toLineString :: "json \<Rightarrow> geo_error + position list" where
  "toLineString v = (case toPositions v of
       Inl e \<Rightarrow> Inl e
     | Inr points \<Rightarrow> if length points < 2 then Inl (TooFewPoints (length points)) else Inr points)"

definition pos_eq :: "position \<Rightarrow> position \<Rightarrow> bool" where
  "pos_eq p q \<longleftrightarrow> f64_eq (fst p) (fst q) \<and> f64_eq (snd p) (snd q)"

definition toRing :: "nat \<times> json \<Rightarrow> geo_error + position list" where
  "toRing ir = (case toLineString (snd ir) of
       Inl e \<Rightarrow> Inl e
     | Inr ring \<Rightarrow>
         if length ring < 4 then Inl (RingTooShort (fst ir) (length ring))
         else if \<not> pos_eq (hd ring) (last ring) then Inl (RingNotClosed (fst ir))
         else Inr ring)"

definition toPolygon :: "json \<Rightarrow> geo_error + position list list" where
  "toPolygon v = (case v of
       JArray arr \<Rightarrow> if arr = [] then Inl NoRing else convert_each toRing (enumerate 0 arr)
     | _ \<Rightarrow> Inl InvalidPolygon)"

definition toMultiLineString :: "json \<Rightarrow> geo_error + position list list" where
  "toMultiLineString v = (case v of JArray arr \<Rightarrow> convert_each toLineString arr | _ \<Rightarrow> Inl InvalidMultiLineString)"

definition toMultiPolygon :: "json \<Rightarrow> geo_error + position list list list" where
  "toMultiPolygon v = (case v of JArray arr \<Rightarrow> convert_each toPolygon arr | _ \<Rightarrow> Inl InvalidMultiPolygon)"

definition string_member :: "(string, json) fmap \<Rightarrow> string \<Rightarrow> string" where
  "string_member m k = (case fmlookup m k of Some (JString s) \<Rightarrow> s | _ \<Rightarrow> [])"

abbreviation map_result :: "('a \<Rightarrow> 'b) \<Rightarrow> geo_error + 'a \<Rightarrow> geo_error + 'b" where
  "map_result f r \<equiv> map_sum id f r"

definition parseGeoJSONGeometry :: "(string, json) fmap \<Rightarrow> geo_error + geometry" where
  "parseGeoJSONGeometry gm =
     (let t = string_member gm ''type'';
          coords = (case fmlookup gm ''coordinates'' of None \<Rightarrow> JNull | Some c \<Rightarrow> c)
      in if t = ''Point'' then map_result Point (toCoord coords)
         else if t = ''MultiPoint'' then map_result MultiPoint (toPositions coords)
         else if t = ''LineString'' then map_result LineString (toLineString coords)
         else if t = ''MultiLineString'' then map_result MultiLineString (toMultiLineString coords)
         else if t = ''Polygon'' then map_result Polygon (toPolygon coords)
         else if t = ''MultiPolygon'' then map_result MultiPolygon (toMultiPolygon coords)
         else Inl (UnsupportedGeometry t))"

section \<open>Repeated names\<close>

text \<open>The tokens the decoder gives for a document.\<close>

datatype dtok = DOpenObject | DOpenArray | DClose | DString string | DNumber string | DScalar

primrec dtokens :: "raw \<Rightarrow> dtok list" where
  "dtokens RNull = [DScalar]"
| "dtokens (RBool b) = [DScalar]"
| "dtokens (RNumber t) = [DNumber t]"
| "dtokens (RString t) = [DString t]"
| "dtokens (RArray xs) = DOpenArray # concat (map dtokens xs) @ [DClose]"
| "dtokens (RObject ps) = DOpenObject # concat (map (\<lambda>kt. DString (fst kt) # snd kt) (map (map_prod id dtokens) ps)) @ [DClose]"

text \<open>A frame of the stack: the names seen, or \<open>None\<close> for an array, and whether a name comes next.\<close>

type_synonym dframe = "string list option \<times> bool"

fun value_ended :: "dframe list \<Rightarrow> dframe list" where
  "value_ended ((Some keys, e) # st) = (Some keys, True) # st"
| "value_ended st = st"

definition reject_step :: "dtok \<Rightarrow> dframe list \<Rightarrow> geo_error + dframe list" where
  "reject_step t st = (case t of
       DOpenObject \<Rightarrow> Inr ((Some [], True) # st)
     | DOpenArray \<Rightarrow> Inr ((None, False) # st)
     | DClose \<Rightarrow> Inr (value_ended (tl st))
     | DString v \<Rightarrow> (case st of
           (Some keys, True) # st' \<Rightarrow>
             if v \<in> set keys then Inl (DuplicateKey v) else Inr ((Some (v # keys), False) # st')
         | _ \<Rightarrow> Inr (value_ended st))
     | DNumber n \<Rightarrow> if ParseFloat n = None then Inl InvalidJSON else Inr (value_ended st)
     | DScalar \<Rightarrow> Inr (value_ended st))"

fun reject_loop :: "dtok list \<Rightarrow> dframe list \<Rightarrow> geo_error + dframe list" where
  "reject_loop [] st = Inr st"
| "reject_loop (t # ts) st = (case reject_step t st of Inl e \<Rightarrow> Inl e | Inr st' \<Rightarrow> reject_loop ts st')"

definition rejectDuplicateKeys :: "string \<Rightarrow> geo_error option" where
  "rejectDuplicateKeys body = (case parse_json body of
       Some (r, []) \<Rightarrow> (case reject_loop (dtokens r) [] of Inl e \<Rightarrow> Some e | Inr _ \<Rightarrow> None)
     | _ \<Rightarrow> Some InvalidJSON)"

section \<open>Features\<close>

record geoJSONFeature =
  gf_Geometry :: "geometry option"
  gf_HasGeometry :: bool
  gf_GeometryNull :: bool
  gf_Properties :: "(string, json) fmap"

text \<open>\<^verbatim>\<open>dec.More\<close> at the top level.\<close>

definition dec_More :: "jtok list \<Rightarrow> bool" where
  "dec_More ts = (case ts of [] \<Rightarrow> False | t # _ \<Rightarrow> t \<noteq> TRBrace \<and> t \<noteq> TRBracket)"

definition feature_geometry :: "(string, json) fmap \<Rightarrow> geoJSONFeature \<Rightarrow> geo_error + geoJSONFeature" where
  "feature_geometry rw out = (case fmlookup rw ''geometry'' of
       None \<Rightarrow> Inr out
     | Some JNull \<Rightarrow> Inr (out\<lparr>gf_GeometryNull := True\<rparr>)
     | Some (JObject gm) \<Rightarrow> (case parseGeoJSONGeometry gm of
           Inl e \<Rightarrow> Inl e
         | Inr g \<Rightarrow> Inr (out\<lparr>gf_Geometry := Some g, gf_HasGeometry := True\<rparr>))
     | Some _ \<Rightarrow> Inl GeometryNotObject)"

definition feature_properties :: "(string, json) fmap \<Rightarrow> geoJSONFeature \<Rightarrow> geo_error + geoJSONFeature" where
  "feature_properties rw out = (case fmlookup rw ''properties'' of
       None \<Rightarrow> Inr out
     | Some JNull \<Rightarrow> Inr out
     | Some (JObject pm) \<Rightarrow> Inr (out\<lparr>gf_Properties := pm\<rparr>)
     | Some _ \<Rightarrow> Inl PropertiesNotObject)"

text \<open>Decoding into a map refuses a document that is neither an object nor null.\<close>

definition parseGeoJSONFeature :: "string \<Rightarrow> geo_error + geoJSONFeature" where
  "parseGeoJSONFeature body = (case rejectDuplicateKeys body of
       Some e \<Rightarrow> Inl e
     | None \<Rightarrow> (case parse_json body of
         None \<Rightarrow> Inl InvalidJSON
       | Some (r, ts) \<Rightarrow> (case (case value_of r of JObject m \<Rightarrow> Some m | JNull \<Rightarrow> Some fmempty | _ \<Rightarrow> None) of
           None \<Rightarrow> Inl InvalidJSON
         | Some rw \<Rightarrow>
             if dec_More ts then Inl TrailingData
             else if string_member rw ''type'' \<noteq> ''Feature'' then Inl NotAFeature
             else if fmlookup rw ''crs'' \<noteq> None then Inl CRSMember
             else (case feature_geometry rw \<lparr>gf_Geometry = None, gf_HasGeometry = False, gf_GeometryNull = False, gf_Properties = fmempty\<rparr> of
                 Inl e \<Rightarrow> Inl e
               | Inr out \<Rightarrow> feature_properties rw out))))"

section \<open>Property values\<close>

definition zero_mv :: MutationValue where
  "zero_mv = \<lparr>mv_Null = False, mv_Empty = False, mv_Integer = 0, mv_Decimal = [], mv_String = [], mv_Boolean = False,
     mv_Kind = MutationValueUnset\<rparr>"

definition jsonValueToMutation :: "LogicalType \<Rightarrow> json \<Rightarrow> geo_error + MutationValue" where
  "jsonValueToMutation t v =
     (if v = JNull then Inr (zero_mv\<lparr>mv_Null := True\<rparr>)
      else (case t of
          TypeInteger \<Rightarrow> (case v of
              JNumber s \<Rightarrow> (case ParseInt 64 s of
                  None \<Rightarrow> Inl (NotAnInteger s)
                | Some i \<Rightarrow> Inr (zero_mv\<lparr>mv_Kind := MutationValueInteger, mv_Integer := i\<rparr>))
            | _ \<Rightarrow> Inl (Expected ''integer''))
        | TypeDecimal \<Rightarrow> (case v of
              JNumber s \<Rightarrow> Inr (zero_mv\<lparr>mv_Kind := MutationValueDecimal, mv_Decimal := s\<rparr>)
            | _ \<Rightarrow> Inl (Expected ''number''))
        | TypeString \<Rightarrow> (case v of
              JString s \<Rightarrow> Inr (zero_mv\<lparr>mv_Kind := MutationValueString, mv_String := s, mv_Empty := (s = [])\<rparr>)
            | _ \<Rightarrow> Inl (Expected ''string''))
        | TypeBoolean \<Rightarrow> (case v of
              JBool b \<Rightarrow> Inr (zero_mv\<lparr>mv_Kind := MutationValueBoolean, mv_Boolean := b\<rparr>)
            | _ \<Rightarrow> Inl (Expected ''boolean''))
        | TypeDateTime \<Rightarrow> (case v of
              JString s \<Rightarrow> Inr (zero_mv\<lparr>mv_Kind := MutationValueString, mv_String := s\<rparr>)
            | _ \<Rightarrow> Inl (Expected ''datetime string''))
        | TypeGeometry \<Rightarrow> Inl UnsupportedType))"

text \<open>The members of a map in the order of their names; the order in which a map is visited
  decides only which of several errors is reported.\<close>

definition members :: "(string, 'v) fmap \<Rightarrow> (string \<times> 'v) list" where
  "members m = map (\<lambda>k. (k, the (fmlookup m k))) (sorted_list_of_fset (fmdom m))"

definition convert_property :: "SchemaDescriptor \<Rightarrow> string \<times> json \<Rightarrow> geo_error + (string \<times> MutationValue)" where
  "convert_property schema nv = (case Property schema (fst nv) of
       None \<Rightarrow> Inl (NoSuchProperty (fst nv))
     | Some desc \<Rightarrow> (case jsonValueToMutation (pd_Type desc) (snd nv) of
           Inl e \<Rightarrow> Inl (InProperty (fst nv) e)
         | Inr mv \<Rightarrow> Inr (fst nv, mv)))"

definition mutationInputToProvider :: "SchemaDescriptor \<Rightarrow> (string, json) fmap \<Rightarrow> geo_error + (string \<times> MutationValue) list" where
  "mutationInputToProvider schema props = convert_each (convert_property schema) (members props)"

section \<open>Merge Patch\<close>

text \<open>One member of the patch, given the member of the target if it has one: what the result has.\<close>

definition merge_members :: "(string, json option \<Rightarrow> json option) fmap \<Rightarrow> (string, json) fmap \<Rightarrow> (string, json) fmap" where
  "merge_members pm target =
     fold (\<lambda>k out. case the (fmlookup pm k) (fmlookup out k) of None \<Rightarrow> fmdrop k out | Some v \<Rightarrow> fmupd k v out)
       (sorted_list_of_fset (fmdom pm)) target"

primrec merge_value :: "json \<Rightarrow> json option \<Rightarrow> json option" where
  "merge_value JNull t = None"
| "merge_value (JBool b) t = Some (JBool b)"
| "merge_value (JNumber s) t = Some (JNumber s)"
| "merge_value (JNative f r) t = Some (JNative f r)"
| "merge_value (JString s) t = Some (JString s)"
| "merge_value (JArray xs) t = Some (JArray xs)"
| "merge_value (JObject pm) t =
     Some (JObject (merge_members (fmmap merge_value pm) (case t of Some (JObject tm) \<Rightarrow> tm | _ \<Rightarrow> fmempty)))"

definition applyMergePatch :: "(string, json) fmap \<Rightarrow> (string, json) fmap \<Rightarrow> (string, json) fmap" where
  "applyMergePatch target patch = merge_members (fmmap merge_value patch) target"

section \<open>Entity tags\<close>

text \<open>
  \<^verbatim>\<open>sha256.Sum256\<close> is the argument. The only caller is \<^verbatim>\<open>revisionETag\<close>, which digests the
  bytes of the response; the canonical form of \<^verbatim>\<open>canonicalFeatureBytes\<close>, which nothing calls, is not
  modelled.
\<close>

definition hex_encode :: "string \<Rightarrow> string" where
  "hex_encode s = concat (map (\<lambda>c. [hex_lower (byte c div 16), hex_lower (byte c mod 16)]) s)"

definition strongETag :: "(string \<Rightarrow> string) \<Rightarrow> string \<Rightarrow> string" where
  "strongETag sha256 canonical = CHR 0x22 # hex_encode (sha256 canonical) @ [CHR 0x22]"

definition jsonEqual :: "json \<Rightarrow> json \<Rightarrow> bool" where
  "jsonEqual a b = (case json_Marshal a of
       None \<Rightarrow> False
     | Some ab \<Rightarrow> (case json_Marshal b of None \<Rightarrow> False | Some bb \<Rightarrow> ab = bb))"

text \<open>Decoding a raw message into a map; what cannot be decoded is a nil map, which behaves like an
  empty one. The vendored geometry encoder is the argument \<open>encode\<close>.\<close>

definition jsonRawToMap :: "string \<Rightarrow> (string, json) fmap option" where
  "jsonRawToMap rw = (case json_Decode rw of Some (JObject m) \<Rightarrow> Some m | _ \<Rightarrow> None)"

definition geometryEqual :: "(geometry \<Rightarrow> string option) \<Rightarrow> string \<Rightarrow> string option \<Rightarrow> bool" where
  "geometryEqual encode current wkbBytes =
     (if current = [] \<or> current = ''null'' then wkbBytes = None
      else (case jsonRawToMap current of
          None \<Rightarrow> False
        | Some gm \<Rightarrow> (case parseGeoJSONGeometry gm of
            Inl e \<Rightarrow> False
          | Inr g \<Rightarrow> (case encode g of None \<Rightarrow> False | Some cur \<Rightarrow> wkbBytes = Some cur))))"

end
