(* ===== verification/Json_Codec.thy ===== *)
theory Json_Codec
  imports Json_Text
begin

text \<open>
  Marshalling and decoding are inverse on the values a decoder can give: strings in UTF-8, numbers in
  the JSON grammar, at most 10000 levels. Hence two such values have the same text only when
  they are equal.
\<close>

section \<open>Strings\<close>

lemma hex_val_hex_lower [simp]: "d < 16 \<Longrightarrow> hex_val (hex_lower d) = Some d"
  by (auto simp: hex_val_def hex_lower_def)

lemma EncodeRune_byte [simp]: "byte c < 0x80 \<Longrightarrow> EncodeRune (byte c) = [c]"
  by (simp add: EncodeRune_def)

lemma scan_string_close [simp]: "scan_string (CHR 0x22 # r) = Some ([], r)"
  by (simp add: scan_string.simps)

lemma scan_string_u4:
  "get_u4 s = Some v \<Longrightarrow> \<not> surrogate v \<Longrightarrow> scan_string s = prepend (EncodeRune v) (scan_string (drop 6 s))"
  by (subst scan_string.simps) (auto simp: get_u4_def split: list.splits if_splits)

lemma scan_string_ascii:
  assumes "byte c < 0x80"
  shows "scan_string (escape_ascii c @ r) = prepend [c] (scan_string r)"
proof -
  define s where "s = [CHR 0x5C, CHR ''u'', CHR ''0'', CHR ''0'', hex_lower (byte c div 16), hex_lower (byte c mod 16)] @ r"
  have z: "hex_val (CHR ''0'') = Some 0" by (simp add: hex_val_def)
  have "get_u4 s = Some (16 * (byte c div 16) + byte c mod 16)"
    using assms z by (simp add: get_u4_def s_def)
  then have "get_u4 s = Some (byte c)" by simp
  then have "scan_string s = prepend [c] (scan_string r)"
    using scan_string_u4 [of s "byte c"] assms by (simp add: surrogate_def s_def)
  moreover have "scan_string ([CHR 0x5C, e] @ r) = prepend [d] (scan_string r)" if "json_escape e = Some d" "e \<noteq> CHR ''u''" for e d
    using that by (subst scan_string.simps) simp
  moreover have "scan_string (c # r) = prepend [c] (scan_string r)"
    if "c \<noteq> CHR 0x5C" "c \<noteq> CHR 0x22" "\<not> byte c < 0x20"
    using that assms by (subst scan_string.simps) simp
  ultimately show ?thesis
    unfolding escape_ascii_def s_def by (simp add: json_escape_def)
qed

lemma scan_string_escape_body:
  "ValidString s \<Longrightarrow> scan_string (escape_body s @ CHR 0x22 # rest) = Some (s, rest)"
proof (induction s rule: escape_body.induct)
  case (1 s)
  let ?r = "fst (DecodeRune s)" and ?w = "snd (DecodeRune s)"
  show ?case
  proof (cases "s = [] \<or> byte (hd s) < 0x80")
    case True
    then show ?thesis using 1 by (cases s) (subst escape_body.simps, simp add: scan_string_ascii)+
  next
    case False
    then have s: "s \<noteq> []" "\<not> byte (hd s) < 0x80" by auto
    have v: "DecodeRune s \<noteq> (RuneError, 1)" "ValidString (drop ?w s)" using ValidString_drop [OF s(1) "1.prems"] by auto
    have e: "EncodeRune ?r = take ?w s" using EncodeRune_DecodeRune [OF s(1) v(1)] .
    let ?n = "escape_body (drop ?w s) @ CHR 0x22 # rest"
    have ih: "scan_string ?n = Some (drop ?w s, rest)" using 1 s v by blast
    show ?thesis
    proof (cases "?r = 0x2028 \<or> ?r = 0x2029")
      case True
      let ?s = "[CHR 0x5C, CHR ''u'', CHR ''2'', CHR ''0'', CHR ''2'', hex_lower (?r mod 16)] @ ?n"
      have "get_u4 ?s = Some ?r" using True by (auto simp: get_u4_def hex_val_def hex_lower_def)
      from scan_string_u4 [OF this] True have "scan_string ?s = prepend (EncodeRune ?r) (scan_string ?n)"
        by (auto simp: surrogate_def)
      with True s v(1) ih e show ?thesis by (subst escape_body.simps) auto
    next
      case False
      have w: "take ?w s \<noteq> []" "hd (take ?w s) = hd s" using DecodeRune_width_pos [OF s(1)] s(1) by (cases s, auto)+
      have l: "length (take ?w s) = ?w" using DecodeRune_width_le [OF s(1)] by simp
      have "byte (hd s) \<noteq> 0x22" "byte (hd s) \<noteq> 0x5C" using s(2) by auto
      then have "scan_string (take ?w s @ ?n) = prepend (EncodeRune ?r) (scan_string ?n)"
        using w l s(2) DecodeRune_take_width [OF s(1) v(1), of ?n] by (subst scan_string.simps) (auto simp: eq_char_iff)
      with False s v(1) ih e show ?thesis by (subst escape_body.simps) auto
    qed
  qed
qed

section \<open>Numbers\<close>

text \<open>What can follow a number inside a document written without spaces.\<close>

definition num_end :: "string \<Rightarrow> bool" where
  "num_end r \<longleftrightarrow> r = [] \<or> hd r = CHR '','' \<or> hd r = CHR 0x5D \<or> hd r = CHR 0x7D"

lemma num_end_simps [simp]: "num_end (CHR '','' # r)" "num_end (CHR 0x5D # r)" "num_end (CHR 0x7D # r)" "num_end []"
  by (simp_all add: num_end_def)

lemma while_append:
  "r = [] \<or> \<not> P (hd r) \<Longrightarrow> takeWhile P (s @ r) = takeWhile P s \<and> dropWhile P (s @ r) = dropWhile P s @ r"
  by (induction s) (cases r; auto)+

lemma digits_append:
  "num_end r \<Longrightarrow> takeWhile is_digit (s @ r) = takeWhile is_digit s" "num_end r \<Longrightarrow> dropWhile is_digit (s @ r) = dropWhile is_digit s @ r"
  using while_append [of r is_digit s] by (auto simp: num_end_def is_digit_def)

lemma scan_append:
  "num_end r \<Longrightarrow> scan_int s = Some (a, b) \<Longrightarrow> scan_int (s @ r) = Some (a, b @ r)"
  "num_end r \<Longrightarrow> scan_digits s = Some (a, b) \<Longrightarrow> scan_digits (s @ r) = Some (a, b @ r)"
  by (auto simp: scan_int_def scan_digits_def digits_append split: list.splits if_splits)

lemma scan_digits_Nil [simp]: "scan_digits [] = None"
  by (simp add: scan_digits_def)

lemma scan_frac_append:
  assumes r: "num_end r" and f: "scan_frac s = Some (a, b)"
  shows "scan_frac (s @ r) = Some (a, b @ r)"
proof (cases s)
  case Nil
  with r f show ?thesis by (cases r) (auto simp: scan_frac_def num_end_def)
next
  case (Cons c t)
  with f scan_append(2) [OF r] show ?thesis by (auto simp: scan_frac_def prepend_Some split: if_splits)
qed

lemma scan_exp_append:
  assumes r: "num_end r" and f: "scan_exp s = Some (a, b)"
  shows "scan_exp (s @ r) = Some (a, b @ r)"
proof (cases s)
  case Nil
  with r f show ?thesis by (cases r) (auto simp: scan_exp_def num_end_def)
next
  case (Cons c t)
  with f scan_append(2) [OF r] show ?thesis by (cases "t = []") (auto simp: scan_exp_def prepend_Some split: if_splits)
qed

lemma scan_number_append:
  assumes r: "num_end r" and t: "isValidNumber t"
  shows "scan_number (t @ r) = Some (t, r)"
proof -
  define m where "m = (if t \<noteq> [] \<and> hd t = CHR ''-'' then ([hd t], tl t) else ([], t))"
  from t obtain a s1 b s2 c where s: "scan_int (snd m) = Some (a, s1)" "scan_frac s1 = Some (b, s2)" "scan_exp s2 = Some (c, [])"
    "t = fst m @ a @ b @ c"
    by (auto simp: isValidNumber_def scan_number_def Let_def split_beta simp flip: m_def split: option.splits)
  have "t \<noteq> []" using s(1) by (auto simp: m_def scan_int_def)
  then have m: "(if t @ r \<noteq> [] \<and> hd (t @ r) = CHR ''-'' then ([hd (t @ r)], tl (t @ r)) else ([], t @ r)) = (fst m, snd m @ r)"
    by (auto simp: m_def)
  show ?thesis
    unfolding scan_number_def m
    using scan_append(1) [OF r s(1)] scan_frac_append [OF r s(2)] scan_exp_append [OF r s(3)] s(4) by simp
qed

section \<open>Tokens\<close>

lemma json_lex_Nil [simp]: "json_lex [] = []"
  by (simp add: json_lex.simps)

lemma json_lex_token:
  "s \<noteq> [] \<Longrightarrow> \<not> json_space (hd s) \<Longrightarrow> scan_token s = Some (t, r) \<Longrightarrow> json_lex s = t # json_lex r"
  by (subst json_lex.simps) simp

lemma json_lex_punctuation [simp]:
  "json_lex (CHR 0x7B # r) = TLBrace # json_lex r" "json_lex (CHR 0x7D # r) = TRBrace # json_lex r"
  "json_lex (CHR 0x5B # r) = TLBracket # json_lex r" "json_lex (CHR 0x5D # r) = TRBracket # json_lex r"
  "json_lex (CHR '':'' # r) = TColon # json_lex r" "json_lex (CHR '','' # r) = TComma # json_lex r"
  by (simp_all add: json_lex_token json_space_def scan_token_def punctuation_def)

lemma json_lex_literal:
  "json_lex (''null'' @ r) = TNull # json_lex r" "json_lex (''true'' @ r) = TTrue # json_lex r"
  "json_lex (''false'' @ r) = TFalse # json_lex r"
  by (simp_all add: json_lex_token json_space_def scan_token_def punctuation_def scan_literal_def is_digit_def)

lemmas json_lex_literals [simp] = json_lex_literal [unfolded append.simps]

lemma json_lex_quote: "ValidString s \<Longrightarrow> json_lex (quote_json s @ r) = TStr s # json_lex r"
  by (rule json_lex_token)
    (simp_all add: quote_json_def json_space_def scan_token_def punctuation_def scan_string_escape_body)

lemma valid_number_head: "isValidNumber t \<Longrightarrow> t \<noteq> [] \<and> (hd t = CHR ''-'' \<or> is_digit (hd t))"
  by (cases t) (auto simp: isValidNumber_def scan_number_def scan_int_def is_digit_def Let_def split: if_splits option.splits)

lemma json_lex_number:
  assumes r: "num_end r" and t: "isValidNumber t"
  shows "json_lex (t @ r) = TNum t # json_lex r"
proof (rule json_lex_token)
  note h = valid_number_head [OF t]
  then show "t @ r \<noteq> []" "\<not> json_space (hd (t @ r))" by (auto simp: json_space_def is_digit_def)
  have "punctuation (hd t) = None \<and> hd t \<noteq> CHR 0x22" using h by (auto simp: punctuation_def is_digit_def)
  with h show "scan_token (t @ r) = Some (TNum t, r)" by (simp add: scan_token_def scan_number_append [OF r t])
qed

lemma json_lex_commas:
  assumes "\<And>x r. x \<in> set xs \<Longrightarrow> num_end r \<Longrightarrow> json_lex (f x @ r) = g x @ json_lex r" and "num_end rest"
  shows "json_lex (commas (CHR '','') (map f xs) @ rest) = commas TComma (map g xs) @ json_lex rest"
  using assms
proof (induction xs rule: induct_list012)
  case (3 x y zs)
  then have "json_lex (commas (CHR '','') (map f (y # zs)) @ rest) = commas TComma (map g (y # zs)) @ json_lex rest"
    by (intro "3.IH") auto
  with "3.prems"(1) [of x "CHR '','' # commas (CHR '','') (map f (y # zs)) @ rest"] show ?case by simp
qed simp_all

lemma snd_in_snds: "snd p \<in> Basic_BNFs.snds p"
  by (simp add: prod_set_simps(2) [of "fst p" "snd p", simplified])

lemma json_lex_render: "raw_ok r \<Longrightarrow> num_end rest \<Longrightarrow> json_lex (render r @ rest) = tokens_of r @ json_lex rest"
proof (induction r arbitrary: rest)
  case (RArray xs)
  then show ?case
    using json_lex_commas [of xs render tokens_of "CHR 0x5D # rest"] by (simp add: list_all_iff)
next
  case (RObject ps)
  have "json_lex (quote_json (fst p) @ CHR '':'' # render (snd p) @ r) = (TStr (fst p) # TColon # tokens_of (snd p)) @ json_lex r"
    if "p \<in> set ps" "num_end r" for p r
    using that RObject.IH [of p "snd p" r] RObject.prems(1)
    by (auto simp: list_all_iff json_lex_quote snd_in_snds dest!: bspec)
  then show ?case
    using json_lex_commas [of ps "\<lambda>p. quote_json (fst p) @ CHR '':'' # render (snd p)" "\<lambda>p. TStr (fst p) # TColon # tokens_of (snd p)" "CHR 0x7D # rest"]
    by (simp add: o_def)
qed (simp_all add: json_lex_number json_lex_quote)

section \<open>Trees\<close>

definition resume :: "(raw + jstate) option \<Rightarrow> jtok list \<Rightarrow> (raw \<times> jtok list) option" where
  "resume d ts = (case d of
       None \<Rightarrow> None
     | Some (Inl v) \<Rightarrow> Some (v, ts)
     | Some (Inr (st, e)) \<Rightarrow> build ts st e)"

lemma build_step: "build (t # ts) st e = resume (jstep t st e) ts"
  by (simp add: resume_def)

lemma resume_deliver [simp]:
  "resume (deliver v (FArr xs # st)) ts = build ts (FArr (xs @ [v]) # st) EEnd"
  "resume (deliver v (FObj ps (Some k) # st)) ts = build ts (FObj (ps @ [(k, v)]) None # st) EEnd"
  by (simp_all add: resume_def)

lemma resume_Inr [simp]: "resume (Some (Inr (st, e))) ts = build ts st e"
  by (simp add: resume_def)

text \<open>A tree that the builder reads from its tokens wherever a value is expected, on a stack of
  at most \<open>n\<close> containers.\<close>

definition readable :: "nat \<Rightarrow> raw \<Rightarrow> bool" where
  "readable n r \<longleftrightarrow> (\<forall>ts st e. e = EValue \<or> e = EFirst \<longrightarrow> length st \<le> n \<longrightarrow> build (tokens_of r @ ts) st e = resume (deliver r st) ts)"

declare build.simps(2) [simp del]

lemma build_elements:
  assumes "\<And>x. x \<in> set xs \<Longrightarrow> readable n x" "length st < n" "e = EFirst \<or> e = EValue \<and> xs \<noteq> []"
  shows "build (commas TComma (map tokens_of xs) @ TRBracket # ts) (FArr acc # st) e = resume (deliver (RArray (acc @ xs)) st) ts"
  using assms
proof (induction xs arbitrary: acc e rule: induct_list012)
  case 1
  then show ?case by (simp add: build_step jstep_def)
next
  case (2 x)
  then show ?case by (auto simp: readable_def build_step jstep_def)
next
  case (3 x y zs)
  have "build (commas TComma (map tokens_of (y # zs)) @ TRBracket # ts) (FArr (acc @ [x]) # st) EValue =
      resume (deliver (RArray ((acc @ [x]) @ y # zs)) st) ts"
    using "3.prems" by (intro "3.IH"(2)) auto
  moreover have "readable n x" using "3.prems"(1) by simp
  ultimately show ?case using "3.prems"(2,3) by (auto simp: readable_def build_step [of TComma] jstep_def)
qed

lemma build_members:
  assumes "\<And>p. p \<in> set ps \<Longrightarrow> readable n (snd p)" "length st < n" "e = EFirstKey \<or> e = EKey \<and> ps \<noteq> []"
  shows "build (commas TComma (map (\<lambda>p. TStr (fst p) # TColon # tokens_of (snd p)) ps) @ TRBrace # ts) (FObj acc None # st) e =
    resume (deliver (RObject (acc @ ps)) st) ts"
  using assms
proof (induction ps arbitrary: acc e rule: induct_list012)
  case 1
  then show ?case by (simp add: build_step jstep_def)
next
  case (2 p)
  then show ?case by (auto simp: readable_def build_step jstep_def read_key_def)
next
  case (3 p q zs)
  have "build (commas TComma (map (\<lambda>p. TStr (fst p) # TColon # tokens_of (snd p)) (q # zs)) @ TRBrace # ts) (FObj (acc @ [p]) None # st) EKey =
      resume (deliver (RObject ((acc @ [p]) @ q # zs)) st) ts"
    using "3.prems" by (intro "3.IH"(2)) auto
  moreover have "readable n (snd p)" using "3.prems"(1) by simp
  ultimately show ?case
    using "3.prems"(2,3) by (auto simp: readable_def build_step jstep_def read_key_def)
qed

lemma readable_leaf:
  "readable n RNull" "readable n (RBool b)" "readable n (RNumber t)" "readable n (RString t)"
  by (auto simp: readable_def build_step jstep_def)

lemma render_readable: "raw_depth r + n \<le> maxNestingDepth \<Longrightarrow> readable n r"
proof (induction r arbitrary: n)
  case (RArray xs)
  have "readable (Suc n) x" if "x \<in> set xs" for x
  proof (rule RArray.IH [OF that])
    have "raw_depth x \<le> Max (insert 0 (set (map raw_depth xs)))" using that by (intro Max_ge) auto
    then show "raw_depth x + Suc n \<le> maxNestingDepth" using RArray.prems by simp
  qed
  then show ?case
    using RArray.prems build_elements [of xs "Suc n" _ EFirst]
    by (auto simp: readable_def build_step jstep_def push_frame_def)
next
  case (RObject ps)
  have "readable (Suc n) (snd p)" if "p \<in> set ps" for p
  proof (rule RObject.IH [OF that snd_in_snds])
    have "raw_depth (snd p) \<le> Max (insert 0 (set (map snd (map (map_prod id raw_depth) ps))))"
      using that by (intro Max_ge) force+
    then show "raw_depth (snd p) + Suc n \<le> maxNestingDepth" using RObject.prems by simp
  qed
  then show ?case
    using RObject.prems build_members [of ps "Suc n" _ EFirstKey]
    by (auto simp: readable_def build_step jstep_def push_frame_def o_def)
qed (auto simp: readable_leaf)

lemma parse_render:
  assumes "raw_ok r" "raw_depth r \<le> maxNestingDepth"
  shows "parse_json (render r) = Some (r, [])"
  using json_lex_render [of r "[]"] render_readable [of r 0] assms
  by (auto simp: parse_json_def readable_def resume_def dest: spec [of _ "[]"])

section \<open>Values\<close>

primrec json_ok :: "json \<Rightarrow> bool" where
  "json_ok JNull = True"
| "json_ok (JBool b) = True"
| "json_ok (JNumber t) = isValidNumber t"
| "json_ok (JNative f r) = False"
| "json_ok (JString t) = ValidString t"
| "json_ok (JArray xs) = list_all (\<lambda>b. b) (map json_ok xs)"
| "json_ok (JObject m) = fmpred (\<lambda>k b. ValidString k \<and> b) (fmmap json_ok m)"

lemma sorted_members_in:
  "(k, r) \<in> set (sorted_members m) \<longleftrightarrow> fmlookup m k = Some r"
  by (auto simp: sorted_members_def sorted_list_of_fset.rep_eq fmlookup_dom_iff)

lemma fmap_of_sorted_members:
  "fmap_of_list (rev (map (map_prod id f) (sorted_members m))) = fmmap f m"
proof (rule fmap_ext)
  fix k
  let ?l = "rev (map (map_prod id f) (sorted_members m))"
  have "distinct (map fst ?l)" by (simp add: sorted_members_def o_def rev_map [symmetric] sorted_list_of_fset.rep_eq)
  show "fmlookup (fmap_of_list ?l) k = fmlookup (fmmap f m) k"
  proof (cases "fmlookup m k")
    case None
    then have "k \<notin> fst ` set ?l" using sorted_members_in [of k _ m] by force
    with None show ?thesis by (simp add: fmlookup_of_list map_of_eq_None_iff)
  next
    case (Some r)
    then have "(k, f r) \<in> set ?l" using sorted_members_in [of k r m] by force
    with Some map_of_is_SomeI [OF \<open>distinct (map fst ?l)\<close>] show ?thesis by (simp add: fmlookup_of_list)
  qed
qed

lemma json_ok_JObject: "json_ok (JObject m) \<longleftrightarrow> (\<forall>k w. fmlookup m k = Some w \<longrightarrow> ValidString k \<and> json_ok w)"
  by (auto simp: fmpred_iff)

lemma marshalable_JObject: "marshalable (JObject m) \<longleftrightarrow> (\<forall>k w. fmlookup m k = Some w \<longrightarrow> marshalable w)"
  by (auto simp: fmpred_iff)

declare json_ok.simps(7) [simp del] marshalable.simps(7) [simp del]

lemma value_of_raw_of: "json_ok v \<Longrightarrow> value_of (raw_of v) = v"
proof (induction v)
  case (JNumber t)
  then show ?case using valid_number_head [of t] by simp
next
  case (JArray xs)
  then show ?case by (simp add: list_all_iff map_idI)
next
  case (JObject m)
  have "fmmap value_of (fmmap raw_of m) = m"
  proof (rule fmap_ext)
    fix k
    have "value_of (raw_of w) = w" if "fmlookup m k = Some w" for w
      using JObject.IH [OF fmran'I [OF that]] JObject.prems that by (simp add: json_ok_JObject)
    then show "fmlookup (fmmap value_of (fmmap raw_of m)) k = fmlookup m k" by (cases "fmlookup m k") auto
  qed
  then show ?case by (simp add: fmap_of_sorted_members)
qed simp_all

lemma raw_ok_raw_of: "json_ok v \<Longrightarrow> raw_ok (raw_of v)"
proof (induction v)
  case (JNumber t)
  then show ?case using valid_number_head [of t] by simp
next
  case (JObject m)
  have "ValidString k \<and> raw_ok r" if kr: "(k, r) \<in> set (sorted_members (fmmap raw_of m))" for k r
  proof -
    from kr obtain w where w: "fmlookup m k = Some w" "r = raw_of w" by (auto simp: sorted_members_in)
    with JObject.IH [OF fmran'I [OF w(1)]] JObject.prems show ?thesis by (simp add: json_ok_JObject)
  qed
  then show ?case by (auto simp: list_all_iff)
qed (simp_all add: list_all_iff)

lemma marshalable_ok: "json_ok v \<Longrightarrow> marshalable v"
proof (induction v)
  case (JObject m)
  then have "marshalable w" if "fmlookup m k = Some w" for k w
    using that JObject.IH [OF fmran'I [OF that]] by (simp add: json_ok_JObject)
  then show ?case by (simp add: marshalable_JObject)
qed (simp_all add: list_all_iff)

abbreviation nesting :: "json \<Rightarrow> nat" where
  "nesting v \<equiv> raw_depth (raw_of v)"

text \<open>What is written for a value is one valid document that decodes to the value.\<close>

lemma marshal_roundtrip:
  assumes "json_ok v" "nesting v \<le> maxNestingDepth"
  shows "json_Marshal v = Some (render (raw_of v))" "json_Decode (render (raw_of v)) = Some v"
    "json_Valid (render (raw_of v))"
  using parse_render [OF raw_ok_raw_of [OF assms(1)] assms(2)] assms(1)
  by (simp_all add: json_Marshal_def marshalable_ok json_Decode_def json_Valid_def value_of_raw_of)

lemma marshal_inject:
  assumes "json_ok v" "nesting v \<le> maxNestingDepth" "json_ok w" "nesting w \<le> maxNestingDepth" "json_Marshal v = json_Marshal w"
  shows "v = w"
  using marshal_roundtrip(1,2) [OF assms(1,2)] marshal_roundtrip(1,2) [OF assms(3,4)] assms(5) by (metis option.inject)

end
