(* ===== verification/Geojson_Correct.thy ===== *)
theory Geojson_Correct
  imports Geojson_Input Json_Codec
begin

text \<open>
  Properties of GeoJSON input: documents with repeated names are refused and no others, accepted
  geometries are well formed, property values have the kind of their declared type, and a merge
  patch is idempotent.
\<close>

section \<open>Repeated names\<close>

primrec unique_names :: "raw \<Rightarrow> bool" where
  "unique_names RNull = True"
| "unique_names (RBool b) = True"
| "unique_names (RNumber t) = True"
| "unique_names (RString t) = True"
| "unique_names (RArray xs) = list_all (\<lambda>b. b) (map unique_names xs)"
| "unique_names (RObject ps) = (distinct (map fst ps) \<and> list_all (\<lambda>kb. snd kb) (map (map_prod id unique_names) ps))"

primrec numbers_fit :: "raw \<Rightarrow> bool" where
  "numbers_fit RNull = True"
| "numbers_fit (RBool b) = True"
| "numbers_fit (RNumber t) = (ParseFloat t \<noteq> None)"
| "numbers_fit (RString t) = True"
| "numbers_fit (RArray xs) = list_all (\<lambda>b. b) (map numbers_fit xs)"
| "numbers_fit (RObject ps) = list_all (\<lambda>kb. snd kb) (map (map_prod id numbers_fit) ps)"

abbreviation acceptable :: "raw \<Rightarrow> bool" where
  "acceptable r \<equiv> unique_names r \<and> numbers_fit r"

text \<open>A stack on which a value can come next.\<close>

fun value_position :: "dframe list \<Rightarrow> bool" where
  "value_position ((Some keys, e) # st) = (\<not> e)"
| "value_position ((None, e) # st) = (\<not> e)"
| "value_position [] = True"

text \<open>The outcome of reading one value: what is left to read, or an error.\<close>

definition reads_as :: "bool \<Rightarrow> geo_error + dframe list \<Rightarrow> geo_error + dframe list \<Rightarrow> bool" where
  "reads_as ok r after \<longleftrightarrow> (if ok then r = after else (\<exists>e. r = Inl e))"

lemma reads_as_simps [simp]: "reads_as True r after = (r = after)" "reads_as False (Inl e) after"
  by (simp_all add: reads_as_def)

lemma reads_as_trans:
  "reads_as a r (x :: geo_error + dframe list) \<Longrightarrow> (a \<Longrightarrow> reads_as b x y) \<Longrightarrow> (b \<Longrightarrow> a) \<Longrightarrow> reads_as b r y"
  by (auto simp: reads_as_def split: if_splits)

definition reads_well :: "raw \<Rightarrow> bool" where
  "reads_well r \<longleftrightarrow> (\<forall>st ts. value_position st \<longrightarrow>
     reads_as (acceptable r) (reject_loop (dtokens r @ ts) st) (reject_loop ts (value_ended st)))"

lemma reads_wellD:
  "reads_well r \<Longrightarrow> value_position st \<Longrightarrow>
     reads_as (acceptable r) (reject_loop (dtokens r @ ts) st) (reject_loop ts (value_ended st))"
  by (simp add: reads_well_def)

lemma reject_elements:
  assumes "\<And>x. x \<in> set xs \<Longrightarrow> reads_well x"
  shows "reads_as (list_all acceptable xs) (reject_loop (concat (map dtokens xs) @ DClose # ts) ((None, False) # st))
    (reject_loop ts (value_ended st))"
  using assms
proof (induction xs)
  case (Cons x xs)
  let ?rest = "reject_loop (concat (map dtokens xs) @ DClose # ts) ((None, False) # st)"
  have x: "reads_as (acceptable x) (reject_loop (dtokens x @ concat (map dtokens xs) @ DClose # ts) ((None, False) # st)) ?rest"
    using reads_wellD [OF Cons.prems [of x], of "(None, False) # st"] by simp
  have "reads_as (list_all acceptable xs) ?rest (reject_loop ts (value_ended st))" using Cons by simp
  with x show ?case by (auto simp: reads_as_def split: if_splits)
qed (simp add: reject_step_def)

lemma reject_members:
  assumes "\<And>p. p \<in> set ps \<Longrightarrow> reads_well (snd p)"
  shows "reads_as (distinct (map fst ps) \<and> set (map fst ps) \<inter> set keys = {} \<and> list_all (\<lambda>p. acceptable (snd p)) ps)
    (reject_loop (concat (map (\<lambda>p. DString (fst p) # dtokens (snd p)) ps) @ DClose # ts) ((Some keys, True) # st))
    (reject_loop ts (value_ended st))"
  using assms
proof (induction ps arbitrary: keys)
  case (Cons p ps)
  let ?k = "fst p"
  let ?rest = "reject_loop (concat (map (\<lambda>p. DString (fst p) # dtokens (snd p)) ps) @ DClose # ts) ((Some (?k # keys), True) # st)"
  have x: "reads_as (acceptable (snd p))
      (reject_loop (dtokens (snd p) @ concat (map (\<lambda>p. DString (fst p) # dtokens (snd p)) ps) @ DClose # ts) ((Some (?k # keys), False) # st)) ?rest"
    using reads_wellD [OF Cons.prems [of p], of "(Some (?k # keys), False) # st"] by simp
  have "reads_as (distinct (map fst ps) \<and> set (map fst ps) \<inter> set (?k # keys) = {} \<and> list_all (\<lambda>p. acceptable (snd p)) ps) ?rest
      (reject_loop ts (value_ended st))" by (rule Cons.IH) (simp add: Cons.prems)
  with x show ?case by (auto simp: reads_as_def reject_step_def split: if_splits)
qed (simp add: reject_step_def)

lemma snds_snd: "snd p \<in> Basic_BNFs.snds p"
  by (simp add: prod_set_simps(2) [of "fst p" "snd p", simplified])

lemma reject_value: "reads_well r"
proof (induction r)
  case (RArray xs)
  have "reads_as (acceptable (RArray xs)) (reject_loop (dtokens (RArray xs) @ ts) st) (reject_loop ts (value_ended st))" for st ts
    using reject_elements [of xs ts st] RArray.IH by (auto simp: reject_step_def reads_as_def list_all_iff split: if_splits)
  then show ?case by (simp add: reads_well_def)
next
  case (RObject ps)
  have "reads_as (acceptable (RObject ps)) (reject_loop (dtokens (RObject ps) @ ts) st) (reject_loop ts (value_ended st))" for st ts
    using reject_members [of ps "[]" ts st] RObject.IH [OF _ snds_snd]
    by (auto simp: reject_step_def reads_as_def list_all_iff o_def split: if_splits)
  then show ?case by (simp add: reads_well_def)
next
  case (RString t)
  have "reject_step (DString t) st = Inr (value_ended st)" if "value_position st" for st
    using that by (cases st rule: value_position.cases) (auto simp: reject_step_def)
  then show ?case by (simp add: reads_well_def)
qed (auto simp: reads_well_def reject_step_def reads_as_def)

lemma reject_None_iff:
  "rejectDuplicateKeys body = None \<longleftrightarrow> (\<exists>r. parse_json body = Some (r, []) \<and> unique_names r \<and> numbers_fit r)"
proof -
  have "(case reject_loop (dtokens r) [] of Inl e \<Rightarrow> Some e | Inr _ \<Rightarrow> None) = None \<longleftrightarrow> acceptable r" for r
    using reject_value [of r] by (auto simp: reads_well_def reads_as_def dest!: spec [of _ "[]"] split: if_splits sum.splits)
  then show ?thesis by (auto simp: rejectDuplicateKeys_def split: option.splits prod.splits list.splits)
qed

text \<open>
  C32. The check for repeated names accepts exactly the texts that are one JSON document in which no
  object repeats a name and every number fits a \<^verbatim>\<open>float64\<close>; a text with a repeated name that is
  otherwise fine is refused.
\<close>

theorem duplicate_keys_rejected_iff:
  "rejectDuplicateKeys body = None \<longleftrightarrow> (\<exists>r. parse_json body = Some (r, []) \<and> unique_names r \<and> numbers_fit r)"
  by (rule reject_None_iff)

section \<open>Geometries\<close>

lemma convert_each_Inr:
  "convert_each f xs = Inr ys \<longleftrightarrow> length ys = length xs \<and> (\<forall>i < length xs. f (xs ! i) = Inr (ys ! i))"
proof (induction xs arbitrary: ys)
  case (Cons x xs)
  show ?case by (cases ys) (auto simp: Cons.IH nth_Cons' less_Suc_eq_0_disj split: sum.splits)
qed auto

lemma convert_each_all: "convert_each f xs = Inr ys \<Longrightarrow> (\<And>x y. f x = Inr y \<Longrightarrow> P y) \<Longrightarrow> list_all P ys"
  by (auto simp: convert_each_Inr list_all_length)

definition line_ok :: "position list \<Rightarrow> bool" where
  "line_ok l \<longleftrightarrow> 2 \<le> length l"

definition ring_ok :: "position list \<Rightarrow> bool" where
  "ring_ok l \<longleftrightarrow> 4 \<le> length l \<and> pos_eq (hd l) (last l)"

definition polygon_ok :: "position list list \<Rightarrow> bool" where
  "polygon_ok p \<longleftrightarrow> p \<noteq> [] \<and> list_all ring_ok p"

fun geometry_ok :: "geometry \<Rightarrow> bool" where
  "geometry_ok (Point p) = True"
| "geometry_ok (MultiPoint ps) = True"
| "geometry_ok (LineString l) = line_ok l"
| "geometry_ok (MultiLineString ls) = list_all line_ok ls"
| "geometry_ok (Polygon p) = polygon_ok p"
| "geometry_ok (MultiPolygon ps) = list_all polygon_ok ps"

lemma toLineString_ok: "toLineString v = Inr l \<Longrightarrow> line_ok l"
  by (auto simp: toLineString_def line_ok_def split: sum.splits if_splits)

lemma toRing_ok: "toRing v = Inr l \<Longrightarrow> ring_ok l"
  by (auto simp: toRing_def ring_ok_def split: sum.splits if_splits)

lemma toPolygon_ok: "toPolygon v = Inr p \<Longrightarrow> polygon_ok p"
  by (cases v)
    (auto simp: toPolygon_def polygon_ok_def convert_each_Inr split: if_splits intro: convert_each_all toRing_ok
      simp: list_all_length dest: toRing_ok)

lemma map_result_Inr: "map_result f r = Inr y \<longleftrightarrow> (\<exists>x. r = Inr x \<and> y = f x)"
  by (cases r) auto

lemma geometry_parsed_ok: "parseGeoJSONGeometry gm = Inr g \<Longrightarrow> geometry_ok g"
  by (auto simp: parseGeoJSONGeometry_def Let_def map_result_Inr toMultiLineString_def toMultiPolygon_def
      split: if_splits json.splits dest: toLineString_ok toPolygon_ok elim!: convert_each_all)

text \<open>A geometry as GeoJSON, with a way to write numbers.\<close>

definition position_json :: "(f64 \<Rightarrow> string) \<Rightarrow> position \<Rightarrow> json" where
  "position_json fmt p = JArray [JNumber (fmt (fst p)), JNumber (fmt (snd p))]"

definition line_json :: "(f64 \<Rightarrow> string) \<Rightarrow> position list \<Rightarrow> json" where
  "line_json fmt l = JArray (map (position_json fmt) l)"

definition lines_json :: "(f64 \<Rightarrow> string) \<Rightarrow> position list list \<Rightarrow> json" where
  "lines_json fmt ls = JArray (map (line_json fmt) ls)"

fun geometry_json :: "(f64 \<Rightarrow> string) \<Rightarrow> geometry \<Rightarrow> (string, json) fmap" where
  "geometry_json fmt (Point p) = fmap_of_list [(''type'', JString ''Point''), (''coordinates'', position_json fmt p)]"
| "geometry_json fmt (MultiPoint l) = fmap_of_list [(''type'', JString ''MultiPoint''), (''coordinates'', line_json fmt l)]"
| "geometry_json fmt (LineString l) = fmap_of_list [(''type'', JString ''LineString''), (''coordinates'', line_json fmt l)]"
| "geometry_json fmt (MultiLineString ls) = fmap_of_list [(''type'', JString ''MultiLineString''), (''coordinates'', lines_json fmt ls)]"
| "geometry_json fmt (Polygon ls) = fmap_of_list [(''type'', JString ''Polygon''), (''coordinates'', lines_json fmt ls)]"
| "geometry_json fmt (MultiPolygon ps) =
     fmap_of_list [(''type'', JString ''MultiPolygon''), (''coordinates'', JArray (map (lines_json fmt) ps))]"

text \<open>The numbers of a geometry are written so that they read back.\<close>

definition writes :: "(f64 \<Rightarrow> string) \<Rightarrow> position \<Rightarrow> bool" where
  "writes fmt p \<longleftrightarrow> ParseFloat (fmt (fst p)) = Some (fst p) \<and> ParseFloat (fmt (snd p)) = Some (snd p)"

fun positions :: "geometry \<Rightarrow> position list" where
  "positions (Point p) = [p]"
| "positions (MultiPoint l) = l"
| "positions (LineString l) = l"
| "positions (MultiLineString ls) = concat ls"
| "positions (Polygon ls) = concat ls"
| "positions (MultiPolygon ps) = concat (concat ps)"

lemma toCoord_json: "writes fmt p \<Longrightarrow> toCoord (position_json fmt p) = Inr p"
  by (cases p) (simp add: toCoord_def position_json_def toFloat_def writes_def)

lemma convert_each_map: "(\<And>x. x \<in> set xs \<Longrightarrow> f (g x) = Inr x) \<Longrightarrow> convert_each f (map g xs) = Inr xs"
  by (induction xs) auto

lemma convert_each_enumerate:
  "(\<And>i x. x \<in> set xs \<Longrightarrow> f (i, g x) = Inr x) \<Longrightarrow> convert_each f (enumerate n (map g xs)) = Inr xs"
  by (induction xs arbitrary: n) auto

lemma toPositions_json: "list_all (writes fmt) l \<Longrightarrow> toPositions (line_json fmt l) = Inr l"
  by (simp add: toPositions_def line_json_def convert_each_map toCoord_json list_all_iff)

lemma toLineString_json: "list_all (writes fmt) l \<Longrightarrow> line_ok l \<Longrightarrow> toLineString (line_json fmt l) = Inr l"
  by (simp add: toLineString_def toPositions_json line_ok_def)

lemma toPolygon_json:
  "list_all (list_all (writes fmt)) ls \<Longrightarrow> polygon_ok ls \<Longrightarrow> toPolygon (lines_json fmt ls) = Inr ls"
  by (auto simp: toPolygon_def lines_json_def polygon_ok_def toRing_def ring_ok_def toLineString_json line_ok_def list_all_iff
      intro!: convert_each_enumerate)

lemma toMultiLineString_json:
  "list_all (list_all (writes fmt)) ls \<Longrightarrow> list_all line_ok ls \<Longrightarrow> toMultiLineString (lines_json fmt ls) = Inr ls"
  by (simp add: toMultiLineString_def lines_json_def convert_each_map toLineString_json list_all_iff)

lemma toMultiPolygon_json:
  "list_all (list_all (list_all (writes fmt))) ps \<Longrightarrow> list_all polygon_ok ps \<Longrightarrow> toMultiPolygon (JArray (map (lines_json fmt) ps)) = Inr ps"
  by (simp add: toMultiPolygon_def convert_each_map toPolygon_json list_all_iff)

text \<open>
  C34. Geometries: whatever \<open>parseGeoJSONGeometry\<close> accepts has lines of at least two points and polygons
  of at least one ring, each closed and of at least four points; and every such geometry, written
  as GeoJSON with numbers that read back, is accepted and read back exactly.
\<close>

theorem geometry_wellformed_roundtrip:
  "(parseGeoJSONGeometry gm = Inr g \<longrightarrow> geometry_ok g) \<and>
   (geometry_ok h \<and> list_all (writes fmt) (positions h) \<longrightarrow> parseGeoJSONGeometry (geometry_json fmt h) = Inr h)"
proof -
  have "parseGeoJSONGeometry (geometry_json fmt h) = Inr h" if "geometry_ok h" "list_all (writes fmt) (positions h)"
    using that
    by (cases h) (auto simp: parseGeoJSONGeometry_def string_member_def fmlookup_of_list toCoord_json toPositions_json
        toLineString_json toPolygon_json toMultiLineString_json toMultiPolygon_json list_all_iff)
  with geometry_parsed_ok show ?thesis by blast
qed

text \<open>A writer for the witness, of the numbers zero and one.\<close>

definition small_numbers :: "f64 \<Rightarrow> string" where
  "small_numbers x = (if snd x = 0 then ''0'' else ''1'')"

lemma parse_small: "ParseFloat ''0'' = Some (False, 0)" "ParseFloat ''1'' = Some (False, 1)"
proof -
  have "filterNumberPattern ''1'' = Some \<lparr>np_neg = False, np_int = ''1'', np_frac = [], np_exp = None\<rparr>"
    "filterNumberPattern ''0'' = Some \<lparr>np_neg = False, np_int = ''0'', np_frac = [], np_exp = None\<rparr>"
    by (simp_all add: filterNumberPattern_def is_digit_def)
  moreover have "round64 1 = 1"
    by (simp add: round64_def binade_def pow2_def round_even_def Let_def floorlog_def)
  moreover have "1 < (2 :: rat) ^ 1024" "0 < (2 :: rat) ^ 1024" by (rule one_less_power, simp_all)
  ultimately show "ParseFloat ''0'' = Some (False, 0)" "ParseFloat ''1'' = Some (False, 1)"
    by (simp_all only: ParseFloat_def decimal_magnitude_def option.case Let_def number_parts.simps if_True)
      (simp_all add: pow10_def digits_val_def digit_val_def round64_def)
qed

theorem geometry_wellformed_roundtrip_witness:
  "parseGeoJSONGeometry (geometry_json small_numbers (LineString [((False, 0), (False, 1)), ((False, 1), (False, 0))])) =
     Inr (LineString [((False, 0), (False, 1)), ((False, 1), (False, 0))])"
  using geometry_wellformed_roundtrip [of fmempty "Point ((False, 0), (False, 0))" "LineString [((False, 0), (False, 1)), ((False, 1), (False, 0))]" small_numbers]
  by (simp add: writes_def small_numbers_def parse_small line_ok_def)

section \<open>Property values\<close>

fun kind_of :: "LogicalType \<Rightarrow> MutationValueKind" where
  "kind_of TypeInteger = MutationValueInteger"
| "kind_of TypeDecimal = MutationValueDecimal"
| "kind_of TypeString = MutationValueString"
| "kind_of TypeBoolean = MutationValueBoolean"
| "kind_of TypeDateTime = MutationValueString"
| "kind_of TypeGeometry = MutationValueUnset"

lemma ParseInt_range: "ParseInt 64 s = Some i \<Longrightarrow> - (2 ^ 63) \<le> i \<and> i < 2 ^ 63"
  by (auto simp: ParseInt_def Let_def split: if_splits)

lemma value_converted:
  assumes "jsonValueToMutation t v = Inr mv"
  shows "(mv_Null mv \<longleftrightarrow> v = JNull) \<and> (v \<noteq> JNull \<longrightarrow> mv_Kind mv = kind_of t \<and> t \<noteq> TypeGeometry) \<and>
    - (2 ^ 63) \<le> mv_Integer mv \<and> mv_Integer mv < 2 ^ 63"
proof (cases "v = JNull")
  case True
  with assms show ?thesis by (auto simp: jsonValueToMutation_def zero_mv_def)
next
  case False
  with assms show ?thesis
    by (cases t; cases v) (auto simp: jsonValueToMutation_def zero_mv_def split: option.splits dest!: ParseInt_range)
qed

lemma set_members: "(k, v) \<in> set (members m) \<longleftrightarrow> fmlookup m k = Some v"
  by (auto simp: members_def sorted_list_of_fset.rep_eq fmlookup_dom_iff)

lemma distinct_members: "distinct (map fst (members m))"
  by (simp add: members_def o_def sorted_list_of_fset.rep_eq)

lemma convert_property_Inr:
  "convert_property schema nv = Inr r \<longleftrightarrow>
     (\<exists>d mv. Property schema (fst nv) = Some d \<and> jsonValueToMutation (pd_Type d) (snd nv) = Inr mv \<and> r = (fst nv, mv))"
  by (auto simp: convert_property_def split: option.splits sum.splits)

lemma convert_each_fst: "convert_each f xs = Inr ys \<Longrightarrow> (\<And>x y. f x = Inr y \<Longrightarrow> fst y = fst x) \<Longrightarrow> map fst ys = map fst xs"
  by (induction xs arbitrary: ys) (auto split: sum.splits)

text \<open>
  C35. Converted properties are typed: exactly the supplied names are converted, each is declared by
  the schema, null is kept as null, any other value gets the kind of the declared type, and
  integers are within 64 bits.
\<close>

theorem converted_properties_typed:
  assumes "mutationInputToProvider schema props = Inr out"
  shows "distinct (map fst out) \<and> set (map fst out) = fset (fmdom props) \<and>
    (\<forall>(n, mv) \<in> set out. \<exists>d v. Property schema n = Some d \<and> fmlookup props n = Some v \<and> (mv_Null mv \<longleftrightarrow> v = JNull) \<and>
       (v \<noteq> JNull \<longrightarrow> mv_Kind mv = kind_of (pd_Type d)) \<and> - (2 ^ 63) \<le> mv_Integer mv \<and> mv_Integer mv < 2 ^ 63)"
proof -
  from assms have c: "convert_each (convert_property schema) (members props) = Inr out"
    by (simp add: mutationInputToProvider_def)
  have f: "map fst out = map fst (members props)"
    by (rule convert_each_fst [OF c]) (auto simp: convert_property_Inr)
  have "\<exists>d v. Property schema n = Some d \<and> fmlookup props n = Some v \<and> jsonValueToMutation (pd_Type d) v = Inr mv"
    if "(n, mv) \<in> set out" for n mv
  proof -
    from that obtain i where i: "i < length out" "out ! i = (n, mv)" by (meson in_set_conv_nth)
    with c have "convert_property schema (members props ! i) = Inr (n, mv)" "members props ! i \<in> set (members props)"
      by (auto simp: convert_each_Inr)
    then show ?thesis by (metis convert_property_Inr prod.collapse prod.inject set_members)
  qed
  then show ?thesis using f distinct_members [of props] value_converted
    by (force simp: members_def sorted_list_of_fset.rep_eq)
qed

text \<open>A schema with one required integer property, and input for it.\<close>

definition lanes_schema :: SchemaDescriptor where
  "lanes_schema = \<lparr>sd_Collection = ''roads'', sd_IDColumn = ''fid'',
     sd_Properties = [\<lparr>pd_Name = ''lanes'', pd_Column = ''lanes'', pd_Type = TypeInteger, pd_Nullable = False,
       pd_Required = True, pd_ReadOnly = False, pd_WriteOnly = False, pd_HasDefault = False, pd_MaxLength = 0,
       pd_AllowedValues = []\<rparr>],
     sd_Geometry = \<lparr>gd_Nullable = True, gd_Name = ''geometry'', gd_Column = ''geom'', gd_Type = ''point'',
       gd_Dimension = ''XY'', gd_SRID = 4326\<rparr>,
     sd_RevisionColumn = [], sd_SchemaVersion = ''1''\<rparr>"

lemma members_single [simp]: "members (fmupd k v fmempty) = [(k, v)]"
  by (simp add: members_def sorted_list_of_fset.rep_eq fmlookup_of_list)

theorem converted_properties_typed_witness:
  "\<exists>mv. mutationInputToProvider lanes_schema (fmap_of_list [(''lanes'', JNumber ''9223372036854775807'')]) = Inr [(''lanes'', mv)] \<and>
     mv_Kind mv = MutationValueInteger \<and> mv_Integer mv = 9223372036854775807 \<and> mv_Integer mv < 2 ^ 63"
proof -
  let ?mv = "zero_mv\<lparr>mv_Kind := MutationValueInteger, mv_Integer := 9223372036854775807\<rparr>"
  have c: "mutationInputToProvider lanes_schema (fmap_of_list [(''lanes'', JNumber ''9223372036854775807'')]) = Inr [(''lanes'', ?mv)]"
    by (simp add: mutationInputToProvider_def convert_property_def lanes_schema_def Property_def jsonValueToMutation_def
        ParseInt_def is_digit_def digits_val_def digit_val_def)
  from converted_properties_typed [OF c] have "mv_Integer ?mv < 2 ^ 63" by auto
  with c show ?thesis by auto
qed

section \<open>Merge Patch\<close>

lemma merge_fold:
  "distinct ks \<Longrightarrow>
   fmlookup (fold (\<lambda>k out. case the (fmlookup pm k) (fmlookup out k) of None \<Rightarrow> fmdrop k out | Some v \<Rightarrow> fmupd k v out) ks t) k =
     (if k \<in> set ks then the (fmlookup pm k) (fmlookup t k) else fmlookup t k)"
  by (induction ks arbitrary: t) (auto split: option.splits)

lemma fmlookup_merge_members:
  "fmlookup (merge_members pm t) k = (case fmlookup pm k of None \<Rightarrow> fmlookup t k | Some f \<Rightarrow> f (fmlookup t k))"
  by (auto simp: merge_members_def merge_fold sorted_list_of_fset.rep_eq fmlookup_dom_iff split: option.splits)

lemma merge_value_idem: "merge_value p (merge_value p t) = merge_value p t"
proof (induction p arbitrary: t)
  case (JObject pm)
  let ?m = "merge_members (fmmap merge_value pm)"
  have "?m (?m tm) = ?m tm" for tm
  proof (rule fmap_ext)
    fix k
    show "fmlookup (?m (?m tm)) k = fmlookup (?m tm) k"
      using JObject.IH [OF fmran'I] by (cases "fmlookup pm k") (simp_all add: fmlookup_merge_members)
  qed
  then show ?case by simp
qed simp_all

text \<open>
  C33. Merge patches follow RFC 7396: members the patch does not name are kept, null removes, an object
  is merged into the member if that is an object and into an empty one otherwise, any other value
  replaces; and applying a patch twice is applying it once.
\<close>

theorem merge_patch_rfc7396:
  "fmlookup (applyMergePatch target patch) k =
     (case fmlookup patch k of
        None \<Rightarrow> fmlookup target k
      | Some JNull \<Rightarrow> None
      | Some (JObject pm) \<Rightarrow>
          Some (JObject (applyMergePatch (case fmlookup target k of Some (JObject tm) \<Rightarrow> tm | _ \<Rightarrow> fmempty) pm))
      | Some v \<Rightarrow> Some v) \<and>
   applyMergePatch (applyMergePatch target patch) patch = applyMergePatch target patch"
proof
  show "fmlookup (applyMergePatch target patch) k =
     (case fmlookup patch k of
        None \<Rightarrow> fmlookup target k
      | Some JNull \<Rightarrow> None
      | Some (JObject pm) \<Rightarrow>
          Some (JObject (applyMergePatch (case fmlookup target k of Some (JObject tm) \<Rightarrow> tm | _ \<Rightarrow> fmempty) pm))
      | Some v \<Rightarrow> Some v)"
    by (auto simp: applyMergePatch_def fmlookup_merge_members split: option.splits json.splits)
  show "applyMergePatch (applyMergePatch target patch) patch = applyMergePatch target patch"
    using merge_value_idem [of "JObject patch" "Some (JObject target)"] by (simp add: applyMergePatch_def)
qed

section \<open>Entity tags\<close>

lemma FormatUint_valid_number: "isValidNumber (FormatUint n)"
proof -
  let ?s = "FormatUint n"
  have d: "list_all is_digit ?s" "?s \<noteq> []" by auto
  then obtain c t where ct: "?s = c # t" by (cases ?s) auto
  have c: "is_digit c" "takeWhile is_digit t = t" "dropWhile is_digit t = []"
    using d(1) by (auto simp: ct list_all_iff takeWhile_eq_all_conv)
  have z: "c \<noteq> CHR ''0'' \<or> t = []"
  proof (cases "n < 10")
    case True
    with ct show ?thesis by (simp add: FormatUint.simps [of n])
  next
    case False
    with FormatUint_head [of n] ct show ?thesis by simp
  qed
  moreover have "c \<noteq> CHR ''-''" using c(1) by (auto simp: is_digit_def)
  ultimately show ?thesis
    using c ct
    by (auto simp: isValidNumber_def scan_number_def scan_int_def scan_frac_def scan_exp_def
        simp del: dropWhile_eq_Nil_conv takeWhile_eq_all_conv)
qed

lemma hex_encode_inject: "hex_encode s = hex_encode t \<longleftrightarrow> s = t"
proof
  show "hex_encode s = hex_encode t \<Longrightarrow> s = t"
  proof (induction s arbitrary: t)
    case Nil
    then show ?case by (cases t) (auto simp: hex_encode_def)
  next
    case (Cons c s)
    then obtain d t' where t: "t = d # t'" by (cases t) (auto simp: hex_encode_def)
    with Cons.prems have h: "hex_lower (byte c div 16) = hex_lower (byte d div 16)" "hex_lower (byte c mod 16) = hex_lower (byte d mod 16)"
      "hex_encode s = hex_encode t'" by (simp_all add: hex_encode_def)
    have "byte c div 16 < 16" "byte d div 16 < 16" using byte_lt_256 [of c] byte_lt_256 [of d] by (simp_all add: less_mult_imp_div_less)
    then have "byte c div 16 = byte d div 16" "byte c mod 16 = byte d mod 16"
      using h(1,2) by (metis hex_val_hex_lower option.inject, metis hex_val_hex_lower mod_less_divisor option.inject zero_less_numeral)
    then have "byte c = byte d" by (metis div_mult_mod_eq)
    with Cons.IH [OF h(3)] t show ?case by (simp add: byte_inject)
  qed
qed simp

end
