(* ===== verification/Json_Patch.thy ===== *)
theory Json_Patch
  imports Json_Text Query_Filter
begin

text \<open>
  Model of \<^verbatim>\<open>server/jsonpatch.go\<close>: JSON Patch operations on a document. Values are trees: the code
  deep-copies the document before it works on it and every value before it stores it, so that no
  two parts of a document share memory, and updating a map or slice in place is updating the tree.
\<close>

datatype patch_error =
    InvalidArrayIndex string
  | PointerNoSlash string
  | PointerEscape
  | PathDoesNotExist string
  | NotContainerAt string
  | NotContainer
  | RemoveWholeDocument
  | WholeDocumentNeedsObject string
  | RootBecameNonObject
  | RequiresFromAndPath string
  | TestMismatch string
  | UnsupportedOp string
  | Wrapped string patch_error
  | InOperation string string patch_error
  | BadOperation string string
  | NotJSONObject
  | WrongMemberType string

section \<open>Operations\<close>

record JSONPatchOp =
  op_Op :: string
  op_Path :: string
  op_From :: string
  op_Value :: json

text \<open>The decoder finds the field of a member by its exact name or regardless of case, and later
  members overwrite earlier ones; null leaves a string field as it is.\<close>

definition fold_name :: "string \<Rightarrow> string" where
  "fold_name s = map ascii_upper_char s"

definition set_string_field :: "string \<Rightarrow> raw \<Rightarrow> (string \<Rightarrow> JSONPatchOp) \<Rightarrow> JSONPatchOp \<Rightarrow> patch_error + JSONPatchOp" where
  "set_string_field name v upd d = (case v of
       RString s \<Rightarrow> Inr (upd s)
     | RNull \<Rightarrow> Inr d
     | _ \<Rightarrow> Inl (WrongMemberType name))"

definition decode_member :: "string \<times> raw \<Rightarrow> JSONPatchOp \<Rightarrow> patch_error + JSONPatchOp" where
  "decode_member kv d =
     (let k = fold_name (fst kv); v = snd kv in
      if k = ''OP'' then set_string_field ''op'' v (\<lambda>s. d\<lparr>op_Op := s\<rparr>) d
      else if k = ''PATH'' then set_string_field ''path'' v (\<lambda>s. d\<lparr>op_Path := s\<rparr>) d
      else if k = ''FROM'' then set_string_field ''from'' v (\<lambda>s. d\<lparr>op_From := s\<rparr>) d
      else if k = ''VALUE'' then Inr (d\<lparr>op_Value := value_of v\<rparr>)
      else Inr d)"

text \<open>A member of the wrong type is reported after the others have been read.\<close>

fun decode_members :: "(string \<times> raw) list \<Rightarrow> JSONPatchOp \<Rightarrow> patch_error option \<Rightarrow> patch_error + JSONPatchOp" where
  "decode_members [] d e = (case e of None \<Rightarrow> Inr d | Some x \<Rightarrow> Inl x)"
| "decode_members (kv # ps) d e = (case decode_member kv d of
       Inl x \<Rightarrow> decode_members ps d (case e of None \<Rightarrow> Some x | Some y \<Rightarrow> Some y)
     | Inr d' \<Rightarrow> decode_members ps d' e)"

definition has_member :: "(string \<times> raw) list \<Rightarrow> string \<Rightarrow> bool" where
  "has_member ps k = (map_of (rev ps) k \<noteq> None)"

definition has_nonnull :: "(string \<times> raw) list \<Rightarrow> string \<Rightarrow> bool" where
  "has_nonnull ps k = (case map_of (rev ps) k of None \<Rightarrow> False | Some v \<Rightarrow> v \<noteq> RNull)"

definition empty_op :: JSONPatchOp where
  "empty_op = \<lparr>op_Op = [], op_Path = [], op_From = [], op_Value = JNull\<rparr>"

definition UnmarshalJSON :: "raw \<Rightarrow> patch_error + JSONPatchOp" where
  "UnmarshalJSON v =
     (case (case v of RObject ps \<Rightarrow> Some ps | RNull \<Rightarrow> Some [] | _ \<Rightarrow> None) of
        None \<Rightarrow> Inl NotJSONObject
      | Some ps \<Rightarrow>
          if \<not> has_nonnull ps ''op'' then Inl (BadOperation ''JSON Patch'' ''op'')
          else if \<not> has_nonnull ps ''path'' then Inl (BadOperation ''JSON Patch'' ''path'')
          else (case decode_members ps empty_op None of
            Inl e \<Rightarrow> Inl e
          | Inr d \<Rightarrow>
              if op_Op d = ''add'' \<or> op_Op d = ''replace'' \<or> op_Op d = ''test'' then
                (if has_member ps ''value'' then Inr d else Inl (BadOperation (op_Op d) ''value''))
              else if op_Op d = ''copy'' \<or> op_Op d = ''move'' then
                (if has_nonnull ps ''from'' then Inr d else Inl (BadOperation (op_Op d) ''from''))
              else if op_Op d = ''remove'' then Inr d
              else Inl (UnsupportedOp (op_Op d))))"

section \<open>Pointers\<close>

definition patchArrayIndex :: "string \<Rightarrow> patch_error + nat" where
  "patchArrayIndex s =
     (if s = [] \<or> length s > 1 \<and> hd s = CHR ''0'' \<or> \<not> list_all is_digit s then Inl (InvalidArrayIndex s)
      else (case ParseInt 64 s of None \<Rightarrow> Inl (InvalidArrayIndex s) | Some n \<Rightarrow> Inr (nat n)))"

fun escapes_ok :: "string \<Rightarrow> bool" where
  "escapes_ok [] = True"
| "escapes_ok (c # t) =
     (if c = CHR ''~'' then (case t of [] \<Rightarrow> False | d # u \<Rightarrow> (d = CHR ''0'' \<or> d = CHR ''1'') \<and> escapes_ok u)
      else escapes_ok t)"

text \<open>\<^verbatim>\<open>strings.ReplaceAll\<close> of two bytes by one.\<close>

fun replace_pair :: "char \<Rightarrow> char \<Rightarrow> char \<Rightarrow> string \<Rightarrow> string" where
  "replace_pair a b c (x # y # t) = (if x = a \<and> y = b then c # replace_pair a b c t else x # replace_pair a b c (y # t))"
| "replace_pair a b c s = s"

definition unescape :: "string \<Rightarrow> string" where
  "unescape p = replace_pair (CHR ''~'') (CHR ''0'') (CHR ''~'') (replace_pair (CHR ''~'') (CHR ''1'') (CHR ''/'') p)"

definition parseJSONPointer :: "string \<Rightarrow> patch_error + string list" where
  "parseJSONPointer ptr =
     (if ptr = [] then Inr []
      else if hd ptr \<noteq> CHR ''/'' then Inl (PointerNoSlash ptr)
      else let parts = split_on (CHR ''/'') (tl ptr) in
        if list_all escapes_ok parts then Inr (map unescape parts) else Inl PointerEscape)"

section \<open>Values at a path\<close>

primrec deepCopyValue :: "json \<Rightarrow> json" where
  "deepCopyValue JNull = JNull"
| "deepCopyValue (JBool b) = JBool b"
| "deepCopyValue (JNumber t) = JNumber t"
| "deepCopyValue (JNative f r) = JNative f r"
| "deepCopyValue (JString t) = JString t"
| "deepCopyValue (JArray xs) = JArray (map deepCopyValue xs)"
| "deepCopyValue (JObject m) = JObject (fmmap deepCopyValue m)"

definition deepCopyMap :: "(string, json) fmap \<Rightarrow> (string, json) fmap" where
  "deepCopyMap m = fmmap deepCopyValue m"

text \<open>A valid index below a bound.\<close>

definition index_below :: "string \<Rightarrow> nat \<Rightarrow> patch_error + nat" where
  "index_below p n = (case patchArrayIndex p of
       Inl _ \<Rightarrow> Inl (InvalidArrayIndex p)
     | Inr i \<Rightarrow> if i < n then Inr i else Inl (InvalidArrayIndex p))"

fun getAtPath :: "json \<Rightarrow> string list \<Rightarrow> patch_error + json" where
  "getAtPath cur [] = Inr cur"
| "getAtPath cur (p # ps) = (case cur of
       JObject c \<Rightarrow> (case fmlookup c p of None \<Rightarrow> Inl (PathDoesNotExist p) | Some v \<Rightarrow> getAtPath v ps)
     | JArray c \<Rightarrow> (case index_below p (length c) of Inl e \<Rightarrow> Inl e | Inr i \<Rightarrow> getAtPath (c ! i) ps)
     | _ \<Rightarrow> Inl (NotContainerAt p))"

fun setAtPath :: "json \<Rightarrow> string list \<Rightarrow> json \<Rightarrow> patch_error + json" where
  "setAtPath node [] v = Inr (deepCopyValue v)"
| "setAtPath node (key # rest) v = (case node of
       JObject n \<Rightarrow>
         if rest = [] then Inr (JObject (fmupd key (deepCopyValue v) n))
         else (case fmlookup n key of
             None \<Rightarrow> Inl (PathDoesNotExist key)
           | Some child \<Rightarrow> (case setAtPath child rest v of
                 Inl e \<Rightarrow> Inl e
               | Inr updated \<Rightarrow> Inr (JObject (fmupd key updated n))))
     | JArray n \<Rightarrow> (case index_below key (length n) of
           Inl e \<Rightarrow> Inl e
         | Inr i \<Rightarrow>
             if rest = [] then Inr (JArray (n[i := deepCopyValue v]))
             else (case setAtPath (n ! i) rest v of
                 Inl e \<Rightarrow> Inl e
               | Inr updated \<Rightarrow> Inr (JArray (n[i := updated]))))
     | _ \<Rightarrow> Inl NotContainer)"

fun addAtPath :: "json \<Rightarrow> string list \<Rightarrow> json \<Rightarrow> patch_error + json" where
  "addAtPath node [] v = Inr (deepCopyValue v)"
| "addAtPath node (key # rest) v = (case node of
       JObject n \<Rightarrow>
         if rest = [] then Inr (JObject (fmupd key (deepCopyValue v) n))
         else (case fmlookup n key of
             None \<Rightarrow> Inl (PathDoesNotExist key)
           | Some child \<Rightarrow> (case addAtPath child rest v of
                 Inl e \<Rightarrow> Inl e
               | Inr updated \<Rightarrow> Inr (JObject (fmupd key updated n))))
     | JArray n \<Rightarrow>
         if rest = [] then
           (if key = ''-'' then Inr (JArray (n @ [deepCopyValue v]))
            else (case index_below key (length n + 1) of
                Inl e \<Rightarrow> Inl e
              | Inr i \<Rightarrow> Inr (JArray (take i n @ [deepCopyValue v] @ drop i n))))
         else (case index_below key (length n) of
             Inl e \<Rightarrow> Inl e
           | Inr i \<Rightarrow> (case addAtPath (n ! i) rest v of
                 Inl e \<Rightarrow> Inl e
               | Inr updated \<Rightarrow> Inr (JArray (n[i := updated]))))
     | _ \<Rightarrow> Inl NotContainer)"

fun removeAtPath :: "json \<Rightarrow> string list \<Rightarrow> patch_error + json" where
  "removeAtPath node [] = Inl RemoveWholeDocument"
| "removeAtPath node (key # rest) = (case node of
       JObject n \<Rightarrow> (case fmlookup n key of
           None \<Rightarrow> Inl (PathDoesNotExist key)
         | Some child \<Rightarrow>
             if rest = [] then Inr (JObject (fmdrop key n))
             else (case removeAtPath child rest of
                 Inl e \<Rightarrow> Inl e
               | Inr updated \<Rightarrow> Inr (JObject (fmupd key updated n))))
     | JArray n \<Rightarrow> (case index_below key (length n) of
           Inl e \<Rightarrow> Inl e
         | Inr i \<Rightarrow>
             if rest = [] then Inr (JArray (take i n @ drop (i + 1) n))
             else (case removeAtPath (n ! i) rest of
                 Inl e \<Rightarrow> Inl e
               | Inr updated \<Rightarrow> Inr (JArray (n[i := updated]))))
     | _ \<Rightarrow> Inl NotContainer)"

section \<open>Operations on the document\<close>

type_synonym document = "(string, json) fmap"

definition as_object :: "patch_error + json \<Rightarrow> patch_error + document" where
  "as_object r = (case r of
       Inl e \<Rightarrow> Inl e
     | Inr (JObject m) \<Rightarrow> Inr m
     | Inr _ \<Rightarrow> Inl RootBecameNonObject)"

definition wrap_error :: "string \<Rightarrow> patch_error + 'a \<Rightarrow> patch_error + 'a" where
  "wrap_error w r = (case r of Inl e \<Rightarrow> Inl (Wrapped w e) | Inr x \<Rightarrow> Inr x)"

definition patchAddRoot :: "document \<Rightarrow> string \<Rightarrow> json \<Rightarrow> patch_error + document" where
  "patchAddRoot rt path v =
     (if path = [] then (case v of JObject m \<Rightarrow> Inr (deepCopyMap m) | _ \<Rightarrow> Inl (WholeDocumentNeedsObject ''add''))
      else (case parseJSONPointer path of
          Inl e \<Rightarrow> Inl e
        | Inr parts \<Rightarrow> as_object (addAtPath (JObject rt) parts v)))"

definition patchRemoveRoot :: "document \<Rightarrow> string \<Rightarrow> patch_error + document" where
  "patchRemoveRoot rt path = (case parseJSONPointer path of
       Inl e \<Rightarrow> Inl e
     | Inr parts \<Rightarrow>
         if parts = [] then Inl RemoveWholeDocument else as_object (removeAtPath (JObject rt) parts))"

definition patchReplaceRoot :: "document \<Rightarrow> string \<Rightarrow> json \<Rightarrow> patch_error + document" where
  "patchReplaceRoot rt path v =
     (if path = [] then (case v of JObject m \<Rightarrow> Inr (deepCopyMap m) | _ \<Rightarrow> Inl (WholeDocumentNeedsObject ''replace''))
      else (case parseJSONPointer path of
          Inl e \<Rightarrow> Inl e
        | Inr parts \<Rightarrow> (case wrap_error ''replace'' (getAtPath (JObject rt) parts) of
            Inl e \<Rightarrow> Inl e
          | Inr _ \<Rightarrow> as_object (setAtPath (JObject rt) parts v))))"

definition patchMoveRoot :: "document \<Rightarrow> string \<Rightarrow> string \<Rightarrow> patch_error + document" where
  "patchMoveRoot rt fr path =
     (if fr = [] \<or> path = [] then Inl (RequiresFromAndPath ''move'')
      else (case wrap_error ''from'' (parseJSONPointer fr) of
          Inl e \<Rightarrow> Inl e
        | Inr fromParts \<Rightarrow> (case wrap_error ''from'' (getAtPath (JObject rt) fromParts) of
            Inl e \<Rightarrow> Inl e
          | Inr v \<Rightarrow> (case wrap_error ''move source'' (removeAtPath (JObject rt) fromParts) of
              Inl e \<Rightarrow> Inl e
            | Inr updated \<Rightarrow> (case parseJSONPointer path of
                Inl e \<Rightarrow> Inl e
              | Inr toParts \<Rightarrow> as_object (wrap_error ''move target'' (addAtPath updated toParts (deepCopyValue v))))))))"

definition patchCopyRoot :: "document \<Rightarrow> string \<Rightarrow> string \<Rightarrow> patch_error + document" where
  "patchCopyRoot rt fr path =
     (if fr = [] \<or> path = [] then Inl (RequiresFromAndPath ''copy'')
      else (case wrap_error ''from'' (parseJSONPointer fr) of
          Inl e \<Rightarrow> Inl e
        | Inr fromParts \<Rightarrow> (case wrap_error ''from'' (getAtPath (JObject rt) fromParts) of
            Inl e \<Rightarrow> Inl e
          | Inr v \<Rightarrow> (case parseJSONPointer path of
              Inl e \<Rightarrow> Inl e
            | Inr toParts \<Rightarrow> as_object (addAtPath (JObject rt) toParts (deepCopyValue v))))))"

section \<open>The test operation\<close>

definition patchNumber :: "string \<Rightarrow> rat option" where
  "patchNumber text =
     (if length text > 1024 then None
      else let i = dropWhile (\<lambda>c. c \<noteq> CHR ''e'' \<and> c \<noteq> CHR ''E'') text in
        if i = [] then Rat_SetString text
        else (case ParseInt 64 (tl i) of
            None \<Rightarrow> None
          | Some e \<Rightarrow> if e < -4096 \<or> e > 4096 then None else Rat_SetString text))"

primrec patchDecodedEqual :: "json \<Rightarrow> json \<Rightarrow> bool" where
  "patchDecodedEqual (JNumber a) b = (case b of
       JNumber b' \<Rightarrow> (case (patchNumber a, patchNumber b') of (Some x, Some y) \<Rightarrow> x = y | _ \<Rightarrow> False)
     | _ \<Rightarrow> False)"
| "patchDecodedEqual (JObject a) b = (case b of
       JObject b' \<Rightarrow> fcard (fmdom a) = fcard (fmdom b') \<and>
         fmpred (\<lambda>k eq. case fmlookup b' k of None \<Rightarrow> False | Some y \<Rightarrow> eq y) (fmmap patchDecodedEqual a)
     | _ \<Rightarrow> False)"
| "patchDecodedEqual (JArray a) b = (case b of
       JArray b' \<Rightarrow> length a = length b' \<and> list_all (\<lambda>(eq, y). eq y) (zip (map patchDecodedEqual a) b')
     | _ \<Rightarrow> False)"
| "patchDecodedEqual JNull b = (b = JNull)"
| "patchDecodedEqual (JBool x) b = (b = JBool x)"
| "patchDecodedEqual (JString x) b = (b = JString x)"
| "patchDecodedEqual (JNative f r) b = (b = JNative f r)"

definition remarshal :: "json \<Rightarrow> json option" where
  "remarshal v = (case json_Marshal v of None \<Rightarrow> None | Some text \<Rightarrow> json_Decode text)"

definition patchValuesEqual :: "json \<Rightarrow> json \<Rightarrow> bool" where
  "patchValuesEqual a b = (case remarshal a of
       None \<Rightarrow> False
     | Some a' \<Rightarrow> (case remarshal b of None \<Rightarrow> False | Some b' \<Rightarrow> patchDecodedEqual a' b'))"

definition patchTestRoot :: "document \<Rightarrow> string \<Rightarrow> json \<Rightarrow> patch_error + unit" where
  "patchTestRoot rt path v =
     (case (if path = [] then Inr (JObject rt)
            else (case parseJSONPointer path of
                Inl e \<Rightarrow> Inl e
              | Inr parts \<Rightarrow> wrap_error ''test'' (getAtPath (JObject rt) parts))) of
        Inl e \<Rightarrow> Inl e
      | Inr target \<Rightarrow> if patchValuesEqual target v then Inr () else Inl (TestMismatch path))"

section \<open>Patches\<close>

definition apply_op :: "document \<Rightarrow> JSONPatchOp \<Rightarrow> patch_error + document" where
  "apply_op work op =
     (if op_Op op = ''add'' then patchAddRoot work (op_Path op) (op_Value op)
      else if op_Op op = ''remove'' then patchRemoveRoot work (op_Path op)
      else if op_Op op = ''replace'' then patchReplaceRoot work (op_Path op) (op_Value op)
      else if op_Op op = ''move'' then patchMoveRoot work (op_From op) (op_Path op)
      else if op_Op op = ''copy'' then patchCopyRoot work (op_From op) (op_Path op)
      else if op_Op op = ''test'' then
        (case patchTestRoot work (op_Path op) (op_Value op) of Inl e \<Rightarrow> Inl e | Inr _ \<Rightarrow> Inr work)
      else Inl (UnsupportedOp (op_Op op)))"

fun apply_ops :: "document \<Rightarrow> JSONPatchOp list \<Rightarrow> patch_error + document" where
  "apply_ops work [] = Inr work"
| "apply_ops work (op # ops) = (case apply_op work op of
       Inl e \<Rightarrow> Inl (InOperation (op_Op op) (op_Path op) e)
     | Inr work' \<Rightarrow> apply_ops work' ops)"

definition applyJSONPatch :: "document \<Rightarrow> JSONPatchOp list \<Rightarrow> patch_error + document" where
  "applyJSONPatch doc ops = apply_ops (deepCopyMap doc) ops"

end
