(* ===== verification/Json_Patch_Correct.thy ===== *)
theory Json_Patch_Correct
  imports Json_Patch Json_Codec "HOL-Library.Sublist"
begin

text \<open>
  Properties of JSON Patch: array indices and pointers have one spelling each, what the operations
  do to the value at every path of the document, patches compose, and adding a value makes a test
  for it succeed.
\<close>

section \<open>Indices and pointers\<close>

text \<open>An array index has exactly one spelling.\<close>

lemma patchArrayIndex_iff: "patchArrayIndex s = Inr n \<longleftrightarrow> s = FormatUint n \<and> n < 2 ^ 63"
proof
  assume a: "patchArrayIndex s = Inr n"
  then have d: "s \<noteq> []" "list_all is_digit s" "\<not> (length s > 1 \<and> hd s = CHR ''0'')"
    by (auto simp: patchArrayIndex_def split: if_splits)
  have "hd s \<noteq> CHR ''-''" "hd s \<noteq> CHR ''+''" using d(1,2) by (cases s; auto simp: is_digit_def)+
  with a d have "n = digits_val s" "n < 2 ^ 63"
    by (auto simp: patchArrayIndex_def ParseInt_def Let_def split: if_splits option.splits)
  moreover have "length s = 1 \<or> hd s \<noteq> CHR ''0''" using d(1,3) by (cases s) auto
  ultimately show "s = FormatUint n \<and> n < 2 ^ 63" using FormatUint_canonical d by simp
next
  assume s: "s = FormatUint n \<and> n < 2 ^ 63"
  have "\<not> (length s > 1 \<and> hd s = CHR ''0'')"
  proof (cases "n = 0")
    case True
    with s show ?thesis by (simp add: FormatUint.simps [of 0])
  qed (use s FormatUint_head in auto)
  moreover have "hd s \<noteq> CHR ''-''" "hd s \<noteq> CHR ''+''"
    using s FormatUint_hd_digit [of n] by (auto simp: is_digit_def)
  ultimately show "patchArrayIndex s = Inr n"
    using s by (auto simp: patchArrayIndex_def ParseInt_def Let_def)
qed

text \<open>A path as a pointer.\<close>

fun escape_part :: "string \<Rightarrow> string" where
  "escape_part [] = []"
| "escape_part (c # t) =
     (if c = CHR ''~'' then ''~0'' else if c = CHR ''/'' then ''~1'' else [c]) @ escape_part t"

definition pointer :: "string list \<Rightarrow> string" where
  "pointer ps = concat (map (\<lambda>p. CHR ''/'' # escape_part p) ps)"

fun tilde_escaped :: "string \<Rightarrow> string" where
  "tilde_escaped [] = []"
| "tilde_escaped (c # t) = (if c = CHR ''~'' then ''~0'' else [c]) @ tilde_escaped t"

lemma replace_pair_Cons: "x \<noteq> a \<Longrightarrow> replace_pair a b c (x # t) = x # replace_pair a b c t"
  by (cases t) auto

lemma replace_slash: "replace_pair (CHR ''~'') (CHR ''1'') (CHR ''/'') (escape_part p) = tilde_escaped p"
  by (induction p) (auto simp: replace_pair_Cons)

lemma replace_tilde: "replace_pair (CHR ''~'') (CHR ''0'') (CHR ''~'') (tilde_escaped p) = p"
  by (induction p) (auto simp: replace_pair_Cons)

lemma escape_part_ok: "escapes_ok (escape_part p)" "CHR ''/'' \<notin> set (escape_part p)"
  by (induction p) auto

lemma unescape_escape_part: "unescape (escape_part p) = p"
  by (simp add: unescape_def replace_slash replace_tilde)

lemma split_pointer: "split_on (CHR ''/'') (escape_part p @ pointer ps) = map escape_part (p # ps)"
proof (induction ps arbitrary: p)
  case Nil
  then show ?case by (simp add: pointer_def split_on_no_sep escape_part_ok)
next
  case (Cons q qs)
  then have "split_on (CHR ''/'') (escape_part q @ pointer qs) = map escape_part (q # qs)" by blast
  then show ?case by (simp add: pointer_def split_on_append escape_part_ok)
qed

text \<open>
  Pointers round-trip: every path, written with \<open>~\<close> as \<open>~0\<close> and \<open>/\<close> as \<open>~1\<close>, is read back by
  \<open>parseJSONPointer\<close>.
\<close>

theorem pointer_roundtrip: "parseJSONPointer (pointer ps) = Inr ps"
proof (cases ps)
  case (Cons q qs)
  then show ?thesis
    using split_pointer [of q qs]
    by (simp add: parseJSONPointer_def pointer_def list_all_iff escape_part_ok unescape_escape_part o_def)
qed (simp add: parseJSONPointer_def pointer_def)

section \<open>Values at a path\<close>

lemma deepCopyValue_id [simp]: "deepCopyValue v = v"
proof (induction v)
  case (JObject m)
  have "fmmap deepCopyValue m = m"
  proof (rule fmap_ext)
    fix k
    show "fmlookup (fmmap deepCopyValue m) k = fmlookup m k"
      using JObject.IH [OF fmran'I] by (cases "fmlookup m k") auto
  qed
  then show ?case by simp
qed (simp_all add: map_idI)

lemma deepCopyMap_id [simp]: "deepCopyMap m = m"
  using deepCopyValue_id [of "JObject m"] by (simp add: deepCopyMap_def del: deepCopyValue_id)

lemma index_below_iff: "index_below p n = Inr i \<longleftrightarrow> p = FormatUint i \<and> i < n \<and> i < 2 ^ 63"
  using patchArrayIndex_iff [of p i] by (auto simp: index_below_def split: sum.splits if_splits)

lemma index_below_less: "index_below p n = Inr i \<Longrightarrow> m > i \<Longrightarrow> index_below p m = Inr i"
  by (simp add: index_below_iff)

lemma index_below_inject: "index_below p n = Inr i \<Longrightarrow> index_below q m = Inr i \<Longrightarrow> p = q"
  by (simp add: index_below_iff)

text \<open>The branches on which an operation on a path succeeds.\<close>

lemma setAtPath_Inr:
  assumes "setAtPath node (k # ps) v = Inr r"
  obtains (member) n where "node = JObject n" "ps = []" "r = JObject (fmupd k v n)"
  | (inside) n c u where "node = JObject n" "ps \<noteq> []" "fmlookup n k = Some c" "setAtPath c ps v = Inr u" "r = JObject (fmupd k u n)"
  | (element) n i where "node = JArray n" "ps = []" "index_below k (length n) = Inr i" "r = JArray (n[i := v])"
  | (within) n i u where "node = JArray n" "ps \<noteq> []" "index_below k (length n) = Inr i" "setAtPath (n ! i) ps v = Inr u" "r = JArray (n[i := u])"
  using assms by (cases node; cases "ps = []") (auto split: option.splits)

lemma addAtPath_Inr:
  assumes "addAtPath node (k # ps) v = Inr r"
  obtains (member) n where "node = JObject n" "ps = []" "r = JObject (fmupd k v n)"
  | (inside) n c u where "node = JObject n" "ps \<noteq> []" "fmlookup n k = Some c" "addAtPath c ps v = Inr u" "r = JObject (fmupd k u n)"
  | (append) n where "node = JArray n" "ps = []" "k = ''-''" "r = JArray (n @ [v])"
  | (insert) n i where "node = JArray n" "ps = []" "k \<noteq> ''-''" "index_below k (length n + 1) = Inr i" "r = JArray (take i n @ [v] @ drop i n)"
  | (within) n i u where "node = JArray n" "ps \<noteq> []" "index_below k (length n) = Inr i" "addAtPath (n ! i) ps v = Inr u" "r = JArray (n[i := u])"
  using assms by (cases node; cases "ps = []"; cases "k = ''-''") (auto split: option.splits)

lemma removeAtPath_Inr:
  assumes "removeAtPath node (k # ps) = Inr r"
  obtains (member) n c where "node = JObject n" "ps = []" "fmlookup n k = Some c" "r = JObject (fmdrop k n)"
  | (inside) n c u where "node = JObject n" "ps \<noteq> []" "fmlookup n k = Some c" "removeAtPath c ps = Inr u" "r = JObject (fmupd k u n)"
  | (element) n i where "node = JArray n" "ps = []" "index_below k (length n) = Inr i" "r = JArray (take i n @ drop (i + 1) n)"
  | (within) n i u where "node = JArray n" "ps \<noteq> []" "index_below k (length n) = Inr i" "removeAtPath (n ! i) ps = Inr u" "r = JArray (n[i := u])"
  using assms by (cases node; cases "ps = []") (auto split: option.splits)

lemma index_below_bound: "index_below k n = Inr i \<Longrightarrow> i < n"
  by (simp add: index_below_iff)

lemma get_set_same: "setAtPath n p v = Inr r \<Longrightarrow> getAtPath r (p @ q) = getAtPath v q"
proof (induction p arbitrary: n r)
  case (Cons k ps)
  from Cons.prems show ?case
    by (cases rule: setAtPath_Inr) (auto simp: Cons.IH index_below_bound)
qed simp

lemma get_set_other:
  "setAtPath n p v = Inr r \<Longrightarrow> \<not> prefix p q \<Longrightarrow> \<not> prefix q p \<Longrightarrow> getAtPath r q = getAtPath n q"
proof (induction p arbitrary: n r q)
  case (Cons k ps)
  then obtain k' qs where q: "q = k' # qs" by (cases q) auto
  have arr: "getAtPath (JArray (xs[i := u])) q = getAtPath (JArray xs) q"
    if "index_below k (length xs) = Inr i" "k' = k \<Longrightarrow> getAtPath u qs = getAtPath (xs ! i) qs" for xs i u
  proof (cases "index_below k' (length xs)")
    case (Inr j)
    show ?thesis
    proof (cases "j = i")
      case True
      with Inr that(1) have "k' = k" using index_below_inject by blast
      from that(2) [OF this] True Inr index_below_bound [OF that(1)] show ?thesis by (simp add: q)
    qed (simp add: q Inr)
  qed (simp add: q)
  from Cons.prems(1) show ?case
  proof (cases rule: setAtPath_Inr)
    case (member m)
    with Cons.prems q show ?thesis by auto
  next
    case (inside m c u)
    with Cons.prems q Cons.IH [OF inside(4), of qs] show ?thesis by auto
  next
    case (element xs i)
    with Cons.prems q arr [of xs i v] show ?thesis by auto
  next
    case (within xs i u)
    with Cons.prems q Cons.IH [OF within(4), of qs] arr [of xs i u] show ?thesis by auto
  qed
qed simp

lemma get_add_same:
  "addAtPath n p v = Inr r \<Longrightarrow> p = [] \<or> last p \<noteq> ''-'' \<Longrightarrow> getAtPath r (p @ q) = getAtPath v q"
proof (induction p arbitrary: n r)
  case (Cons k ps)
  from Cons.prems(1) show ?case
  proof (cases rule: addAtPath_Inr)
    case (insert xs i)
    then have "index_below k (length (take i xs @ v # drop i xs)) = Inr i" "length (take i xs) = i"
      using index_below_bound [OF insert(4)] by (auto elim: index_below_less)
    then show ?thesis using insert by (simp add: nth_append)
  qed (use Cons.prems(2) Cons.IH in \<open>auto simp: index_below_bound split: if_splits\<close>)
qed simp

text \<open>Paths at which an addition creates a new member or element.\<close>

fun adds_new :: "json \<Rightarrow> string list \<Rightarrow> bool" where
  "adds_new node [] = False"
| "adds_new node (k # ps) = (case node of
       JObject n \<Rightarrow> (case fmlookup n k of None \<Rightarrow> ps = [] | Some c \<Rightarrow> ps \<noteq> [] \<and> adds_new c ps)
     | JArray n \<Rightarrow> if ps = [] then k \<noteq> ''-'' else (case index_below k (length n) of Inl e \<Rightarrow> False | Inr i \<Rightarrow> adds_new (n ! i) ps)
     | _ \<Rightarrow> False)"

lemma fmdrop_fmupd_new: "fmlookup m k = None \<Longrightarrow> fmdrop k (fmupd k v m) = m"
  by (rule fmap_ext) auto

lemma fmupd_same: "fmlookup m k = Some v \<Longrightarrow> fmupd k v m = m"
  by (rule fmap_ext) auto

lemma fmupd_fmdrop: "fmlookup m k = Some v \<Longrightarrow> fmupd k v (fmdrop k m) = m"
  by (rule fmap_ext) auto

lemma fmupd_fmupd: "fmupd k v (fmupd k w m) = fmupd k v m"
  by (rule fmap_ext) auto

lemma remove_add: "addAtPath n p v = Inr r \<Longrightarrow> adds_new n p \<Longrightarrow> removeAtPath r p = Inr n"
proof (induction p arbitrary: n r)
  case (Cons k ps)
  from Cons.prems(1) show ?case
  proof (cases rule: addAtPath_Inr)
    case (member m)
    with Cons.prems(2) show ?thesis by (auto simp: fmdrop_fmupd_new split: option.splits)
  next
    case (inside m c u)
    with Cons.prems(2) Cons.IH [OF inside(4)] show ?thesis by (auto simp: fmupd_fmupd fmupd_same)
  next
    case (insert xs i)
    then have i: "index_below k (length (take i xs @ v # drop i xs)) = Inr i" "length (take i xs) = i"
      using index_below_bound [OF insert(4)] by (auto elim: index_below_less)
    then show ?thesis using insert by simp
  next
    case (within xs i u)
    with Cons.prems(2) Cons.IH [OF within(4)] show ?thesis by (auto simp: index_below_bound)
  qed (use Cons.prems(2) in simp)
qed simp

lemma add_remove:
  "removeAtPath n p = Inr r \<Longrightarrow> getAtPath n p = Inr v \<Longrightarrow> addAtPath r p v = Inr n"
proof (induction p arbitrary: n r)
  case (Cons k ps)
  from Cons.prems(1) show ?case
  proof (cases rule: removeAtPath_Inr)
    case (member m c)
    with Cons.prems(2) show ?thesis by (simp add: fmupd_fmdrop)
  next
    case (inside m c u)
    with Cons.prems(2) Cons.IH [OF inside(4)] show ?thesis by (simp add: fmupd_fmupd fmupd_same)
  next
    case (element xs i)
    note i = index_below_bound [OF element(3)]
    have "k = FormatUint i" using element(3) by (simp add: index_below_iff)
    then have "k \<noteq> ''-''" using FormatUint_hd_digit [of i] by (auto simp: is_digit_def)
    moreover have "index_below k (length (take i xs @ drop (i + 1) xs) + 1) = Inr i" "length (take i xs) = i"
      using i by (auto intro: index_below_less [OF element(3)])
    moreover have "v # drop (Suc i) xs = drop i xs" using Cons_nth_drop_Suc [OF i] Cons.prems(2) element by simp
    ultimately show ?thesis using element by simp
  next
    case (within xs i u)
    with Cons.prems(2) Cons.IH [OF within(4)] show ?thesis by (auto simp: index_below_bound)
  qed
qed simp

lemma remove_exists: "p \<noteq> [] \<Longrightarrow> getAtPath n p = Inr v \<Longrightarrow> \<exists>r. removeAtPath n p = Inr r"
proof (induction p arbitrary: n)
  case (Cons k ps)
  then show ?case by (cases n; cases "ps = []") (fastforce split: option.splits sum.splits)+
qed simp

lemma set_exists: "getAtPath n p = Inr w \<Longrightarrow> \<exists>r. setAtPath n p v = Inr r"
proof (induction p arbitrary: n)
  case (Cons k ps)
  then show ?case by (cases n; cases "ps = []") (fastforce split: option.splits sum.splits)+
qed simp

section \<open>Operations\<close>

lemma pointer_not_Nil: "ps \<noteq> [] \<Longrightarrow> pointer ps \<noteq> []"
  by (cases ps) (simp_all add: pointer_def)

lemma as_object_Inr [simp]: "as_object r = Inr m \<longleftrightarrow> r = Inr (JObject m)"
  by (cases r; cases "projr r") (auto simp: as_object_def)

lemma wrap_error_Inr [simp]: "wrap_error w r = Inr x \<longleftrightarrow> r = Inr x"
  by (cases r) (simp_all add: wrap_error_def)

lemma setAtPath_object: "ps \<noteq> [] \<Longrightarrow> setAtPath (JObject m) ps v = Inr r \<Longrightarrow> \<exists>m'. r = JObject m'"
  by (cases ps) (auto split: if_splits option.splits)

lemma patchAddRoot_Inr:
  "ps \<noteq> [] \<Longrightarrow> patchAddRoot rt (pointer ps) v = Inr rt' \<longleftrightarrow> addAtPath (JObject rt) ps v = Inr (JObject rt')"
  by (simp add: patchAddRoot_def pointer_roundtrip pointer_not_Nil)

lemma patchRemoveRoot_Inr:
  "ps \<noteq> [] \<Longrightarrow> patchRemoveRoot rt (pointer ps) = Inr rt' \<longleftrightarrow> removeAtPath (JObject rt) ps = Inr (JObject rt')"
  by (simp add: patchRemoveRoot_def pointer_roundtrip)

lemma patchReplaceRoot_Inr:
  "ps \<noteq> [] \<Longrightarrow> patchReplaceRoot rt (pointer ps) v = Inr rt' \<longleftrightarrow>
     (\<exists>w. getAtPath (JObject rt) ps = Inr w) \<and> setAtPath (JObject rt) ps v = Inr (JObject rt')"
  by (auto simp: patchReplaceRoot_def pointer_roundtrip pointer_not_Nil)

text \<open>A document for the witnesses: an object with an array of two elements.\<close>

definition sample_doc :: document where
  "sample_doc = fmap_of_list [(''a'', JArray [JNull, JBool True]), (''b'', JString ''x'')]"

lemma index_below_digits [simp]: "index_below ''1'' (Suc (Suc n)) = Inr 1"
  by (simp add: index_below_iff FormatUint.simps [of "Suc 0"] digit_char_def eq_char_iff)

lemma pointer_sample: "pointer [''a'', ''1''] = ''/a/1''"
  by (simp add: pointer_def)

text \<open>
  C37. Replacement: it succeeds exactly at paths that exist; afterwards the value, and everything
  under it, is found at that path, and every path that neither lies under it nor leads to it
  gives what it gave before.
\<close>

theorem replace_at_path:
  assumes "ps \<noteq> []"
  shows "((\<exists>rt'. patchReplaceRoot rt (pointer ps) v = Inr rt') \<longleftrightarrow> (\<exists>w. getAtPath (JObject rt) ps = Inr w)) \<and>
    (\<forall>rt' q. patchReplaceRoot rt (pointer ps) v = Inr rt' \<longrightarrow>
      getAtPath (JObject rt') (ps @ q) = getAtPath v q \<and>
      (\<not> prefix ps q \<and> \<not> prefix q ps \<longrightarrow> getAtPath (JObject rt') q = getAtPath (JObject rt) q))"
proof -
  have "\<exists>rt'. setAtPath (JObject rt) ps v = Inr (JObject rt')" if "getAtPath (JObject rt) ps = Inr w" for w
    using set_exists [OF that] setAtPath_object [OF assms] by blast
  then show ?thesis using assms get_set_same get_set_other by (simp add: patchReplaceRoot_Inr) blast
qed

theorem replace_at_path_witness:
  "getAtPath (JObject (fmap_of_list [(''a'', JArray [JNull, JString ''y'']), (''b'', JString ''x'')])) [''a'', ''1''] = Inr (JString ''y'') \<and>
   patchReplaceRoot sample_doc (pointer [''a'', ''1'']) (JString ''y'') =
     Inr (fmap_of_list [(''a'', JArray [JNull, JString ''y'']), (''b'', JString ''x'')])"
proof -
  have r: "patchReplaceRoot sample_doc (pointer [''a'', ''1'']) (JString ''y'') =
      Inr (fmap_of_list [(''a'', JArray [JNull, JString ''y'']), (''b'', JString ''x'')])"
    by (simp add: patchReplaceRoot_Inr sample_doc_def fmlookup_of_list fmupd_fmupd)
  with replace_at_path [of "[''a'', ''1'']" sample_doc "JString ''y''"] have
    "getAtPath (JObject (fmap_of_list [(''a'', JArray [JNull, JString ''y'']), (''b'', JString ''x'')])) ([''a'', ''1''] @ []) = getAtPath (JString ''y'') []"
    by blast
  with r show ?thesis by simp
qed

text \<open>
  An addition that creates a member or an array element is undone by removing the same path:
  it puts the value there and changes nothing else.
\<close>

theorem add_then_remove:
  assumes "adds_new (JObject rt) ps" "patchAddRoot rt (pointer ps) v = Inr rt'" "last ps \<noteq> ''-''"
  shows "getAtPath (JObject rt') ps = Inr v \<and> patchRemoveRoot rt' (pointer ps) = Inr rt"
proof -
  have ps: "ps \<noteq> []" using assms(1) by auto
  with assms(2) have a: "addAtPath (JObject rt) ps v = Inr (JObject rt')" by (simp add: patchAddRoot_Inr)
  show ?thesis
    using get_add_same [OF a, of "[]"] remove_add [OF a assms(1)] assms(3) ps by (simp add: patchRemoveRoot_Inr)
qed

theorem add_then_remove_witness:
  "patchAddRoot sample_doc (pointer [''a'', ''1'']) JNull = Inr (fmap_of_list [(''a'', JArray [JNull, JNull, JBool True]), (''b'', JString ''x'')]) \<and>
   patchRemoveRoot (fmap_of_list [(''a'', JArray [JNull, JNull, JBool True]), (''b'', JString ''x'')]) (pointer [''a'', ''1'']) = Inr sample_doc"
proof -
  have a: "patchAddRoot sample_doc (pointer [''a'', ''1'']) JNull = Inr (fmap_of_list [(''a'', JArray [JNull, JNull, JBool True]), (''b'', JString ''x'')])"
    by (simp add: patchAddRoot_Inr sample_doc_def fmlookup_of_list fmupd_fmupd)
  have "adds_new (JObject sample_doc) [''a'', ''1'']" by (simp add: sample_doc_def fmlookup_of_list)
  from add_then_remove [OF this a] a show ?thesis by simp
qed

text \<open>
  Moving a value to where it is changes nothing.
\<close>

theorem move_onto_itself:
  assumes "ps \<noteq> []" "getAtPath (JObject rt) ps = Inr v"
  shows "patchMoveRoot rt (pointer ps) (pointer ps) = Inr rt"
proof -
  obtain r where r: "removeAtPath (JObject rt) ps = Inr r" using remove_exists [OF assms] by blast
  with add_remove [OF r assms(2)] assms show ?thesis
    by (simp add: patchMoveRoot_def pointer_not_Nil pointer_roundtrip)
qed

theorem move_onto_itself_witness:
  "patchMoveRoot sample_doc ''/a/1'' ''/a/1'' = Inr sample_doc"
  using move_onto_itself [of "[''a'', ''1'']" sample_doc "JBool True"]
  by (simp add: sample_doc_def fmlookup_of_list pointer_sample)

section \<open>Equality by value\<close>

text \<open>What a JSON text denotes: numbers by their value.\<close>

datatype jval =
    VNull | VBool bool | VNum rat | VNative bool "raw option" | VStr string | VArr "jval list" | VObj "(string, jval) fmap"

primrec jval_of :: "json \<Rightarrow> jval" where
  "jval_of JNull = VNull"
| "jval_of (JBool b) = VBool b"
| "jval_of (JNumber t) = VNum (the (patchNumber t))"
| "jval_of (JNative f r) = VNative f r"
| "jval_of (JString t) = VStr t"
| "jval_of (JArray xs) = VArr (map jval_of xs)"
| "jval_of (JObject m) = VObj (fmmap jval_of m)"

text \<open>Numbers within the limits of \<open>patchNumber\<close>.\<close>

primrec num_ok :: "json \<Rightarrow> bool" where
  "num_ok JNull = True"
| "num_ok (JBool b) = True"
| "num_ok (JNumber t) = (patchNumber t \<noteq> None)"
| "num_ok (JNative f r) = True"
| "num_ok (JString t) = True"
| "num_ok (JArray xs) = list_all (\<lambda>b. b) (map num_ok xs)"
| "num_ok (JObject m) = fmpred (\<lambda>k b. b) (fmmap num_ok m)"

lemma num_ok_JObject: "num_ok (JObject m) \<longleftrightarrow> (\<forall>k w. fmlookup m k = Some w \<longrightarrow> num_ok w)"
  by (auto simp: fmpred_iff)

lemma fmdom_card_eq:
  assumes "fcard (fmdom a) = fcard (fmdom b)" "\<And>k. fmlookup a k \<noteq> None \<Longrightarrow> fmlookup b k \<noteq> None"
  shows "fmlookup a k = None \<longleftrightarrow> fmlookup b k = None"
proof -
  have "fmdom a |\<subseteq>| fmdom b" using assms(2) by (auto simp: fmlookup_dom_iff)
  then have "fmdom a = fmdom b" using assms(1) by (metis fcard_seteq le_refl)
  then show ?thesis by (metis fmdom_notD fmdom_notI)
qed

lemma decoded_objects_equal:
  assumes "\<And>k x y. fmlookup a k = Some x \<Longrightarrow> eq x y \<longleftrightarrow> num_ok x \<and> num_ok y \<and> jval_of x = jval_of y"
  shows "fcard (fmdom a) = fcard (fmdom b) \<and> (\<forall>k x. fmlookup a k = Some x \<longrightarrow> (\<exists>y. fmlookup b k = Some y \<and> eq x y)) \<longleftrightarrow>
    num_ok (JObject a) \<and> num_ok (JObject b) \<and> fmmap jval_of a = fmmap jval_of b"
proof
  assume l: "fcard (fmdom a) = fcard (fmdom b) \<and> (\<forall>k x. fmlookup a k = Some x \<longrightarrow> (\<exists>y. fmlookup b k = Some y \<and> eq x y))"
  have d: "fmlookup a k = None \<longleftrightarrow> fmlookup b k = None" for k
    by (rule fmdom_card_eq) (use l in \<open>auto; fastforce\<close>)+
  have "fmlookup (fmmap jval_of a) k = fmlookup (fmmap jval_of b) k" for k
    using l d [of k] assms [of k] by (cases "fmlookup a k") force+
  moreover have "num_ok w" if "fmlookup b k = Some w" for k w
    using l d [of k] assms [of k] that by (cases "fmlookup a k") force+
  moreover have "num_ok w" if "fmlookup a k = Some w" for k w using l assms that by blast
  ultimately show "num_ok (JObject a) \<and> num_ok (JObject b) \<and> fmmap jval_of a = fmmap jval_of b"
    by (auto simp: num_ok_JObject intro: fmap_ext)
next
  assume r: "num_ok (JObject a) \<and> num_ok (JObject b) \<and> fmmap jval_of a = fmmap jval_of b"
  then have "fmdom a = fmdom b" by (metis fmdom_map)
  moreover have m: "map_option jval_of (fmlookup a k) = map_option jval_of (fmlookup b k)" for k
    using r by (metis fmlookup_map)
  have "\<exists>y. fmlookup b k = Some y \<and> eq x y" if "fmlookup a k = Some x" for k x
    using m [of k] that r assms [OF that] by (cases "fmlookup b k") (auto simp: num_ok_JObject)
  ultimately show "fcard (fmdom a) = fcard (fmdom b) \<and> (\<forall>k x. fmlookup a k = Some x \<longrightarrow> (\<exists>y. fmlookup b k = Some y \<and> eq x y))"
    by auto
qed

lemma patchDecodedEqual_iff: "patchDecodedEqual a b \<longleftrightarrow> num_ok a \<and> num_ok b \<and> jval_of a = jval_of b"
proof (induction a arbitrary: b)
  case (JNumber t)
  then show ?case by (cases b) (auto split: option.splits)
next
  case (JArray xs)
  have "(length xs = length ys \<and> list_all (\<lambda>(eq, y). eq y) (zip (map patchDecodedEqual xs) ys)) \<longleftrightarrow>
      list_all num_ok xs \<and> list_all num_ok ys \<and> map jval_of xs = map jval_of ys" for ys
    using JArray.IH
  proof (induction xs arbitrary: ys)
    case (Cons x xs)
    then show ?case by (cases ys) auto
  qed auto
  then show ?case by (cases b) (auto simp: list.pred_map o_def)
next
  case (JObject m)
  have "patchDecodedEqual (JObject m) (JObject m') \<longleftrightarrow>
      fcard (fmdom m) = fcard (fmdom m') \<and> (\<forall>k x. fmlookup m k = Some x \<longrightarrow> (\<exists>y. fmlookup m' k = Some y \<and> patchDecodedEqual x y))" for m'
    by (fastforce simp: fmpred_iff split: option.splits)
  then have "patchDecodedEqual (JObject m) (JObject m') \<longleftrightarrow> num_ok (JObject m) \<and> num_ok (JObject m') \<and> fmmap jval_of m = fmmap jval_of m'" for m'
    using decoded_objects_equal [of m patchDecodedEqual m'] JObject.IH [OF fmran'I] by simp
  note obj = this
  show ?case
  proof (cases "\<exists>m'. b = JObject m'")
    case True
    then obtain m' where "b = JObject m'" by blast
    with obj [of m'] show ?thesis by (simp only: jval_of.simps jval.inject)
  qed (cases b; simp)
next
  case JNull
  show ?case by (cases b) auto
next
  case (JBool x)
  show ?case by (cases b) auto
next
  case (JNative f r)
  show ?case by (cases b) auto
next
  case (JString t)
  show ?case by (cases b) auto
qed

lemma remarshal_ok: "json_ok v \<Longrightarrow> nesting v \<le> maxNestingDepth \<Longrightarrow> remarshal v = Some v"
  by (simp add: remarshal_def marshal_roundtrip)

text \<open>
  The test operation compares by value: on decoded values, up to the nesting limit, two values
  are equal exactly when all their numbers are within the number limits and they denote the same
  thing, with numbers by their exact value and objects regardless of member order.
\<close>

theorem test_equality_by_value:
  assumes "json_ok a" "nesting a \<le> maxNestingDepth" "json_ok b" "nesting b \<le> maxNestingDepth"
  shows "patchValuesEqual a b \<longleftrightarrow> num_ok a \<and> num_ok b \<and> jval_of a = jval_of b"
  using remarshal_ok [OF assms(1,2)] remarshal_ok [OF assms(3,4)] by (simp add: patchValuesEqual_def patchDecodedEqual_iff)

theorem test_equality_by_value_witness:
  "patchValuesEqual (JArray [JNumber ''10'', JString ''a'']) (JArray [JNumber ''1.0e1'', JString ''a'']) \<and>
   \<not> patchValuesEqual (JArray [JNumber ''10'', JString ''a'']) (JArray [JNumber ''1.0e2'', JString ''a''])"
proof -
  have v: "json_ok (JArray [JNumber ''10'', JString ''a''])" "json_ok (JArray [JNumber ''1.0e1'', JString ''a''])"
    "json_ok (JArray [JNumber ''1.0e2'', JString ''a''])"
    by (simp_all add: isValidNumber_def scan_number_def scan_int_def scan_frac_def scan_exp_def scan_digits_def is_digit_def)
  have n: "patchNumber ''10'' = Some 10" "patchNumber ''1.0e1'' = Some 10" "patchNumber ''1.0e2'' = Some 100"
    by (simp_all add: patchNumber_def Rat_SetString_def filterNumberPattern_def signed_digits_def is_digit_def Let_def ParseInt_def
      digits_val_def digit_val_def pow10_def)
  have d: "nesting (JArray [JNumber x, JString y]) \<le> maxNestingDepth" for x y by (simp add: maxNestingDepth_def)
  show ?thesis
    using test_equality_by_value [OF v(1) d v(2) d] test_equality_by_value [OF v(1) d v(3) d] n by simp
qed

section \<open>Patches\<close>

lemma apply_ops_append:
  "apply_ops d (xs @ ys) = (case apply_ops d xs of Inl e \<Rightarrow> Inl e | Inr d' \<Rightarrow> apply_ops d' ys)"
  by (induction xs arbitrary: d) (auto split: sum.splits)

text \<open>
  Patches compose: applying one patch and then another is applying their concatenation, the
  first failing operation decides the error, and a test leaves the document as it is.
\<close>

theorem patch_sequential:
  "applyJSONPatch doc (xs @ op # ys) =
     (case applyJSONPatch doc xs of
        Inl e \<Rightarrow> Inl e
      | Inr d \<Rightarrow> (case applyJSONPatch d [op] of
          Inl e \<Rightarrow> Inl e
        | Inr d' \<Rightarrow> if op_Op op = ''test'' then applyJSONPatch d ys else applyJSONPatch d' ys))"
  by (auto simp: applyJSONPatch_def apply_ops_append apply_op_def split: sum.splits)

text \<open>
  A value that was added passes a test for it: after a successful addition at a path that is
  not an array append, testing the path for the added value succeeds and leaves the document.
\<close>

theorem add_then_test:
  assumes "json_ok v" "nesting v \<le> maxNestingDepth" "num_ok v" "ps \<noteq> []" "last ps \<noteq> ''-''"
    and "add = \<lparr>op_Op = ''add'', op_Path = pointer ps, op_From = [], op_Value = v\<rparr>"
    and "test = \<lparr>op_Op = ''test'', op_Path = pointer ps, op_From = [], op_Value = v\<rparr>"
  shows "applyJSONPatch doc [add, test] = applyJSONPatch doc [add]"
proof -
  have "patchTestRoot d (pointer ps) v = Inr ()" if "addAtPath (JObject doc) ps v = Inr (JObject d)" for d
    using get_add_same [OF that, of "[]"] assms(1-5) remarshal_ok [OF assms(1,2)]
    by (simp add: patchTestRoot_def pointer_roundtrip pointer_not_Nil patchValuesEqual_def patchDecodedEqual_iff wrap_error_def)
  note tst = this
  show ?thesis
  proof (cases "patchAddRoot doc (pointer ps) v")
    case (Inr d)
    then have "addAtPath (JObject doc) ps v = Inr (JObject d)" using patchAddRoot_Inr [OF assms(4)] by simp
    from tst [OF this] Inr show ?thesis by (simp add: applyJSONPatch_def apply_op_def assms(6,7))
  qed (simp add: applyJSONPatch_def apply_op_def assms(6,7))
qed

theorem add_then_test_witness:
  "applyJSONPatch sample_doc
     [\<lparr>op_Op = ''add'', op_Path = ''/a/1'', op_From = [], op_Value = JString ''y''\<rparr>,
      \<lparr>op_Op = ''test'', op_Path = ''/a/1'', op_From = [], op_Value = JString ''y''\<rparr>] =
   Inr (fmap_of_list [(''a'', JArray [JNull, JString ''y'', JBool True]), (''b'', JString ''x'')])"
proof -
  have "applyJSONPatch sample_doc [\<lparr>op_Op = ''add'', op_Path = pointer [''a'', ''1''], op_From = [], op_Value = JString ''y''\<rparr>] =
      Inr (fmap_of_list [(''a'', JArray [JNull, JString ''y'', JBool True]), (''b'', JString ''x'')])"
    using patchAddRoot_Inr [of "[''a'', ''1'']" sample_doc "JString ''y''"]
    by (simp add: applyJSONPatch_def apply_op_def sample_doc_def fmlookup_of_list fmupd_fmupd)
  with add_then_test [of "JString ''y''" "[''a'', ''1'']", OF _ _ _ _ _ refl refl, of sample_doc] show ?thesis
    by (simp add: maxNestingDepth_def pointer_sample)
qed

text \<open>
  A location in an array can be moved into itself: removing an element first lets the path of
  its child name the next element. RFC 6902 forbids moving a location into one of its children.
\<close>

theorem move_into_own_child:
  "applyJSONPatch (fmap_of_list [(''a'', JArray [JObject (fmap_of_list [(''x'', JNull)]), JObject fmempty])])
     [\<lparr>op_Op = ''move'', op_Path = ''/a/0/z'', op_From = ''/a/0'', op_Value = JNull\<rparr>] =
   Inr (fmap_of_list [(''a'', JArray [JObject (fmap_of_list [(''z'', JObject (fmap_of_list [(''x'', JNull)]))])])])"
proof -
  have p: "parseJSONPointer ''/a/0'' = Inr [''a'', ''0'']" "parseJSONPointer ''/a/0/z'' = Inr [''a'', ''0'', ''z'']"
    by (simp_all add: parseJSONPointer_def unescape_def)
  have i: "index_below ''0'' 2 = Inr 0" "index_below ''0'' 1 = Inr 0" "index_below ''0'' (Suc 0) = Inr 0" "index_below ''0'' (Suc (Suc 0)) = Inr 0"
    by (simp_all add: index_below_iff FormatUint.simps [of 0] digit_char_def eq_char_iff)
  show ?thesis
    by (simp add: applyJSONPatch_def apply_op_def patchMoveRoot_def p i wrap_error_def as_object_def fmlookup_of_list)
qed

end
