(* ===== verification/Mutation_Build.thy ===== *)
theory Mutation_Build
  imports Geojson_Correct Json_Patch_Correct
begin

text \<open>
  Model of \<^verbatim>\<open>server/mutation_build.go\<close>: mutations built from a parsed feature (insert, replace) and
  from a patch of the current feature (update), and what they contain.
\<close>

datatype build_error =
    GeoError geo_error
  | PatchNotObject
  | ImmutableTypeOrId
  | UnsupportedMember string
  | BuildPropertiesNotObject
  | BuildGeometryNotObject
  | EncodeFailed
  | ReplaceRequiresGeometry
  | RequiredPropertyMissing string
  | JSONPatchFailed patch_error

text \<open>\<^verbatim>\<open>features.Feature\<close>: the geometry is raw JSON text.\<close>

record ogc_feature =
  ft_ID :: u64
  ft_Geometry :: string
  ft_Properties :: "(string, json) fmap"

definition base_mutation :: "MutationOp \<Rightarrow> string \<Rightarrow> (string \<times> MutationValue) list \<Rightarrow> Mutation" where
  "base_mutation oper collection props = \<lparr>m_Op = oper, m_Collection = collection, m_FeatureID = 0, m_Properties = props,
     m_GeometryWKB = None, m_GeometryAbsent = False, m_GeometrySRID = 0, m_GeometryUnchanged = False, m_IfRevision = []\<rparr>"

text \<open>The vendored geometry encoder is the argument \<open>encode\<close>.\<close>

definition buildInsertMutation ::
    "(geometry \<Rightarrow> string option) \<Rightarrow> SchemaDescriptor \<Rightarrow> string \<Rightarrow> geoJSONFeature \<Rightarrow> build_error + Mutation" where
  "buildInsertMutation encode schema collection gf =
     (case mutationInputToProvider schema (gf_Properties gf) of
        Inl e \<Rightarrow> Inl (GeoError e)
      | Inr props \<Rightarrow>
          let m = base_mutation MutationInsert collection props in
          if gf_HasGeometry gf then
            (case encode (the (gf_Geometry gf)) of
               None \<Rightarrow> Inl EncodeFailed
             | Some wkb \<Rightarrow> Inr (m\<lparr>m_GeometryWKB := Some wkb, m_GeometrySRID := 4326\<rparr>))
          else if gf_GeometryNull gf then Inr (m\<lparr>m_GeometryAbsent := True\<rparr>)
          else Inr m)"

text \<open>The loop over the declared properties; \<open>ps\<close> are the properties of the mutation so far.\<close>

fun fill_absent :: "PropertyDescriptor list \<Rightarrow> (string \<times> MutationValue) list \<Rightarrow> build_error + (string \<times> MutationValue) list" where
  "fill_absent [] ps = Inr ps"
| "fill_absent (d # ds) ps =
     (if pd_ReadOnly d then fill_absent ds ps
      else if map_of ps (pd_Name d) \<noteq> None then fill_absent ds ps
      else if pd_Nullable d then fill_absent ds (ps @ [(pd_Name d, zero_mv\<lparr>mv_Null := True\<rparr>)])
      else if pd_HasDefault d then fill_absent ds ps
      else if pd_Required d then Inl (RequiredPropertyMissing (pd_Name d))
      else fill_absent ds ps)"

definition buildReplaceMutation ::
    "(geometry \<Rightarrow> string option) \<Rightarrow> SchemaDescriptor \<Rightarrow> string \<Rightarrow> u64 \<Rightarrow> geoJSONFeature \<Rightarrow> build_error + Mutation" where
  "buildReplaceMutation encode schema collection featureID gf =
     (if \<not> gf_HasGeometry gf \<and> \<not> gf_GeometryNull gf then Inl ReplaceRequiresGeometry
      else (case buildInsertMutation encode schema collection gf of
          Inl e \<Rightarrow> Inl e
        | Inr m \<Rightarrow> (case fill_absent (sd_Properties schema) (m_Properties m) of
              Inl e \<Rightarrow> Inl e
            | Inr ps \<Rightarrow> Inr (m\<lparr>m_Properties := ps, m_Op := MutationReplace, m_FeatureID := featureID\<rparr>))))"

definition has_geometry :: "ogc_feature \<Rightarrow> bool" where
  "has_geometry current \<longleftrightarrow> ft_Geometry current \<noteq> [] \<and> ft_Geometry current \<noteq> ''null''"

definition copyProps :: "(string, json) fmap \<Rightarrow> (string, json) fmap" where
  "copyProps m = fmmap (\<lambda>v. v) m"

text \<open>The identifier is a Go integer, not a \<^verbatim>\<open>json.Number\<close>.\<close>

definition id_value :: "u64 \<Rightarrow> json" where
  "id_value i = JNative False (Some (RNumber (FormatUint (unat i))))"

definition patchFeatureDocument :: "ogc_feature \<Rightarrow> (string, json) fmap" where
  "patchFeatureDocument current =
     (let doc = fmap_of_list [(''type'', JString ''Feature''), (''id'', id_value (ft_ID current)),
            (''properties'', JObject (copyProps (ft_Properties current))), (''geometry'', JNull)]
      in if has_geometry current
         then fmupd ''geometry'' (JObject (case jsonRawToMap (ft_Geometry current) of None \<Rightarrow> fmempty | Some m \<Rightarrow> m)) doc
         else doc)"

definition feature_members :: "string list" where
  "feature_members = [''type'', ''id'', ''geometry'', ''properties'']"

definition merged_properties :: "(string, json) fmap \<Rightarrow> build_error + (string, json) fmap" where
  "merged_properties merged = (case fmlookup merged ''properties'' of
       None \<Rightarrow> Inr fmempty
     | Some JNull \<Rightarrow> Inr fmempty
     | Some (JObject m) \<Rightarrow> Inr m
     | Some _ \<Rightarrow> Inl BuildPropertiesNotObject)"

definition changed_properties :: "(string, json) fmap \<Rightarrow> (string, json) fmap \<Rightarrow> (string, json) fmap" where
  "changed_properties current merged =
     fmadd
       (fmfilter (\<lambda>k. case fmlookup current k of None \<Rightarrow> True | Some cv \<Rightarrow> \<not> jsonEqual cv (the (fmlookup merged k))) merged)
       (fmmap (\<lambda>_. JNull) (fmfilter (\<lambda>k. fmlookup merged k = None) current))"

definition geometry_update ::
    "(geometry \<Rightarrow> string option) \<Rightarrow> ogc_feature \<Rightarrow> (string, json) fmap \<Rightarrow> Mutation \<Rightarrow> build_error + Mutation" where
  "geometry_update encode current merged m = (case fmlookup merged ''geometry'' of
       None \<Rightarrow> Inr (if has_geometry current then m\<lparr>m_GeometryAbsent := True\<rparr> else m)
     | Some JNull \<Rightarrow> Inr (if has_geometry current then m\<lparr>m_GeometryAbsent := True\<rparr> else m)
     | Some (JObject gm) \<Rightarrow> (case parseGeoJSONGeometry gm of
           Inl e \<Rightarrow> Inl (GeoError e)
         | Inr g \<Rightarrow> (case encode g of
               None \<Rightarrow> Inl EncodeFailed
             | Some wkb \<Rightarrow>
                 if \<not> geometryEqual encode (ft_Geometry current) (Some wkb)
                 then Inr (m\<lparr>m_GeometryWKB := Some wkb, m_GeometrySRID := 4326\<rparr>) else Inr m))
     | Some _ \<Rightarrow> Inl BuildGeometryNotObject)"

definition buildMutationFromMerged ::
    "(geometry \<Rightarrow> string option) \<Rightarrow> SchemaDescriptor \<Rightarrow> string \<Rightarrow> u64 \<Rightarrow> ogc_feature \<Rightarrow> (string, json) fmap \<Rightarrow> build_error + Mutation" where
  "buildMutationFromMerged encode schema collection featureID current merged =
     (if fmlookup merged ''type'' \<noteq> Some (JString ''Feature'') \<or>
         \<not> jsonEqual (case fmlookup merged ''id'' of None \<Rightarrow> JNull | Some v \<Rightarrow> v) (id_value (ft_ID current))
      then Inl ImmutableTypeOrId
      else (case List.find (\<lambda>k. k \<notin> set feature_members) (sorted_list_of_fset (fmdom merged)) of
          Some k \<Rightarrow> Inl (UnsupportedMember k)
        | None \<Rightarrow> (case merged_properties merged of
            Inl e \<Rightarrow> Inl e
          | Inr mergedProps \<Rightarrow> (case mutationInputToProvider schema (changed_properties (ft_Properties current) mergedProps) of
              Inl e \<Rightarrow> Inl (GeoError e)
            | Inr props \<Rightarrow>
                geometry_update encode current merged ((base_mutation MutationUpdate collection props)\<lparr>m_FeatureID := featureID\<rparr>)))))"

definition buildPatchMutation ::
    "(geometry \<Rightarrow> string option) \<Rightarrow> SchemaDescriptor \<Rightarrow> string \<Rightarrow> u64 \<Rightarrow> ogc_feature \<Rightarrow> (string, json) fmap option \<Rightarrow> build_error + Mutation" where
  "buildPatchMutation encode schema collection featureID current patch = (case patch of
       None \<Rightarrow> Inl PatchNotObject
     | Some p \<Rightarrow> buildMutationFromMerged encode schema collection featureID current (applyMergePatch (patchFeatureDocument current) p))"

definition buildJSONPatchMutation ::
    "(geometry \<Rightarrow> string option) \<Rightarrow> SchemaDescriptor \<Rightarrow> string \<Rightarrow> u64 \<Rightarrow> ogc_feature \<Rightarrow> JSONPatchOp list \<Rightarrow> build_error + Mutation" where
  "buildJSONPatchMutation encode schema collection featureID current ops =
     (case applyJSONPatch (patchFeatureDocument current) ops of
        Inl e \<Rightarrow> Inl (JSONPatchFailed e)
      | Inr merged \<Rightarrow> buildMutationFromMerged encode schema collection featureID current merged)"

section \<open>Updates\<close>

lemma map_fst_converted:
  assumes "mutationInputToProvider schema props = Inr out"
  shows "set (map fst out) = fset (fmdom props)"
proof -
  have "map fst out = map fst (members props)"
    using assms by (intro convert_each_fst [of "convert_property schema"]) (auto simp: mutationInputToProvider_def convert_property_Inr)
  then have "set (map fst out) = set (map fst (members props))" by simp
  then show ?thesis by (simp add: members_def sorted_list_of_fset.rep_eq o_def)
qed

lemma changed_properties_lookup:
  "fmlookup (changed_properties current merged) k =
     (case fmlookup merged k of
        None \<Rightarrow> map_option (\<lambda>_. JNull) (fmlookup current k)
      | Some v \<Rightarrow> (case fmlookup current k of None \<Rightarrow> Some v | Some cv \<Rightarrow> if jsonEqual cv v then None else Some v))"
  by (auto simp: changed_properties_def fmlookup_dom_iff split: option.splits)

lemma geometry_update_keeps:
  "geometry_update encode current merged m = Inr m' \<Longrightarrow>
     m_Op m' = m_Op m \<and> m_Collection m' = m_Collection m \<and> m_FeatureID m' = m_FeatureID m \<and> m_Properties m' = m_Properties m"
  by (auto simp: geometry_update_def split: option.splits json.splits sum.splits if_splits)

lemma buildMutationFromMerged_Inr:
  assumes "buildMutationFromMerged encode schema collection featureID current merged = Inr m"
  obtains mp props where "fmlookup merged ''type'' = Some (JString ''Feature'')" "merged_properties merged = Inr mp"
    "mutationInputToProvider schema (changed_properties (ft_Properties current) mp) = Inr props"
    "geometry_update encode current merged ((base_mutation MutationUpdate collection props)\<lparr>m_FeatureID := featureID\<rparr>) = Inr m"
  using assms by (auto simp: buildMutationFromMerged_def split: if_splits option.splits)

text \<open>
  C30. An update built from a patched feature touches exactly what changed: it is an update of the
  given feature, and it sets the properties that are new or whose JSON text differs from the
  current one, and the current ones that were removed, and no others.
\<close>

theorem update_sets_changes:
  assumes "buildMutationFromMerged encode schema collection featureID current merged = Inr m"
  shows "m_Op m = MutationUpdate \<and> m_Collection m = collection \<and> m_FeatureID m = featureID \<and>
    (\<exists>mp. merged_properties merged = Inr mp \<and>
      set (map fst (m_Properties m)) =
        {k. case fmlookup mp k of
              None \<Rightarrow> fmlookup (ft_Properties current) k \<noteq> None
            | Some v \<Rightarrow> (case fmlookup (ft_Properties current) k of None \<Rightarrow> True | Some cv \<Rightarrow> \<not> jsonEqual cv v)})"
  using assms
proof (rule buildMutationFromMerged_Inr)
  fix mp props
  assume "merged_properties merged = Inr mp"
    and p: "mutationInputToProvider schema (changed_properties (ft_Properties current) mp) = Inr props"
    and g: "geometry_update encode current merged ((base_mutation MutationUpdate collection props)\<lparr>m_FeatureID := featureID\<rparr>) = Inr m"
  moreover have "set (map fst props) = {k. fmlookup (changed_properties (ft_Properties current) mp) k \<noteq> None}"
    using map_fst_converted [OF p] by (auto simp: fmlookup_dom_iff)
  ultimately show ?thesis
    using geometry_update_keeps [OF g] by (auto simp: base_mutation_def changed_properties_lookup split: option.splits if_splits)
qed

lemma jsonEqual_refl: "marshalable v \<Longrightarrow> jsonEqual v v"
  by (simp add: jsonEqual_def json_Marshal_def)

lemma unchanged_properties: "fmpred (\<lambda>k v. marshalable v) m \<Longrightarrow> changed_properties m (copyProps m) = fmempty"
  by (rule fmap_ext) (auto simp: changed_properties_lookup copyProps_def fmpred_iff jsonEqual_refl split: option.splits)

lemma find_member_None: "(\<And>k. k \<notin> set feature_members \<Longrightarrow> fmlookup m k = None) \<Longrightarrow>
    List.find (\<lambda>k. k \<notin> set feature_members) (sorted_list_of_fset (fmdom m)) = None"
  by (auto simp: find_None_iff sorted_list_of_fset.rep_eq fmlookup_dom_iff)

text \<open>The stored geometry, if there is one, can be read and encoded.\<close>

definition geometry_readable :: "(geometry \<Rightarrow> string option) \<Rightarrow> ogc_feature \<Rightarrow> bool" where
  "geometry_readable encode current \<longleftrightarrow> has_geometry current \<longrightarrow>
     (\<exists>gm g. jsonRawToMap (ft_Geometry current) = Some gm \<and> parseGeoJSONGeometry gm = Inr g \<and> encode g \<noteq> None)"

lemma unpatched_mutation:
  assumes "fmpred (\<lambda>k v. marshalable v) (ft_Properties current)" "geometry_readable encode current"
  shows "buildMutationFromMerged encode schema collection featureID current (patchFeatureDocument current) =
    Inr ((base_mutation MutationUpdate collection [])\<lparr>m_FeatureID := featureID\<rparr>)"
proof -
  let ?doc = "patchFeatureDocument current"
  have l: "fmlookup ?doc k = (if k = ''type'' then Some (JString ''Feature'') else if k = ''id'' then Some (id_value (ft_ID current))
      else if k = ''properties'' then Some (JObject (copyProps (ft_Properties current)))
      else if k = ''geometry'' then Some (if has_geometry current
        then JObject (case jsonRawToMap (ft_Geometry current) of None \<Rightarrow> fmempty | Some m \<Rightarrow> m) else JNull) else None)" for k
    by (simp add: patchFeatureDocument_def fmlookup_of_list)
  have g: "geometry_update encode current ?doc m = Inr m" for m
    using assms(2) by (auto simp: geometry_update_def l geometry_readable_def geometryEqual_def has_geometry_def)
  have "jsonEqual (id_value (ft_ID current)) (id_value (ft_ID current))" by (rule jsonEqual_refl) (simp add: id_value_def)
  moreover have "List.find (\<lambda>k. k \<notin> set feature_members) (sorted_list_of_fset (fmdom ?doc)) = None"
    by (rule find_member_None) (auto simp: l feature_members_def split: if_splits)
  moreover have "mutationInputToProvider schema fmempty = Inr []" by (simp add: mutationInputToProvider_def members_def sorted_list_of_fset.rep_eq)
  ultimately show ?thesis
    using unchanged_properties [OF assms(1)] by (simp add: buildMutationFromMerged_def merged_properties_def l g)
qed

text \<open>
  A patch without operations changes nothing: for a feature whose properties can be marshalled and
  whose geometry can be read, an empty JSON Patch and an empty merge patch both give an update
  with no properties and no geometry.
\<close>

theorem empty_patch_changes_nothing:
  assumes "fmpred (\<lambda>k v. marshalable v) (ft_Properties current)" "geometry_readable encode current"
  shows "buildJSONPatchMutation encode schema collection featureID current [] =
      Inr ((base_mutation MutationUpdate collection [])\<lparr>m_FeatureID := featureID\<rparr>) \<and>
    buildPatchMutation encode schema collection featureID current (Some fmempty) =
      Inr ((base_mutation MutationUpdate collection [])\<lparr>m_FeatureID := featureID\<rparr>)"
proof -
  have "applyMergePatch (patchFeatureDocument current) fmempty = patchFeatureDocument current"
    by (simp add: applyMergePatch_def merge_members_def sorted_list_of_fset.rep_eq)
  then show ?thesis
    using unpatched_mutation [OF assms]
    by (simp add: buildJSONPatchMutation_def buildPatchMutation_def applyJSONPatch_def)
qed

text \<open>A stored feature for the witnesses: one native integer property, no geometry.\<close>

definition stored_feature :: ogc_feature where
  "stored_feature = \<lparr>ft_ID = 7, ft_Geometry = ''null'',
     ft_Properties = fmap_of_list [(''lanes'', JNative False (Some (RNumber ''2'')))]\<rparr>"

theorem empty_patch_changes_nothing_witness:
  "buildJSONPatchMutation (\<lambda>_. None) lanes_schema ''roads'' 7 stored_feature [] =
     Inr ((base_mutation MutationUpdate ''roads'' [])\<lparr>m_FeatureID := 7\<rparr>)"
proof -
  have "fmpred (\<lambda>k v. marshalable v) (ft_Properties stored_feature)" by (simp add: stored_feature_def fmpred_iff)
  moreover have "geometry_readable (\<lambda>_. None) stored_feature"
    by (simp add: geometry_readable_def has_geometry_def stored_feature_def)
  ultimately show ?thesis using empty_patch_changes_nothing [of stored_feature "\<lambda>_. None"] by blast
qed

lemma lanes_number: "isValidNumber ''4''" "ParseInt 64 ''4'' = Some 4"
  by (simp_all add: isValidNumber_def scan_number_def scan_int_def scan_frac_def scan_exp_def is_digit_def
      ParseInt_def digits_val_def digit_val_def)

theorem update_sets_changes_witness:
  "\<exists>m. buildMutationFromMerged (\<lambda>_. None) lanes_schema ''roads'' 7 stored_feature
      (fmap_of_list [(''type'', JString ''Feature''), (''id'', id_value 7), (''properties'', JObject (fmap_of_list [(''lanes'', JNumber ''4'')]))]) = Inr m \<and>
    set (map fst (m_Properties m)) = {''lanes''} \<and> m_Op m = MutationUpdate"
proof -
  let ?merged = "fmap_of_list [(''type'', JString ''Feature''), (''id'', id_value 7), (''properties'', JObject (fmap_of_list [(''lanes'', JNumber ''4'')]))]"
  let ?m = "(base_mutation MutationUpdate ''roads'' [(''lanes'', zero_mv\<lparr>mv_Kind := MutationValueInteger, mv_Integer := 4\<rparr>)])\<lparr>m_FeatureID := 7\<rparr>"
  have c: "changed_properties (ft_Properties stored_feature) (fmap_of_list [(''lanes'', JNumber ''4'')]) = fmupd ''lanes'' (JNumber ''4'') fmempty"
    by (rule fmap_ext) (simp add: changed_properties_lookup stored_feature_def jsonEqual_def json_Marshal_def lanes_number)
  have f: "List.find (\<lambda>k. k \<notin> set feature_members) (sorted_list_of_fset (fmdom ?merged)) = None"
    by (rule find_member_None) (auto simp: feature_members_def)
  have j: "jsonEqual (id_value 7) (id_value (ft_ID stored_feature))" by (simp add: stored_feature_def jsonEqual_def json_Marshal_def id_value_def)
  have i: "mutationInputToProvider lanes_schema (fmupd ''lanes'' (JNumber ''4'') fmempty) =
      Inr [(''lanes'', zero_mv\<lparr>mv_Kind := MutationValueInteger, mv_Integer := 4\<rparr>)]"
    by (simp add: mutationInputToProvider_def convert_property_def lanes_schema_def Property_def jsonValueToMutation_def lanes_number)
  have p: "merged_properties ?merged = Inr (fmap_of_list [(''lanes'', JNumber ''4'')])" by (simp add: merged_properties_def)
  have "geometry_update (\<lambda>_. None) stored_feature ?merged m = Inr m" for m
    by (simp add: geometry_update_def has_geometry_def stored_feature_def)
  with f j c i have b: "buildMutationFromMerged (\<lambda>_. None) lanes_schema ''roads'' 7 stored_feature ?merged = Inr ?m"
    unfolding buildMutationFromMerged_def p by simp
  from update_sets_changes [OF b] p have "m_Op ?m = MutationUpdate" by blast
  with b show ?thesis by (intro exI [of _ ?m]) (simp add: base_mutation_def)
qed

section \<open>Replacements\<close>

text \<open>One turn of the loop.\<close>

lemma fill_absent_step:
  assumes "fill_absent (d # ds) ps = Inr qs"
  obtains new where "fill_absent ds (ps @ new) = Inr qs"
    "new = [] \<and> (pd_ReadOnly d \<or> pd_Name d \<in> fst ` set ps \<or> \<not> pd_Nullable d \<and> (pd_HasDefault d \<or> \<not> pd_Required d)) \<or>
     new = [(pd_Name d, zero_mv\<lparr>mv_Null := True\<rparr>)] \<and> pd_Nullable d \<and> \<not> pd_ReadOnly d"
proof (cases "pd_ReadOnly d \<or> map_of ps (pd_Name d) \<noteq> None")
  case True
  with assms have "fill_absent ds ps = Inr qs" by (auto split: if_splits)
  with True show thesis by (intro that [of "[]"]) (auto simp: map_of_eq_None_iff)
next
  case False
  with assms show thesis
    by (intro that [of "if pd_Nullable d then [(pd_Name d, zero_mv\<lparr>mv_Null := True\<rparr>)] else []"]) (auto split: if_splits)
qed

lemma fill_absent_extends:
  "fill_absent ds ps = Inr qs \<Longrightarrow>
     \<exists>new. qs = ps @ new \<and> (\<forall>x \<in> set new. mv_Null (snd x) \<and> (\<exists>d \<in> set ds. pd_Name d = fst x \<and> pd_Nullable d \<and> \<not> pd_ReadOnly d))"
proof (induction ds arbitrary: ps)
  case (Cons d ds)
  from Cons.prems show ?case
  proof (rule fill_absent_step)
    fix n
    assume n: "fill_absent ds (ps @ n) = Inr qs"
      "n = [] \<and> (pd_ReadOnly d \<or> pd_Name d \<in> fst ` set ps \<or> \<not> pd_Nullable d \<and> (pd_HasDefault d \<or> \<not> pd_Required d)) \<or>
       n = [(pd_Name d, zero_mv\<lparr>mv_Null := True\<rparr>)] \<and> pd_Nullable d \<and> \<not> pd_ReadOnly d"
    from Cons.IH [OF n(1)] obtain new where "qs = ps @ n @ new"
      "\<forall>x \<in> set new. mv_Null (snd x) \<and> (\<exists>d \<in> set ds. pd_Name d = fst x \<and> pd_Nullable d \<and> \<not> pd_ReadOnly d)" by auto
    with n(2) show ?thesis by (intro exI [of _ "n @ new"]) auto
  qed
qed simp

lemma fill_absent_covers:
  "fill_absent ds ps = Inr qs \<Longrightarrow> d \<in> set ds \<Longrightarrow> \<not> pd_ReadOnly d \<Longrightarrow>
     pd_Name d \<in> fst ` set qs \<or> \<not> pd_Nullable d \<and> (pd_HasDefault d \<or> \<not> pd_Required d)"
proof (induction ds arbitrary: ps)
  case (Cons e ds)
  from Cons.prems(1) show ?case
  proof (rule fill_absent_step)
    fix n
    assume n: "fill_absent ds (ps @ n) = Inr qs"
      "n = [] \<and> (pd_ReadOnly e \<or> pd_Name e \<in> fst ` set ps \<or> \<not> pd_Nullable e \<and> (pd_HasDefault e \<or> \<not> pd_Required e)) \<or>
       n = [(pd_Name e, zero_mv\<lparr>mv_Null := True\<rparr>)] \<and> pd_Nullable e \<and> \<not> pd_ReadOnly e"
    from fill_absent_extends [OF n(1)] have "set (ps @ n) \<subseteq> set qs" by auto
    then have "fst ` set (ps @ n) \<subseteq> fst ` set qs" by (rule image_mono)
    with n(2) Cons.IH [OF n(1)] Cons.prems(2,3) show ?thesis by auto
  qed
qed simp

text \<open>
  C31. A replacement is complete: it carries a geometry or marks it absent; every writable property of
  the schema is set, unless it is not nullable and has a default or is not required; and what was
  not supplied is set only to null, for declared, nullable, writable properties.
\<close>

theorem replace_is_complete:
  assumes "buildReplaceMutation encode schema collection featureID gf = Inr m"
  shows "m_Op m = MutationReplace \<and> m_FeatureID m = featureID \<and> (m_GeometryWKB m \<noteq> None \<or> m_GeometryAbsent m) \<and>
    (\<forall>d \<in> set (sd_Properties schema). \<not> pd_ReadOnly d \<longrightarrow>
       pd_Name d \<in> set (map fst (m_Properties m)) \<or> \<not> pd_Nullable d \<and> (pd_HasDefault d \<or> \<not> pd_Required d)) \<and>
    (\<forall>(n, v) \<in> set (m_Properties m). n |\<notin>| fmdom (gf_Properties gf) \<longrightarrow>
       mv_Null v \<and> (\<exists>d \<in> set (sd_Properties schema). pd_Name d = n \<and> pd_Nullable d \<and> \<not> pd_ReadOnly d))"
proof -
  from assms obtain m0 qs where g: "gf_HasGeometry gf \<or> gf_GeometryNull gf"
    and m0: "buildInsertMutation encode schema collection gf = Inr m0"
    and qs: "fill_absent (sd_Properties schema) (m_Properties m0) = Inr qs"
    and m: "m = m0\<lparr>m_Properties := qs, m_Op := MutationReplace, m_FeatureID := featureID\<rparr>"
    by (auto simp: buildReplaceMutation_def split: if_splits)
  from m0 obtain props where p: "mutationInputToProvider schema (gf_Properties gf) = Inr props" "m_Properties m0 = props"
    by (auto simp: buildInsertMutation_def base_mutation_def Let_def split: if_splits option.splits)
  have g0: "m_GeometryWKB m0 \<noteq> None \<or> m_GeometryAbsent m0"
    using m0 g by (auto simp: buildInsertMutation_def Let_def split: if_splits option.splits)
  have names: "fst ` set props = fset (fmdom (gf_Properties gf))" using map_fst_converted [OF p(1)] by simp
  obtain new where new: "qs = props @ new"
    "\<forall>x \<in> set new. mv_Null (snd x) \<and> (\<exists>d \<in> set (sd_Properties schema). pd_Name d = fst x \<and> pd_Nullable d \<and> \<not> pd_ReadOnly d)"
    using fill_absent_extends [OF qs] p(2) by auto
  have nulls: "mv_Null v \<and> (\<exists>d \<in> set (sd_Properties schema). pd_Name d = n \<and> pd_Nullable d \<and> \<not> pd_ReadOnly d)"
    if "(n, v) \<in> set qs" "n |\<notin>| fmdom (gf_Properties gf)" for n v
  proof -
    have "n \<notin> fst ` set props" using names that(2) by simp
    then have "(n, v) \<in> set new" using that(1) new(1) by (auto simp: rev_image_eqI)
    from bspec [OF new(2) this] show ?thesis by simp
  qed
  have "m_Op m = MutationReplace \<and> m_FeatureID m = featureID \<and> (m_GeometryWKB m \<noteq> None \<or> m_GeometryAbsent m)"
    and q: "m_Properties m = qs" using g0 by (simp_all add: m)
  moreover have "\<forall>d \<in> set (sd_Properties schema). \<not> pd_ReadOnly d \<longrightarrow>
      pd_Name d \<in> set (map fst (m_Properties m)) \<or> \<not> pd_Nullable d \<and> (pd_HasDefault d \<or> \<not> pd_Required d)"
    unfolding q using fill_absent_covers [OF qs] by simp
  moreover have "\<forall>(n, v) \<in> set (m_Properties m). n |\<notin>| fmdom (gf_Properties gf) \<longrightarrow>
      mv_Null v \<and> (\<exists>d \<in> set (sd_Properties schema). pd_Name d = n \<and> pd_Nullable d \<and> \<not> pd_ReadOnly d)"
    unfolding q using nulls by blast
  ultimately show ?thesis by blast
qed

theorem replace_is_complete_witness:
  "\<exists>m. buildReplaceMutation (\<lambda>_. None) lanes_schema ''roads'' 7
      \<lparr>gf_Geometry = None, gf_HasGeometry = False, gf_GeometryNull = True, gf_Properties = fmap_of_list [(''lanes'', JNumber ''4'')]\<rparr> = Inr m \<and>
    m_GeometryAbsent m \<and> m_Op m = MutationReplace"
proof -
  let ?gf = "\<lparr>gf_Geometry = None, gf_HasGeometry = False, gf_GeometryNull = True, gf_Properties = fmap_of_list [(''lanes'', JNumber ''4'')]\<rparr>"
  let ?m = "(base_mutation MutationReplace ''roads'' [(''lanes'', zero_mv\<lparr>mv_Kind := MutationValueInteger, mv_Integer := 4\<rparr>)])
    \<lparr>m_FeatureID := 7, m_GeometryAbsent := True\<rparr>"
  have b: "buildReplaceMutation (\<lambda>_. None) lanes_schema ''roads'' 7 ?gf = Inr ?m"
    by (simp add: buildReplaceMutation_def buildInsertMutation_def mutationInputToProvider_def convert_property_def lanes_schema_def
        Property_def jsonValueToMutation_def lanes_number base_mutation_def)
  from replace_is_complete [OF b] have "m_Op ?m = MutationReplace" by blast
  with b show ?thesis by (intro exI [of _ ?m]) simp
qed

section \<open>Request bodies\<close>

lemma fmlookup_value_of_object:
  "distinct (map fst ps) \<Longrightarrow>
     fmlookup (fmap_of_list (rev (map (map_prod id value_of) ps))) k = map_option value_of (map_of ps k)"
proof -
  assume d: "distinct (map fst ps)"
  have m: "map_of (map (map_prod id f) ps) k = map_option f (map_of ps k)" for f :: "raw \<Rightarrow> json"
    by (induction ps) (auto simp: map_prod_def)
  have "map_of (rev (map (map_prod id value_of) ps)) = map_of (map (map_prod id value_of) ps)"
    using d by (intro map_of_inject_set [THEN iffD2]) (simp_all add: rev_map [symmetric] o_def)
  then show ?thesis by (simp add: fmlookup_of_list m)
qed

text \<open>
  What is read from a request body is what the body says: an accepted body is one JSON object
  without repeated names anywhere, of type Feature and without a crs member; the properties read
  are the members of its properties object, all of them; and a geometry that was read is well
  formed, with at most one of geometry and explicit null.
\<close>

theorem parsed_feature_complete:
  assumes "parseGeoJSONFeature body = Inr gf"
  shows "\<exists>ps. parse_json body = Some (RObject ps, []) \<and> unique_names (RObject ps) \<and>
    map_of ps ''type'' = Some (RString ''Feature'') \<and> map_of ps ''crs'' = None \<and>
    (\<forall>k. fmlookup (gf_Properties gf) k =
       (case map_of ps ''properties'' of Some (RObject qs) \<Rightarrow> map_option value_of (map_of qs k) | _ \<Rightarrow> None)) \<and>
    (gf_HasGeometry gf \<longleftrightarrow> gf_Geometry gf \<noteq> None) \<and> \<not> (gf_HasGeometry gf \<and> gf_GeometryNull gf) \<and>
    (\<forall>g. gf_Geometry gf = Some g \<longrightarrow> geometry_ok g)"
proof -
  from assms have rj: "rejectDuplicateKeys body = None" by (auto simp: parseGeoJSONFeature_def split: option.splits)
  then obtain r where r: "parse_json body = Some (r, [])" "unique_names r"
    using reject_None_iff by blast
  from assms rj r(1) obtain rw out where rw: "value_of r = JObject rw" "string_member rw ''type'' = ''Feature''" "fmlookup rw ''crs'' = None"
    and out: "feature_geometry rw \<lparr>gf_Geometry = None, gf_HasGeometry = False, gf_GeometryNull = False, gf_Properties = fmempty\<rparr> = Inr out"
      "feature_properties rw out = Inr gf"
    by (cases "value_of r") (auto simp: parseGeoJSONFeature_def string_member_def split: if_splits)
  then obtain ps where ps: "r = RObject ps" by (cases r) auto
  with r(2) have d: "distinct (map fst ps)" by simp
  have l: "fmlookup rw k = map_option value_of (map_of ps k)" for k
    using rw(1) fmlookup_value_of_object [OF d] by (auto simp: ps)
  have t: "map_of ps ''type'' = Some (RString ''Feature'')" "map_of ps ''crs'' = None"
    using rw(2,3) l by (auto simp: string_member_def split: option.splits json.splits; case_tac x2; simp)+
  have q: "fmlookup (gf_Properties gf) k = (case map_of ps ''properties'' of Some (RObject qs) \<Rightarrow> map_option value_of (map_of qs k) | _ \<Rightarrow> None)" for k
  proof -
    have p0: "gf_Properties out = fmempty" using out(1) by (auto simp: feature_geometry_def split: option.splits json.splits sum.splits)
    show ?thesis
    proof (cases "map_of ps ''properties''")
      case None
      then show ?thesis using out(2) p0 l [of "''properties''"] by (auto simp: feature_properties_def)
    next
      case (Some v)
      have "unique_names v" using r(2) map_of_SomeD [OF Some] by (force simp: ps list_all_iff)
      then show ?thesis
        using out(2) p0 l [of "''properties''"] Some by (cases v) (auto simp: feature_properties_def fmlookup_value_of_object)
    qed
  qed
  have g: "(gf_HasGeometry gf \<longleftrightarrow> gf_Geometry gf \<noteq> None) \<and> \<not> (gf_HasGeometry gf \<and> gf_GeometryNull gf) \<and>
      (\<forall>g. gf_Geometry gf = Some g \<longrightarrow> geometry_ok g)"
  proof -
    have "(gf_HasGeometry out \<longleftrightarrow> gf_Geometry out \<noteq> None) \<and> \<not> (gf_HasGeometry out \<and> gf_GeometryNull out) \<and>
        (\<forall>g. gf_Geometry out = Some g \<longrightarrow> geometry_ok g)"
      using out(1) by (auto simp: feature_geometry_def split: option.splits json.splits sum.splits dest: geometry_parsed_ok)
    then show ?thesis using out(2) by (auto simp: feature_properties_def split: option.splits json.splits)
  qed
  from r t q g ps show ?thesis by blast
qed

theorem parsed_feature_complete_witness:
  "\<exists>gf ps. parseGeoJSONFeature (render (RObject [(''type'', RString ''Feature''), (''geometry'', RNull), (''properties'', RObject [(''a'', RBool True)])])) = Inr gf \<and>
     parse_json (render (RObject [(''type'', RString ''Feature''), (''geometry'', RNull), (''properties'', RObject [(''a'', RBool True)])])) = Some (RObject ps, []) \<and>
     unique_names (RObject ps) \<and> fmlookup (gf_Properties gf) ''a'' = Some (JBool True)"
proof -
  let ?r = "RObject [(''type'', RString ''Feature''), (''geometry'', RNull), (''properties'', RObject [(''a'', RBool True)])]"
  let ?gf = "\<lparr>gf_Geometry = None, gf_HasGeometry = False, gf_GeometryNull = True, gf_Properties = fmap_of_list [(''a'', JBool True)]\<rparr>"
  have p: "parse_json (render ?r) = Some (?r, [])" by (rule parse_render) (simp_all add: maxNestingDepth_def)
  then have "rejectDuplicateKeys (render ?r) = None" by (auto simp: reject_None_iff)
  with p have f: "parseGeoJSONFeature (render ?r) = Inr ?gf"
    by (simp add: parseGeoJSONFeature_def dec_More_def string_member_def feature_geometry_def feature_properties_def del: render.simps)
  from parsed_feature_complete [OF f] p have "unique_names ?r" by auto
  with f p show ?thesis by (intro exI [of _ ?gf] exI) auto
qed

end
