(* ===== verification/Sql_Token.thy ===== *)
theory Sql_Token
  imports Go_Utf8
begin

text \<open>
  The SQL-aware handling of interpolation tokens, \<^verbatim>\<open>src/internal/sqltoken/sqltoken.go\<close>: \<open>Scan\<close>
  divides an SQL text into code and protected regions (string literals, quoted identifiers,
  comments, dollar quotes) by the lexical rules of a dialect, and tokens such as \<^verbatim>\<open>!BBOX!\<close> are
  found and replaced in code only. Positions are byte offsets, as in the source; the loops over
  the text are recursions on the offset.
\<close>

section \<open>The model\<close>

datatype Dialect = Legacy | PostgreSQL | MySQL | SQLite | HANA

datatype SqlKind = Code | StringLiteral | QuotedIdentifier | Comment | DollarQuoted

definition Protected :: "SqlKind \<Rightarrow> bool" where
  "Protected k \<longleftrightarrow> k \<noteq> Code"

record Segment =
  seg_Kind :: SqlKind
  seg_Start :: nat
  seg_End :: nat

record SqlToken =
  tok_Start :: nat
  tok_End :: nat
  tok_Text :: string

definition is_ascii_letter :: "char \<Rightarrow> bool" where
  "is_ascii_letter c \<longleftrightarrow> 97 \<le> byte c \<and> byte c \<le> 122 \<or> 65 \<le> byte c \<and> byte c \<le> 90"

definition identifierByte :: "char \<Rightarrow> bool" where
  "identifierByte c \<longleftrightarrow> 128 \<le> byte c \<or> is_ascii_letter c \<or> is_digit c \<or> c = CHR ''_'' \<or> c = CHR ''$''"

definition postgresEscapePrefix :: "string \<Rightarrow> nat \<Rightarrow> bool" where
  "postgresEscapePrefix sql quote \<longleftrightarrow>
     0 < quote \<and> (sql ! (quote - 1) = CHR ''E'' \<or> sql ! (quote - 1) = CHR ''e'') \<and>
     (quote = 1 \<or> \<not> identifierByte (sql ! (quote - 2)))"

text \<open>The loop of \<open>scanQuoted\<close> from offset \<open>i\<close>.\<close>

function quoted_end :: "string \<Rightarrow> nat \<Rightarrow> char \<Rightarrow> bool \<Rightarrow> nat" where
  "quoted_end sql i quote backslash =
     (if i < length sql then
        if byte (sql ! i) = 92 then
          if backslash \<and> i + 1 < length sql then quoted_end sql (i + 2) quote backslash
          else quoted_end sql (i + 1) quote backslash
        else if sql ! i = quote then
          if i + 1 < length sql \<and> sql ! (i + 1) = quote then quoted_end sql (i + 2) quote backslash
          else i + 1
        else quoted_end sql (i + 1) quote backslash
      else length sql)"
  by pat_completeness auto
termination by (relation "measure (\<lambda>(sql, i, q, b). length sql - i)") auto

definition scanQuoted :: "string \<Rightarrow> nat \<Rightarrow> char \<Rightarrow> bool \<Rightarrow> nat" where
  "scanQuoted sql start quote backslash = quoted_end sql (start + 1) quote backslash"

definition is_newline :: "char \<Rightarrow> bool" where
  "is_newline c \<longleftrightarrow> byte c = 10 \<or> byte c = 13"

function scanLineComment :: "string \<Rightarrow> nat \<Rightarrow> nat" where
  "scanLineComment sql i =
     (if i < length sql then if is_newline (sql ! i) then i else scanLineComment sql (i + 1)
      else length sql)"
  by pat_completeness auto
termination by (relation "measure (\<lambda>(sql, i). length sql - i)") auto

text \<open>The loop of \<open>scanBlockComment\<close> from offset \<open>i\<close> at nesting \<open>depth\<close>.\<close>

function block_end :: "string \<Rightarrow> nat \<Rightarrow> nat \<Rightarrow> bool \<Rightarrow> nat" where
  "block_end sql i depth nested =
     (if i < length sql then
        if nested \<and> sql ! i = CHR ''/'' \<and> i + 1 < length sql \<and> sql ! (i + 1) = CHR ''*''
        then block_end sql (i + 2) (depth + 1) nested
        else if sql ! i = CHR ''*'' \<and> i + 1 < length sql \<and> sql ! (i + 1) = CHR ''/''
        then if depth - 1 = 0 then i + 2 else block_end sql (i + 2) (depth - 1) nested
        else block_end sql (i + 1) depth nested
      else length sql)"
  by pat_completeness auto
termination by (relation "measure (\<lambda>(sql, i, d, n). length sql - i)") auto

definition scanBlockComment :: "string \<Rightarrow> nat \<Rightarrow> bool \<Rightarrow> nat" where
  "scanBlockComment sql start nested = block_end sql (start + 2) 1 nested"

text \<open>
  The regular expression for a dollar-quote delimiter at the start of the text, \<^verbatim>\<open>$tag$\<close> or \<^verbatim>\<open>$$\<close>:
  the tag is empty or starts with a letter or underscore.
\<close>

definition tag_byte :: "char \<Rightarrow> bool" where
  "tag_byte c \<longleftrightarrow> is_ascii_letter c \<or> is_digit c \<or> c = CHR ''_''"

definition dollarTag :: "string \<Rightarrow> string option" where
  "dollarTag s = (case s of
       [] \<Rightarrow> None
     | c # cs \<Rightarrow>
         let tag = takeWhile tag_byte cs; rest = dropWhile tag_byte cs in
         if c = CHR ''$'' \<and> rest \<noteq> [] \<and> hd rest = CHR ''$'' \<and> (tag = [] \<or> \<not> is_digit (hd tag))
         then Some (c # tag @ ''$'') else None)"

text \<open>\<^verbatim>\<open>strings.Index\<close>: the first occurrence of a text.\<close>

fun strings_Index :: "string \<Rightarrow> string \<Rightarrow> nat option" where
  "strings_Index s sub =
     (if take (length sub) s = sub then Some 0
      else (case s of [] \<Rightarrow> None | c # cs \<Rightarrow> map_option Suc (strings_Index cs sub)))"

declare strings_Index.simps [simp del]

definition scanDollarQuote :: "string \<Rightarrow> nat \<Rightarrow> nat option" where
  "scanDollarQuote sql start = (case dollarTag (drop start sql) of
       None \<Rightarrow> None
     | Some open \<Rightarrow> (case strings_Index (drop (start + length open) sql) open of
           Some idx \<Rightarrow> Some (start + length open + idx + length open)
         | None \<Rightarrow> Some (length sql)))"

definition scanBracket :: "string \<Rightarrow> nat \<Rightarrow> bool \<Rightarrow> nat" where
  "scanBracket sql start doubled =
     (if doubled then scanQuoted sql start (CHR '']'') False
      else (case index_byte (CHR '']'') (drop (start + 1) sql) of
          Some e \<Rightarrow> start + 2 + e
        | None \<Rightarrow> length sql))"

text \<open>The switch of \<open>Scan\<close> at offset \<open>i\<close>: the kind and end of the region that starts there.\<close>

definition region_at :: "Dialect \<Rightarrow> string \<Rightarrow> nat \<Rightarrow> (SqlKind \<times> nat) option" where
  "region_at d sql i =
     (let c = sql ! i; n = length sql in
      if byte c = 39
      then Some (StringLiteral, scanQuoted sql i c (d = Legacy \<or> d = MySQL \<or> d = PostgreSQL \<and> postgresEscapePrefix sql i))
      else if byte c = 34 then Some (QuotedIdentifier, scanQuoted sql i c (d = Legacy \<or> d = MySQL))
      else if byte c = 96 \<and> (d = Legacy \<or> d = MySQL \<or> d = SQLite)
      then Some (QuotedIdentifier, scanQuoted sql i c (d = Legacy))
      else if c = CHR ''['' \<and> (d = Legacy \<or> d = SQLite) then Some (QuotedIdentifier, scanBracket sql i (d = Legacy))
      else if c = CHR ''-'' \<and> i + 1 < n \<and> sql ! (i + 1) = CHR ''-'' \<and>
          (d \<noteq> MySQL \<or> i + 2 = n \<or> byte (sql ! (i + 2)) \<le> 32)
      then Some (Comment, scanLineComment sql i)
      else if c = CHR ''#'' \<and> (d = Legacy \<or> d = MySQL) then Some (Comment, scanLineComment sql i)
      else if c = CHR ''/'' \<and> i + 1 < n \<and> sql ! (i + 1) = CHR ''*''
      then Some (Comment, scanBlockComment sql i (d = Legacy \<or> d = PostgreSQL))
      else if c = CHR ''$'' \<and> (d = Legacy \<or> d = PostgreSQL \<and> (i = 0 \<or> \<not> identifierByte (sql ! (i - 1))))
      then map_option (Pair DollarQuoted) (scanDollarQuote sql i)
      else None)"

declare quoted_end.simps [simp del] scanLineComment.simps [simp del] block_end.simps [simp del]

text \<open>
  The same scans on the text that remains at an offset, giving the number of bytes consumed. Every
  region consumes at least one byte, so that the scan terminates.
\<close>

fun quoted_len :: "char \<Rightarrow> bool \<Rightarrow> string \<Rightarrow> nat" where
  "quoted_len q b [] = 0"
| "quoted_len q b [c] = 1"
| "quoted_len q b (c # x # r) =
     (if byte c = 92 then if b then 2 + quoted_len q b r else 1 + quoted_len q b (x # r)
      else if c = q then if x = q then 2 + quoted_len q b r else 1
      else 1 + quoted_len q b (x # r))"

fun block_len :: "bool \<Rightarrow> nat \<Rightarrow> string \<Rightarrow> nat" where
  "block_len nested k [] = 0"
| "block_len nested k [c] = 1"
| "block_len nested k (c # x # r) =
     (if nested \<and> c = CHR ''/'' \<and> x = CHR ''*'' then 2 + block_len nested (k + 1) r
      else if c = CHR ''*'' \<and> x = CHR ''/'' then if k - 1 = 0 then 2 else 2 + block_len nested (k - 1) r
      else 1 + block_len nested k (x # r))"

lemma drop_two: "i + 1 < length s \<Longrightarrow> drop i s = s ! i # s ! (i + 1) # drop (i + 2) s"
  by (metis Cons_nth_drop_Suc Suc_eq_plus1 add_2_eq_Suc' Suc_lessD)

lemma drop_one: "i < length s \<Longrightarrow> \<not> i + 1 < length s \<Longrightarrow> drop i s = [s ! i]"
  using Cons_nth_drop_Suc [of i s] by simp

lemma quoted_end_len: "i \<le> length sql \<Longrightarrow> quoted_end sql i q b = i + quoted_len q b (drop i sql)"
proof (induction sql i q b rule: quoted_end.induct)
  case (1 sql i q b)
  consider "i = length sql" | "i < length sql" "\<not> i + 1 < length sql" | "i + 1 < length sql" using "1.prems" by linarith
  then show ?case
  proof cases
    case 2
    then have "quoted_end sql (i + 1) q b = length sql" by (subst quoted_end.simps) simp
    with 2 show ?thesis by (subst quoted_end.simps) (simp add: drop_one)
  next
    case 3
    then have "drop (i + 1) sql = sql ! (i + 1) # drop (i + 2) sql" by (metis Cons_nth_drop_Suc Suc_eq_plus1 add_2_eq_Suc')
    with 3 "1.IH" show ?thesis by (subst quoted_end.simps) (simp add: drop_two)
  qed (subst quoted_end.simps, simp)
qed

lemma block_end_len: "i \<le> length sql \<Longrightarrow> block_end sql i k nested = i + block_len nested k (drop i sql)"
proof (induction sql i k nested rule: block_end.induct)
  case (1 sql i k nested)
  consider "i = length sql" | "i < length sql" "\<not> i + 1 < length sql" | "i + 1 < length sql" using "1.prems" by linarith
  then show ?case
  proof cases
    case 2
    then have "block_end sql (i + 1) k nested = length sql" by (subst block_end.simps) simp
    with 2 show ?thesis by (subst block_end.simps) (simp add: drop_one)
  next
    case 3
    then have "drop (i + 1) sql = sql ! (i + 1) # drop (i + 2) sql" by (metis Cons_nth_drop_Suc Suc_eq_plus1 add_2_eq_Suc')
    with 3 "1.IH" show ?thesis by (subst block_end.simps) (simp add: drop_two)
  qed (subst block_end.simps, simp)
qed

lemma scanLineComment_len:
  "i \<le> length sql \<Longrightarrow> scanLineComment sql i = i + length (takeWhile (\<lambda>c. \<not> is_newline c) (drop i sql))"
proof (induction sql i rule: scanLineComment.induct)
  case (1 sql i)
  show ?case
  proof (cases "i < length sql")
    case True
    then have "drop i sql = sql ! i # drop (i + 1) sql" by (simp add: Cons_nth_drop_Suc)
    with True 1 show ?thesis by (subst scanLineComment.simps) simp
  qed (use "1.prems" in \<open>subst scanLineComment.simps, simp\<close>)
qed

lemma quoted_len_le: "quoted_len q b s \<le> length s"
  by (induction q b s rule: quoted_len.induct) auto

lemma block_len_le: "block_len nested k s \<le> length s"
  by (induction nested k s rule: block_len.induct) auto


lemma strings_Index_le: "strings_Index s sub = Some n \<Longrightarrow> n + length sub \<le> length s \<and> take (length sub) (drop n s) = sub"
proof (induction s arbitrary: n)
  case Nil
  then show ?case by (subst (asm) strings_Index.simps) (auto split: if_splits)
next
  case (Cons c cs)
  from Cons.prems show ?case
    by (subst (asm) strings_Index.simps) (auto split: if_splits dest: Cons.IH dest!: arg_cong [where f = length])
qed

text \<open>
  What \<open>Scan\<close> reads at an offset depends on the text from there on and on two facts about the bytes
  before it: whether they make an escape string prefix, and whether the last is an identifier byte.
\<close>

definition context_at :: "string \<Rightarrow> nat \<Rightarrow> bool \<times> bool" where
  "context_at sql i = (postgresEscapePrefix sql i, 0 < i \<and> identifierByte (sql ! (i - 1)))"

definition region :: "Dialect \<Rightarrow> bool \<times> bool \<Rightarrow> char \<Rightarrow> string \<Rightarrow> (SqlKind \<times> nat) option" where
  "region d st c r =
     (if byte c = 39 then Some (StringLiteral, 1 + quoted_len c (d = Legacy \<or> d = MySQL \<or> d = PostgreSQL \<and> fst st) r)
      else if byte c = 34 then Some (QuotedIdentifier, 1 + quoted_len c (d = Legacy \<or> d = MySQL) r)
      else if byte c = 96 \<and> (d = Legacy \<or> d = MySQL \<or> d = SQLite)
      then Some (QuotedIdentifier, 1 + quoted_len c (d = Legacy) r)
      else if c = CHR ''['' \<and> (d = Legacy \<or> d = SQLite)
      then Some (QuotedIdentifier,
        if d = Legacy then 1 + quoted_len (CHR '']'') False r
        else (case index_byte (CHR '']'') r of Some e \<Rightarrow> 2 + e | None \<Rightarrow> 1 + length r))
      else if c = CHR ''-'' \<and> r \<noteq> [] \<and> hd r = CHR ''-'' \<and> (d \<noteq> MySQL \<or> tl r = [] \<or> byte (hd (tl r)) \<le> 32) \<or>
        c = CHR ''#'' \<and> (d = Legacy \<or> d = MySQL)
      then Some (Comment, 1 + length (takeWhile (\<lambda>x. \<not> is_newline x) r))
      else if c = CHR ''/'' \<and> r \<noteq> [] \<and> hd r = CHR ''*''
      then Some (Comment, 2 + block_len (d = Legacy \<or> d = PostgreSQL) 1 (tl r))
      else if c = CHR ''$'' \<and> (d = Legacy \<or> d = PostgreSQL \<and> \<not> snd st)
      then (case dollarTag (c # r) of
          None \<Rightarrow> None
        | Some open \<Rightarrow> Some (DollarQuoted, case strings_Index (drop (length open) (c # r)) open of
              Some idx \<Rightarrow> length open + idx + length open
            | None \<Rightarrow> 1 + length r))
      else None)"

lemma tag_byte_dollar [simp]: "\<not> tag_byte (CHR ''$'')" "\<not> tag_byte (CHR ''!'')"
  by (simp_all add: tag_byte_def is_ascii_letter_def is_digit_def)

lemma dollarTag_eq:
  assumes "list_all tag_byte tag" "tag = [] \<or> \<not> is_digit (hd tag)"
  shows "dollarTag (CHR ''$'' # tag @ CHR ''$'' # r) = Some (CHR ''$'' # tag @ ''$'')"
  using assms by (simp add: dollarTag_def takeWhile_stop dropWhile_stop)

lemma dollarTag_Some:
  assumes "dollarTag s = Some t"
  obtains tag r where "s = CHR ''$'' # tag @ CHR ''$'' # r" "t = CHR ''$'' # tag @ ''$''"
    "list_all tag_byte tag" "tag = [] \<or> \<not> is_digit (hd tag)"
proof (cases s)
  case (Cons c cs)
  let ?tag = "takeWhile tag_byte cs" and ?rest = "dropWhile tag_byte cs"
  from assms Cons have *: "c = CHR ''$''" "?rest \<noteq> []" "hd ?rest = CHR ''$''" "?tag = [] \<or> \<not> is_digit (hd ?tag)" "t = c # ?tag @ ''$''"
    by (simp_all add: dollarTag_def Let_def split: if_splits)
  show ?thesis
  proof (rule that)
    show "s = CHR ''$'' # ?tag @ CHR ''$'' # tl ?rest"
      using * Cons by (metis list.collapse takeWhile_dropWhile_id)
  qed (use * in \<open>auto simp: list_all_iff dest: set_takeWhileD\<close>)
qed (use assms in \<open>simp add: dollarTag_def\<close>)

lemma region_at_region:
  assumes "i < length sql"
  shows "region_at d sql i = map_option (map_prod (\<lambda>k. k) ((+) i)) (region d (context_at sql i) (sql ! i) (drop (i + 1) sql))"
proof -
  have dr: "drop i sql = sql ! i # drop (i + 1) sql" using assms by (simp add: Cons_nth_drop_Suc)
  have hd: "(i + 1 < length sql \<and> sql ! (i + 1) = x) = (drop (i + 1) sql \<noteq> [] \<and> hd (drop (i + 1) sql) = x)" for x
    by (auto simp: hd_drop_conv_nth)
  have tl: "tl (drop (i + 1) sql) = drop (i + 2) sql" by (simp add: drop_Suc tl_drop)
  have third: "(i + 2 = length sql \<or> byte (sql ! (i + 2)) \<le> 32) = (drop (i + 2) sql = [] \<or> byte (hd (drop (i + 2) sql)) \<le> 32)"
    if "i + 1 < length sql"
    using that by (cases "i + 2 = length sql") (auto simp: hd_drop_conv_nth)
  have nl: "sql ! i = CHR ''-'' \<or> sql ! i = CHR ''#'' \<Longrightarrow>
      scanLineComment sql i = i + (1 + length (takeWhile (\<lambda>x. \<not> is_newline x) (drop (i + 1) sql)))"
    using assms by (subst scanLineComment_len) (auto simp: dr is_newline_def)
  have lit: "scanQuoted sql i q b = i + (1 + quoted_len q b (drop (i + 1) sql))" for q b
    using assms by (simp add: scanQuoted_def quoted_end_len)
  have br: "scanBracket sql i b = i + (if b then 1 + quoted_len (CHR '']'') False (drop (i + 1) sql)
      else (case index_byte (CHR '']'') (drop (i + 1) sql) of Some e \<Rightarrow> 2 + e | None \<Rightarrow> 1 + length (drop (i + 1) sql)))" for b
    using assms by (auto simp: scanBracket_def lit simp del: index_byte_None split: option.split)
  have bl: "drop (i + 1) sql \<noteq> [] \<Longrightarrow> scanBlockComment sql i b = i + (2 + block_len b 1 (tl (drop (i + 1) sql)))" for b
    by (simp only: scanBlockComment_def tl) (simp add: block_end_len)
  have dq: "scanDollarQuote sql i = map_option ((+) i) (case dollarTag (sql ! i # drop (i + 1) sql) of
      None \<Rightarrow> None
    | Some open \<Rightarrow> Some (case strings_Index (drop (length open) (sql ! i # drop (i + 1) sql)) open of
          Some idx \<Rightarrow> length open + idx + length open
        | None \<Rightarrow> 1 + length (drop (i + 1) sql)))"
    using assms unfolding scanDollarQuote_def dr [symmetric]
    by (auto simp: add.commute split: option.split)
  have dash: "(i + 1 < length sql \<and> sql ! (i + 1) = CHR ''-'' \<and> (d \<noteq> MySQL \<or> i + 2 = length sql \<or> byte (sql ! (i + 2)) \<le> 32)) =
      (drop (i + 1) sql \<noteq> [] \<and> hd (drop (i + 1) sql) = CHR ''-'' \<and> (d \<noteq> MySQL \<or> tl (drop (i + 1) sql) = [] \<or> byte (hd (tl (drop (i + 1) sql))) \<le> 32))"
    using hd [of "CHR ''-''"] third tl by metis
  show ?thesis
    unfolding region_at_def region_def context_at_def Let_def dash hd
    using nl bl by (auto simp: lit br dq simp del: drop_eq_Nil split: option.split)
qed

lemma dollar_bounds:
  assumes "dollarTag s = Some t" "strings_Index (drop (length t) s) t = Some idx"
  shows "t \<noteq> [] \<and> length t + idx + length t \<le> length s"
proof -
  obtain tag u where "s = CHR ''$'' # tag @ CHR ''$'' # u" "t = CHR ''$'' # tag @ ''$''"
    by (rule dollarTag_Some [OF assms(1)]) blast
  then have "length t \<le> length s" "t \<noteq> []" by auto
  with strings_Index_le [OF assms(2)] show ?thesis by auto
qed

lemma region_bounds: "region d st c r = Some (k, n) \<Longrightarrow> 0 < n \<and> n \<le> Suc (length r) \<and> k \<noteq> Code"
proof -
  assume *: "region d st c r = Some (k, n)"
  have nl: "length (takeWhile P xs) \<le> length xs" for P and xs :: string by (rule length_takeWhile_le)
  have ib: "index_byte x r = Some e \<Longrightarrow> e < length r" for x e by (auto dest: index_byte_SomeD)
  have bl: "r \<noteq> [] \<Longrightarrow> Suc (block_len b (Suc 0) (tl r)) \<le> length r" for b
    using block_len_le [of b 1 "tl r"] by (cases r) auto
  show ?thesis
    using * by (auto simp: region_def nl bl quoted_len_le split: if_splits option.splits dest: ib dollar_bounds simp del: index_byte_None)
qed

text \<open>The loop of \<open>Scan\<close> at offset \<open>i\<close> with pending code from \<open>codeStart\<close>.\<close>

definition addCode :: "nat \<Rightarrow> nat \<Rightarrow> Segment list" where
  "addCode codeStart e = (if codeStart < e then [\<lparr>seg_Kind = Code, seg_Start = codeStart, seg_End = e\<rparr>] else [])"

function scan_loop :: "Dialect \<Rightarrow> string \<Rightarrow> nat \<Rightarrow> nat \<Rightarrow> Segment list" where
  "scan_loop d sql i codeStart =
     (if i < length sql then
        (case region_at d sql i of
           Some (k, e) \<Rightarrow> addCode codeStart i @ \<lparr>seg_Kind = k, seg_Start = i, seg_End = e\<rparr> # scan_loop d sql e e
         | None \<Rightarrow> scan_loop d sql (i + 1) codeStart)
      else addCode codeStart (length sql))"
  by pat_completeness auto
termination
  by (relation "measure (\<lambda>(d, sql, i, cs). length sql - i)")
    (auto simp: region_at_region dest!: region_bounds)

declare scan_loop.simps [simp del]

definition Scan :: "Dialect \<Rightarrow> string \<Rightarrow> Segment list" where
  "Scan d sql = scan_loop d sql 0 0"

text \<open>
  \<open>TokenRegexp\<close>, \<^verbatim>\<open>![a-zA-Z0-9_-]+!\<close>: the length of a match at the start of a text, and the successive
  non-overlapping matches from the left as \<^verbatim>\<open>FindAllStringIndex\<close> gives them.
\<close>

definition token_byte :: "char \<Rightarrow> bool" where
  "token_byte c \<longleftrightarrow> tag_byte c \<or> c = CHR ''-''"

definition match_token :: "string \<Rightarrow> nat option" where
  "match_token s = (case s of
       [] \<Rightarrow> None
     | c # cs \<Rightarrow>
         let name = takeWhile token_byte cs; rest = dropWhile token_byte cs in
         if c = CHR ''!'' \<and> name \<noteq> [] \<and> rest \<noteq> [] \<and> hd rest = CHR ''!'' then Some (length name + 2) else None)"

function FindAllStringIndex :: "string \<Rightarrow> nat \<Rightarrow> (nat \<times> nat) list" where
  "FindAllStringIndex s i = (case s of
       [] \<Rightarrow> []
     | c # cs \<Rightarrow> (case match_token s of
           Some n \<Rightarrow> (i, i + n) # FindAllStringIndex (drop n s) (i + n)
         | None \<Rightarrow> FindAllStringIndex cs (i + 1)))"
  by pat_completeness auto
termination
  by (relation "measure (\<lambda>(s, i). length s)") (auto simp: match_token_def Let_def split: if_splits)

declare FindAllStringIndex.simps [simp del]

definition go_slice :: "string \<Rightarrow> nat \<Rightarrow> nat \<Rightarrow> string" where
  "go_slice s a b = take (b - a) (drop a s)"

definition CodeTokens :: "Dialect \<Rightarrow> string \<Rightarrow> SqlToken list" where
  "CodeTokens d sql = concat (map (\<lambda>seg.
     if seg_Kind seg \<noteq> Code then []
     else map (\<lambda>loc. let s = seg_Start seg + fst loc; e = seg_Start seg + snd loc
                     in \<lparr>tok_Start = s, tok_End = e, tok_Text = go_slice sql s e\<rparr>)
            (FindAllStringIndex (go_slice sql (seg_Start seg) (seg_End seg)) 0)) (Scan d sql))"

fun map_tokens_loop :: "string \<Rightarrow> (string \<Rightarrow> string) \<Rightarrow> nat \<Rightarrow> SqlToken list \<Rightarrow> string" where
  "map_tokens_loop sql fn prev [] = drop prev sql"
| "map_tokens_loop sql fn prev (tok # toks) =
     go_slice sql prev (tok_Start tok) @ fn (tok_Text tok) @ map_tokens_loop sql fn (tok_End tok) toks"

definition MapTokens :: "Dialect \<Rightarrow> string \<Rightarrow> (string \<Rightarrow> string) \<Rightarrow> string" where
  "MapTokens d sql fn = map_tokens_loop sql fn 0 (CodeTokens d sql)"

definition ReplaceToken :: "Dialect \<Rightarrow> string \<Rightarrow> string \<Rightarrow> string \<Rightarrow> string" where
  "ReplaceToken d sql token v = MapTokens d sql (\<lambda>t. if t = token then v else t)"

definition StripTokens :: "Dialect \<Rightarrow> string \<Rightarrow> string" where
  "StripTokens d sql = MapTokens d sql (\<lambda>_. [])"

definition ContainsToken :: "Dialect \<Rightarrow> string \<Rightarrow> string list \<Rightarrow> bool" where
  "ContainsToken d sql tokens = list_ex (\<lambda>tok. list_ex (\<lambda>want. tok_Text tok = want) tokens) (CodeTokens d sql)"

text \<open>
  \<^verbatim>\<open>strings.EqualFold\<close> with an ASCII text, as a token is: letters without regard to case, and the two
  further code points (Kelvin sign, long s) that fold to ASCII letters.
\<close>

definition fold_rune :: "nat \<Rightarrow> nat" where
  "fold_rune r = (if 65 \<le> r \<and> r \<le> 90 then r + 32 else if r = 0x212A then 107 else if r = 0x17F then 115 else r)"

definition EqualFold :: "string \<Rightarrow> string \<Rightarrow> bool" where
  "EqualFold s t \<longleftrightarrow> map (fold_rune \<circ> snd) (runes_at 0 s) = map (fold_rune \<circ> snd) (runes_at 0 t)"

definition ContainsTokenFold :: "Dialect \<Rightarrow> string \<Rightarrow> string list \<Rightarrow> bool" where
  "ContainsTokenFold d sql tokens = list_ex (\<lambda>tok. list_ex (EqualFold (tok_Text tok)) tokens) (CodeTokens d sql)"

text \<open>
  \<open>SpanHasProtectedToken\<close>; \<open>None\<close> stands for the panic of a go_slice whose end lies before its start,
  which a span with \<open>end < start\<close> can cause.
\<close>

definition protected_part :: "nat \<Rightarrow> nat \<Rightarrow> Segment \<Rightarrow> (nat \<times> nat) option" where
  "protected_part start stop seg =
     (if \<not> Protected (seg_Kind seg) \<or> seg_End seg \<le> start \<or> stop \<le> seg_Start seg then None
      else Some (max (seg_Start seg) start, min (seg_End seg) stop))"

fun span_loop :: "string \<Rightarrow> nat \<Rightarrow> nat \<Rightarrow> Segment list \<Rightarrow> bool option" where
  "span_loop sql start stop [] = Some False"
| "span_loop sql start stop (seg # segs) = (case protected_part start stop seg of
       None \<Rightarrow> span_loop sql start stop segs
     | Some (s, e) \<Rightarrow>
         if e < s then None
         else if FindAllStringIndex (go_slice sql s e) 0 \<noteq> [] then Some True
         else span_loop sql start stop segs)"

definition SpanHasProtectedToken :: "Dialect \<Rightarrow> string \<Rightarrow> int \<Rightarrow> int \<Rightarrow> bool option" where
  "SpanHasProtectedToken d sql start stop =
     (let start' = max 0 start; stop' = min (int (length sql)) stop in
      if stop' < 0 then Some False else span_loop sql (nat start') (nat stop') (Scan d sql))"

end
