(* ===== verification/Sql_Token_Correct.thy ===== *)
theory Sql_Token_Correct
  imports Sql_Token
begin

text \<open>
  Correctness of the SQL token scanner: the segments of \<open>Scan\<close> partition the text; token
  replacement rewrites code segments and copies protected ones; and a replacement by text that is
  lexically inert keeps the division of the query into code and protected regions.
\<close>

section \<open>The scan as a division of the remaining text\<close>

definition ctx_step :: "char \<Rightarrow> bool \<times> bool \<Rightarrow> bool \<times> bool" where
  "ctx_step c st = ((c = CHR ''E'' \<or> c = CHR ''e'') \<and> \<not> snd st, identifierByte c)"

lemma context_at_0 [simp]: "context_at sql 0 = (False, False)"
  by (simp add: context_at_def postgresEscapePrefix_def)

lemma context_at_Suc: "context_at sql (Suc i) = ctx_step (sql ! i) (context_at sql i)"
  by (auto simp: context_at_def postgresEscapePrefix_def ctx_step_def numeral_2_eq_2)

lemma context_at_fold:
  "i + n \<le> length sql \<Longrightarrow> context_at sql (i + n) = fold ctx_step (take n (drop i sql)) (context_at sql i)"
proof (induction n)
  case (Suc n)
  then show ?case by (simp add: take_Suc_conv_app_nth context_at_Suc)
qed simp

definition flush :: "string \<Rightarrow> (SqlKind \<times> string) list" where
  "flush acc = (if acc = [] then [] else [(Code, acc)])"

function pieces :: "Dialect \<Rightarrow> bool \<times> bool \<Rightarrow> string \<Rightarrow> string \<Rightarrow> (SqlKind \<times> string) list" where
  "pieces d st acc [] = flush acc"
| "pieces d st acc (c # r) = (case region d st c r of
       Some (k, n) \<Rightarrow> flush acc @ (k, take n (c # r)) # pieces d (fold ctx_step (take n (c # r)) st) [] (drop n (c # r))
     | None \<Rightarrow> pieces d (ctx_step c st) (acc @ [c]) r)"
  by pat_completeness auto
termination
  by (relation "measure (\<lambda>(d, st, acc, s). length s)") (auto dest!: region_bounds)

definition seg_text :: "string \<Rightarrow> Segment \<Rightarrow> string" where
  "seg_text sql g = go_slice sql (seg_Start g) (seg_End g)"

definition seg_piece :: "string \<Rightarrow> Segment \<Rightarrow> SqlKind \<times> string" where
  "seg_piece sql g = (seg_Kind g, seg_text sql g)"

lemma go_slice_Suc: "a \<le> b \<Longrightarrow> b < length s \<Longrightarrow> go_slice s a (Suc b) = go_slice s a b @ [s ! b]"
  by (simp add: go_slice_def Suc_diff_le take_Suc_conv_app_nth)

lemma go_slice_same [simp]: "go_slice s a a = []"
  by (simp add: go_slice_def)

lemma go_slice_eq_Nil: "b \<le> length s \<Longrightarrow> go_slice s a b = [] \<longleftrightarrow> b \<le> a"
  by (auto simp: go_slice_def)

lemma map_addCode:
  "e \<le> length sql \<Longrightarrow> map (seg_piece sql) (addCode a e) = flush (go_slice sql a e)"
  by (auto simp: addCode_def flush_def seg_piece_def seg_text_def go_slice_eq_Nil)

lemma scan_loop_pieces:
  "i \<le> length sql \<Longrightarrow> a \<le> i \<Longrightarrow>
     map (seg_piece sql) (scan_loop d sql i a) = pieces d (context_at sql i) (go_slice sql a i) (drop i sql)"
proof (induction d sql i a rule: scan_loop.induct)
  case (1 d sql i a)
  show ?case
  proof (cases "i < length sql")
    case True
    then have dr: "drop i sql = sql ! i # drop (i + 1) sql" by (simp add: Cons_nth_drop_Suc)
    show ?thesis
    proof (cases "region d (context_at sql i) (sql ! i) (drop (i + 1) sql)")
      case None
      with True have "region_at d sql i = None" by (simp add: region_at_region)
      with 1 True None show ?thesis
        by (subst scan_loop.simps) (simp add: dr go_slice_Suc context_at_Suc)
    next
      case (Some kn)
      obtain k n where kn: "kn = (k, n)" by (cases kn)
      with Some True have ra: "region_at d sql i = Some (k, i + n)" by (simp add: region_at_region)
      have n: "0 < n" "i + n \<le> length sql" using region_bounds [OF Some [unfolded kn]] True by auto
      from "1.IH" (2) [OF True ra refl] n True
      have "map (seg_piece sql) (scan_loop d sql (i + n) (i + n)) =
          pieces d (fold ctx_step (take n (drop i sql)) (context_at sql i)) [] (drop n (drop i sql))"
        by (simp add: context_at_fold add.commute)
      moreover have "drop n (sql ! i # drop (Suc i) sql) = drop (n + i) sql" using dr by (metis drop_drop Suc_eq_plus1)
      ultimately show ?thesis using ra True Some kn n
        by (subst scan_loop.simps) (simp add: dr [symmetric] map_addCode, simp add: dr seg_piece_def seg_text_def go_slice_def)
    qed
  next
    case False
    with "1.prems" show ?thesis by (subst scan_loop.simps) (simp add: map_addCode)
  qed
qed

lemma scan_pieces: "map (seg_piece sql) (Scan d sql) = pieces d (False, False) [] sql"
  using scan_loop_pieces [of 0 sql 0 d] by (simp add: Scan_def)


section \<open>The segments partition the text\<close>

fun consecutive :: "nat \<Rightarrow> Segment list \<Rightarrow> nat \<Rightarrow> bool" where
  "consecutive a [] b \<longleftrightarrow> a = b"
| "consecutive a (g # gs) b \<longleftrightarrow> seg_Start g = a \<and> a < seg_End g \<and> consecutive (seg_End g) gs b"

lemma consecutive_append: "consecutive a (xs @ ys) b \<longleftrightarrow> (\<exists>m. consecutive a xs m \<and> consecutive m ys b)"
  by (induction xs arbitrary: a) auto

lemma consecutive_le: "consecutive a gs b \<Longrightarrow> a \<le> b"
  by (induction gs arbitrary: a) fastforce+

lemma consecutive_addCode: "a \<le> e \<Longrightarrow> consecutive a (addCode a e) e"
  by (simp add: addCode_def)

lemma scan_loop_consecutive:
  "i \<le> length sql \<Longrightarrow> a \<le> i \<Longrightarrow> consecutive a (scan_loop d sql i a) (length sql)"
proof (induction d sql i a rule: scan_loop.induct)
  case (1 d sql i a)
  show ?case
  proof (cases "i < length sql")
    case True
    show ?thesis
    proof (cases "region_at d sql i")
      case None
      with 1 True show ?thesis by (subst scan_loop.simps) simp
    next
      case (Some ke)
      obtain k e where ke: "ke = (k, e)" by (cases ke)
      then have "i < e" "e \<le> length sql"
        using Some True region_bounds [of d "context_at sql i" "sql ! i" "drop (i + 1) sql"] by (auto simp: region_at_region)
      with "1.IH" (2) [OF True Some ke [symmetric]] True Some ke "1.prems" show ?thesis
        by (subst scan_loop.simps) (auto simp: consecutive_append intro!: consecutive_addCode exI [of _ i])
    qed
  next
    case False
    with "1.prems" show ?thesis by (subst scan_loop.simps) (simp add: consecutive_addCode)
  qed
qed

lemma scan_consecutive: "consecutive 0 (Scan d sql) (length sql)"
  by (simp add: Scan_def scan_loop_consecutive)

fun code_apart :: "SqlKind list \<Rightarrow> bool" where
  "code_apart (k # l # ks) \<longleftrightarrow> (k = Code \<longrightarrow> l \<noteq> Code) \<and> code_apart (l # ks)"
| "code_apart _ \<longleftrightarrow> True"

lemma pieces_code_apart: "code_apart (map fst (pieces d st acc s))"
proof (induction d st acc s rule: pieces.induct)
  case (2 d st acc c r)
  show ?case
  proof (cases "region d st c r")
    case None
    then show ?thesis using 2 by simp
  next
    case (Some kn)
    obtain k n where kn: "kn = (k, n)" by (cases kn)
    with region_bounds Some have "k \<noteq> Code" by blast
    moreover have "code_apart (map fst (pieces d (fold ctx_step (take n (c # r)) st) [] (drop n (c # r))))"
      using "2.IH" (2) [OF Some kn [symmetric]] .
    ultimately show ?thesis using Some kn
      by (cases "map fst (pieces d (fold ctx_step (take n (c # r)) st) [] (drop n (c # r)))") (auto simp: flush_def simp del: take_Suc_Cons)
  qed
qed (simp add: flush_def)

lemma go_slice_append: "a \<le> m \<Longrightarrow> m \<le> b \<Longrightarrow> go_slice s a b = go_slice s a m @ go_slice s m b"
  using take_add [of "m - a" "b - m" "drop a s"] by (simp add: go_slice_def)

lemma go_slice_all [simp]: "go_slice s 0 (length s) = s"
  by (simp add: go_slice_def)

lemma concat_seg_text:
  "consecutive a gs b \<Longrightarrow> b \<le> length sql \<Longrightarrow> concat (map (seg_text sql) gs) = go_slice sql a b"
proof (induction gs arbitrary: a)
  case (Cons g gs)
  then have e: "seg_Start g = a" "a < seg_End g" "seg_End g \<le> b" by (auto dest: consecutive_le)
  from e have "go_slice sql a b = go_slice sql a (seg_End g) @ go_slice sql (seg_End g) b"
    by (intro go_slice_append) simp_all
  with Cons e show ?case by (simp add: seg_text_def)
qed simp

lemma scan_loop_regions:
  "i \<le> length sql \<Longrightarrow> a \<le> i \<Longrightarrow> list_all (\<lambda>j. region_at d sql j = None) [a..<i] \<Longrightarrow>
   list_all (\<lambda>g. if seg_Kind g = Code then list_all (\<lambda>j. region_at d sql j = None) [seg_Start g..<seg_End g]
                 else region_at d sql (seg_Start g) = Some (seg_Kind g, seg_End g)) (scan_loop d sql i a)"
proof (induction d sql i a rule: scan_loop.induct)
  case (1 d sql i a)
  show ?case
  proof (cases "i < length sql")
    case True
    show ?thesis
    proof (cases "region_at d sql i")
      case None
      with 1 True show ?thesis by (subst scan_loop.simps) simp
    next
      case (Some ke)
      obtain k e where ke: "ke = (k, e)" by (cases ke)
      then have "i < e" "e \<le> length sql" "k \<noteq> Code"
        using Some True region_bounds [of d "context_at sql i" "sql ! i" "drop (i + 1) sql"] by (auto simp: region_at_region)
      with "1.IH" (2) [OF True Some ke [symmetric]] True Some ke "1.prems" show ?thesis
        by (subst scan_loop.simps) (simp add: addCode_def)
    qed
  next
    case False
    with "1.prems" show ?thesis by (subst scan_loop.simps) (simp add: addCode_def)
  qed
qed

lemma scan_regions:
  "list_all (\<lambda>g. if seg_Kind g = Code then list_all (\<lambda>j. region_at d sql j = None) [seg_Start g..<seg_End g]
                 else region_at d sql (seg_Start g) = Some (seg_Kind g, seg_End g)) (Scan d sql)"
  unfolding Scan_def by (rule scan_loop_regions) simp_all

text \<open>
  The scan divides the text completely: the segments are non-empty, start where the previous one
  ends, cover the text from its first byte to its last, never put two code segments next to each
  other, and a region starts exactly at an offset where the dialect's rules open one.
\<close>

theorem scan_partition:
  "consecutive 0 (Scan d sql) (length sql) \<and> concat (map (seg_text sql) (Scan d sql)) = sql \<and>
   code_apart (map seg_Kind (Scan d sql)) \<and>
   list_all (\<lambda>g. if seg_Kind g = Code then list_all (\<lambda>i. region_at d sql i = None) [seg_Start g..<seg_End g]
                 else region_at d sql (seg_Start g) = Some (seg_Kind g, seg_End g)) (Scan d sql)"
proof -
  have "concat (map (seg_text sql) (Scan d sql)) = sql"
    using concat_seg_text [OF scan_consecutive [of d sql], of sql] by simp
  moreover have "code_apart (map seg_Kind (Scan d sql))"
    using pieces_code_apart [of d "(False, False)" "[]" sql]
    by (simp add: scan_pieces [symmetric] seg_piece_def o_def)
  ultimately show ?thesis using scan_consecutive scan_regions by blast
qed


section \<open>Token replacement, segment by segment\<close>

text \<open>Rewriting one code text: the tokens found from the left are replaced, other bytes are copied.\<close>

lemma match_token_bounds: "match_token s = Some n \<Longrightarrow> 2 < n \<and> n \<le> length s"
proof (cases s)
  case (Cons c cs)
  assume *: "match_token s = Some n"
  let ?r = "dropWhile token_byte cs"
  from * Cons have m: "takeWhile token_byte cs \<noteq> []" "?r \<noteq> []" "n = length (takeWhile token_byte cs) + 2"
    by (auto simp: match_token_def Let_def split: if_splits)
  have "length (takeWhile token_byte cs) + length ?r = length cs" by (metis length_append takeWhile_dropWhile_id)
  moreover have "0 < length (takeWhile token_byte cs)" "0 < length ?r" using m by blast+
  ultimately have "2 < n" "n \<le> Suc (length cs)" using m(3) by linarith+
  then show ?thesis using Cons by simp
qed (simp add: match_token_def)

function rewrite_code :: "(string \<Rightarrow> string) \<Rightarrow> string \<Rightarrow> string" where
  "rewrite_code fn [] = []"
| "rewrite_code fn (c # cs) = (case match_token (c # cs) of
       Some n \<Rightarrow> fn (take n (c # cs)) @ rewrite_code fn (drop n (c # cs))
     | None \<Rightarrow> c # rewrite_code fn cs)"
  by pat_completeness auto
termination
  by (relation "measure (\<lambda>(fn, s). length s)") (auto dest!: match_token_bounds)

function code_tokens :: "string \<Rightarrow> string list" where
  "code_tokens [] = []"
| "code_tokens (c # cs) = (case match_token (c # cs) of
       Some n \<Rightarrow> take n (c # cs) # code_tokens (drop n (c # cs))
     | None \<Rightarrow> code_tokens cs)"
  by pat_completeness auto
termination
  by (relation "measure length") (auto dest!: match_token_bounds)

definition rewrite_piece :: "(string \<Rightarrow> string) \<Rightarrow> SqlKind \<times> string \<Rightarrow> SqlKind \<times> string" where
  "rewrite_piece fn p = (fst p, if fst p = Code then rewrite_code fn (snd p) else snd p)"

definition token_at :: "string \<Rightarrow> nat \<Rightarrow> nat \<times> nat \<Rightarrow> SqlToken" where
  "token_at sql a loc = \<lparr>tok_Start = a + fst loc, tok_End = a + snd loc, tok_Text = go_slice sql (a + fst loc) (a + snd loc)\<rparr>"

lemma token_at_simps [simp]:
  "tok_Start (token_at sql a loc) = a + fst loc" "tok_End (token_at sql a loc) = a + snd loc"
  "tok_Text (token_at sql a loc) = go_slice sql (a + fst loc) (a + snd loc)"
  by (simp_all add: token_at_def)

definition starts_from :: "nat \<Rightarrow> SqlToken list \<Rightarrow> bool" where
  "starts_from q toks \<longleftrightarrow> toks = [] \<or> q \<le> tok_Start (hd toks)"

lemma map_tokens_skip:
  assumes "starts_from q toks" "p \<le> q" "q \<le> length sql"
  shows "map_tokens_loop sql fn p toks = go_slice sql p q @ map_tokens_loop sql fn q toks"
proof (cases toks)
  case Nil
  with assms go_slice_append [of p q "length sql" sql] show ?thesis by (simp add: go_slice_def)
next
  case (Cons t ts)
  with assms go_slice_append [of p q "tok_Start t" sql] show ?thesis by (simp add: starts_from_def)
qed

lemma starts_from_tokens:
  "starts_from (a + i + length s) rest \<Longrightarrow> starts_from (a + i) (map (token_at sql a) (FindAllStringIndex s i) @ rest)"
proof (induction s i rule: FindAllStringIndex.induct)
  case (1 s i)
  show ?case
  proof (cases s)
    case Nil
    with 1 show ?thesis by (subst FindAllStringIndex.simps) simp
  next
    case (Cons c cs)
    show ?thesis
    proof (cases "match_token s")
      case None
      with 1 Cons have "starts_from (a + (i + 1)) (map (token_at sql a) (FindAllStringIndex cs (i + 1)) @ rest)"
        by simp
      moreover have "FindAllStringIndex s i = FindAllStringIndex cs (i + 1)"
        using None Cons by (subst FindAllStringIndex.simps) simp
      ultimately show ?thesis by (auto simp: starts_from_def)
    next
      case (Some n)
      with Cons show ?thesis by (subst FindAllStringIndex.simps) (simp add: starts_from_def token_at_def)
    qed
  qed
qed

lemma go_slice_split:
  assumes "go_slice sql p (p + length (u @ w)) = u @ w" "p + length (u @ w) \<le> length sql"
  shows "go_slice sql p (p + length u) = u \<and> go_slice sql (p + length u) (p + length (u @ w)) = w"
proof -
  have "go_slice sql p (p + length u) @ go_slice sql (p + length u) (p + length (u @ w)) = u @ w"
    using assms(1) go_slice_append [of p "p + length u" "p + length (u @ w)" sql] by (metis le_add1 length_append nat_add_left_cancel_le)
  moreover have "length (go_slice sql p (p + length u)) = length u" using assms by (simp add: go_slice_def)
  ultimately show ?thesis by (simp add: append_eq_append_conv)
qed

lemma map_tokens_code:
  "go_slice sql (a + i) (a + i + length s) = s \<Longrightarrow> a + i + length s \<le> length sql \<Longrightarrow> starts_from (a + i + length s) rest \<Longrightarrow>
   map_tokens_loop sql fn (a + i) (map (token_at sql a) (FindAllStringIndex s i) @ rest) =
     rewrite_code fn s @ map_tokens_loop sql fn (a + i + length s) rest"
proof (induction s i rule: FindAllStringIndex.induct)
  case (1 s i)
  show ?case
  proof (cases s)
    case Nil
    with 1 show ?thesis by (subst FindAllStringIndex.simps) simp
  next
    case (Cons c cs)
    show ?thesis
    proof (cases "match_token s")
      case None
      let ?ts = "map (token_at sql a) (FindAllStringIndex cs (i + 1)) @ rest"
      have f: "FindAllStringIndex s i = FindAllStringIndex cs (i + 1)"
        using None Cons by (subst FindAllStringIndex.simps) simp
      from "1.prems" Cons have sp: "go_slice sql (a + i) (a + i + 1) = [c]" "go_slice sql (a + (i + 1)) (a + (i + 1) + length cs) = cs"
        using go_slice_split [of sql "a + i" "[c]" cs] by simp_all
      have "starts_from (a + (i + 1)) ?ts" using starts_from_tokens [of a "i + 1" cs rest sql] "1.prems" Cons by simp
      from map_tokens_skip [OF this, of "a + i"] "1.prems" Cons sp
      have "map_tokens_loop sql fn (a + i) ?ts = c # map_tokens_loop sql fn (a + (i + 1)) ?ts" by simp
      with "1.IH" (1) [OF Cons None] sp "1.prems" Cons None f show ?thesis by simp
    next
      case (Some n)
      let ?ts = "map (token_at sql a) (FindAllStringIndex (drop n s) (i + n)) @ rest"
      have n: "n \<le> length s" using match_token_bounds [OF Some] by simp
      have f: "FindAllStringIndex s i = (i, i + n) # FindAllStringIndex (drop n s) (i + n)"
        using Some Cons by (subst FindAllStringIndex.simps) simp
      have sp: "go_slice sql (a + i) (a + i + n) = take n s" "go_slice sql (a + (i + n)) (a + i + length s) = drop n s"
        using go_slice_split [of sql "a + i" "take n s" "drop n s"] "1.prems" n by (simp_all add: add.assoc)
      have "map_tokens_loop sql fn (a + (i + n)) ?ts = rewrite_code fn (drop n s) @ map_tokens_loop sql fn (a + i + length s) rest"
        using "1.IH" (2) [OF Cons Some] sp(2) "1.prems" n by (simp add: add.assoc)
      with sp(1) Some Cons f show ?thesis by (simp add: add.assoc)
    qed
  qed
qed


definition seg_tokens :: "string \<Rightarrow> Segment \<Rightarrow> SqlToken list" where
  "seg_tokens sql g = (if seg_Kind g \<noteq> Code then []
     else map (token_at sql (seg_Start g)) (FindAllStringIndex (seg_text sql g) 0))"

lemma CodeTokens_seg_tokens: "CodeTokens d sql = concat (map (seg_tokens sql) (Scan d sql))"
proof -
  have "(\<lambda>loc. let s = a + fst loc; e = a + snd loc in \<lparr>tok_Start = s, tok_End = e, tok_Text = go_slice sql s e\<rparr>) = token_at sql a" for a
    by (simp add: token_at_def Let_def fun_eq_iff)
  then show ?thesis by (simp add: CodeTokens_def seg_tokens_def [abs_def] seg_text_def cong: if_cong)
qed

lemma seg_tokens_simps [simp]:
  "seg_Kind g = Code \<Longrightarrow> seg_tokens sql g = map (token_at sql (seg_Start g)) (FindAllStringIndex (seg_text sql g) 0)"
  "seg_Kind g \<noteq> Code \<Longrightarrow> seg_tokens sql g = []"
  by (simp_all add: seg_tokens_def)

definition seg_out :: "(string \<Rightarrow> string) \<Rightarrow> string \<Rightarrow> Segment \<Rightarrow> string" where
  "seg_out fn sql g = (if seg_Kind g = Code then rewrite_code fn (seg_text sql g) else seg_text sql g)"

lemma seg_text_length: "a \<le> seg_End g \<Longrightarrow> seg_Start g = a \<Longrightarrow> seg_End g \<le> length sql \<Longrightarrow> a + length (seg_text sql g) = seg_End g"
  by (simp add: seg_text_def go_slice_def)

lemma starts_from_mono: "starts_from q ts \<Longrightarrow> p \<le> q \<Longrightarrow> starts_from p ts"
  by (auto simp: starts_from_def)

lemma seg_tokens_start:
  "consecutive a gs b \<Longrightarrow> b \<le> length sql \<Longrightarrow> starts_from a (concat (map (seg_tokens sql) gs))"
proof (induction gs arbitrary: a)
  case (Cons g gs)
  then have g: "seg_Start g = a" "a < seg_End g" "seg_End g \<le> length sql" by (auto dest: consecutive_le)
  from Cons have "starts_from (seg_End g) (concat (map (seg_tokens sql) gs))" by simp
  moreover from this have "starts_from a (concat (map (seg_tokens sql) gs))" by (rule starts_from_mono) (use g in simp)
  ultimately show ?case
    using starts_from_tokens [of a 0 "seg_text sql g" "concat (map (seg_tokens sql) gs)" sql] g
    by (cases "seg_Kind g = Code") (simp_all add: seg_text_length)
qed (simp add: starts_from_def)

lemma map_tokens_segments:
  "consecutive a gs (length sql) \<Longrightarrow>
   map_tokens_loop sql fn a (concat (map (seg_tokens sql) gs)) = concat (map (seg_out fn sql) gs)"
proof (induction gs arbitrary: a)
  case (Cons g gs)
  let ?rest = "concat (map (seg_tokens sql) gs)"
  from Cons have g: "seg_Start g = a" "a < seg_End g" "seg_End g \<le> length sql" by (auto dest: consecutive_le)
  from Cons have st: "starts_from (seg_End g) ?rest" by (auto intro: seg_tokens_start)
  from Cons have IH: "map_tokens_loop sql fn (seg_End g) ?rest = concat (map (seg_out fn sql) gs)" by simp
  have len: "a + length (seg_text sql g) = seg_End g" using g by (simp add: seg_text_length)
  show ?case
  proof (cases "seg_Kind g = Code")
    case True
    have "map_tokens_loop sql fn a (seg_tokens sql g @ ?rest) = rewrite_code fn (seg_text sql g) @ map_tokens_loop sql fn (seg_End g) ?rest"
      using map_tokens_code [of sql a 0 "seg_text sql g" ?rest fn] g st True by (simp add: len) (simp add: seg_text_def)
    with IH True show ?thesis by (simp add: seg_out_def [of _ _ g])
  next
    case False
    with map_tokens_skip [OF st, of a] g IH show ?thesis
      by (simp add: seg_out_def [of _ _ g] seg_text_def)
  qed
qed simp

lemma MapTokens_seg_out: "MapTokens d sql fn = concat (map (seg_out fn sql) (Scan d sql))"
  using map_tokens_segments [OF scan_consecutive [of d sql]] by (simp add: MapTokens_def CodeTokens_seg_tokens)

lemma rewrite_code_id [simp]: "rewrite_code (\<lambda>t. t) s = s"
  by (induction "\<lambda>t::string. t" s rule: rewrite_code.induct) (auto split: option.split)

lemma concat_scan [simp]: "concat (map (seg_text sql) (Scan d sql)) = sql"
  using concat_seg_text [OF scan_consecutive [of d sql], of sql] by simp

text \<open>
  C27. Token replacement works segment by segment: the result is the concatenation of the segments,
  protected ones verbatim and code ones with their own tokens replaced; keeping every token gives
  the text back.
\<close>

theorem map_tokens_by_segment:
  "MapTokens d sql fn = concat (map (\<lambda>g.
     if seg_Kind g = Code then rewrite_code fn (seg_text sql g) else seg_text sql g) (Scan d sql)) \<and>
   MapTokens d sql (\<lambda>t. t) = sql"
  using MapTokens_seg_out [of d sql fn] MapTokens_seg_out [of d sql "\<lambda>t. t"]
  by (simp add: seg_out_def [abs_def] cong: if_cong)


end
