(* ===== verification/Sql_Substitution.thy ===== *)
theory Sql_Substitution
  imports Sql_Token_Correct
begin

text \<open>
  When the replacement of a token is lexically inert, the substituted query has the regions of the
  original one: no literal, quoted identifier or comment opens, closes or changes.
\<close>

section \<open>Inert replacement texts\<close>

text \<open>
  A byte that neither opens nor closes a region in any dialect, and a text of such bytes that
  cannot combine with the bytes around it: it starts with a visible byte and, where the dialect reads
  dollar quotes and escape strings, does not touch its neighbours with identifier bytes.
\<close>

definition plain_byte :: "char \<Rightarrow> bool" where
  "plain_byte c \<longleftrightarrow> \<not> List.member [39, 34, 96, 91, 93, 45, 35, 47, 42, 36] (byte c)"

definition inert :: "Dialect \<Rightarrow> string \<Rightarrow> bool" where
  "inert d v \<longleftrightarrow> v \<noteq> [] \<and> list_all plain_byte v \<and> 32 < byte (hd v) \<and>
     (d = Legacy \<or> d = PostgreSQL \<longrightarrow> \<not> identifierByte (hd v)) \<and> (d = PostgreSQL \<longrightarrow> \<not> identifierByte (last v))"

text \<open>
  Texts that look alike to the scanner up to the first token: they agree byte by byte until one has
  the exclamation mark of a token and the other an inert text.
\<close>

inductive alike :: "Dialect \<Rightarrow> string \<Rightarrow> string \<Rightarrow> bool" for d where
  Nil: "alike d [] []"
| Cons: "alike d X Y \<Longrightarrow> alike d (c # X) (c # Y)"
| Token: "inert d v \<Longrightarrow> alike d (CHR ''!'' # X) (v @ Y)"

inductive_cases alike_NilE [elim!]: "alike d [] Y"
inductive_cases alike_ConsE: "alike d (c # X) Y"

lemma alike_append: "alike d X Y \<Longrightarrow> alike d (Q @ X) (Q @ Y)"
  by (induction Q) (auto intro: alike.Cons)

lemma alike_Cons_cases:
  assumes "alike d (c # X) Y"
  obtains Z where "Y = c # Z" "alike d X Z"
  | x Z where "c = CHR ''!''" "Y = x # Z" "plain_byte x" "32 < byte x" "d = Legacy \<or> d = PostgreSQL \<Longrightarrow> \<not> identifierByte x"
proof (rule alike_ConsE [OF assms])
  fix v Z assume *: "c = CHR ''!''" "Y = v @ Z" "inert d v"
  obtain x w where v: "v = x # w" using * by (cases v) (auto simp: inert_def)
  show thesis using * v by (intro that(2)) (auto simp: inert_def)
qed (use that(1) in blast)

lemma plain_byte_special [simp]: "plain_byte c \<Longrightarrow> byte c \<noteq> 39 \<and> byte c \<noteq> 34 \<and> byte c \<noteq> 96"
  by (simp add: plain_byte_def)

lemma plain_byte_chars:
  "\<not> plain_byte (CHR ''['')" "\<not> plain_byte (CHR '']'')" "\<not> plain_byte (CHR ''-'')" "\<not> plain_byte (CHR ''#'')"
  "\<not> plain_byte (CHR ''/'')" "\<not> plain_byte (CHR ''*'')" "\<not> plain_byte (CHR ''$'')"
  by (simp_all add: plain_byte_def)

definition dashes :: "Dialect \<Rightarrow> string \<Rightarrow> bool" where
  "dashes d r \<longleftrightarrow> r \<noteq> [] \<and> hd r = CHR ''-'' \<and> (d \<noteq> MySQL \<or> tl r = [] \<or> byte (hd (tl r)) \<le> 32)"

definition starred :: "string \<Rightarrow> bool" where
  "starred r \<longleftrightarrow> r \<noteq> [] \<and> hd r = CHR ''*''"

lemma region_None_iff:
  "region d st c r = None \<longleftrightarrow>
     byte c \<noteq> 39 \<and> byte c \<noteq> 34 \<and> \<not> (byte c = 96 \<and> (d = Legacy \<or> d = MySQL \<or> d = SQLite)) \<and>
     \<not> (c = CHR ''['' \<and> (d = Legacy \<or> d = SQLite)) \<and>
     \<not> (c = CHR ''-'' \<and> dashes d r) \<and> \<not> (c = CHR ''#'' \<and> (d = Legacy \<or> d = MySQL)) \<and> \<not> (c = CHR ''/'' \<and> starred r) \<and>
     (c = CHR ''$'' \<and> (d = Legacy \<or> d = PostgreSQL \<and> \<not> snd st) \<longrightarrow> dollarTag (c # r) = None)"
  unfolding region_def dashes_def [symmetric] starred_def [symmetric] by (cases d) (simp_all split: option.split)

lemma region_plain: "plain_byte c \<Longrightarrow> region d st c r = None"
  unfolding region_None_iff using plain_byte_special [of c] plain_byte_chars by blast

lemma region_context: "d \<noteq> PostgreSQL \<or> st = st' \<Longrightarrow> region d st c r = region d st' c r"
  by (cases d) (simp_all add: region_def)

section \<open>Code stays code\<close>

lemma tag_identifier: "tag_byte c \<Longrightarrow> identifierByte c"
  by (auto simp: tag_byte_def identifierByte_def)

lemma alike_tag:
  assumes "alike d X Y" "d = Legacy \<or> d = PostgreSQL"
  shows "takeWhile tag_byte Y = takeWhile tag_byte X \<and>
    (dropWhile tag_byte Y \<noteq> [] \<and> hd (dropWhile tag_byte Y) = CHR ''$'') = (dropWhile tag_byte X \<noteq> [] \<and> hd (dropWhile tag_byte X) = CHR ''$'')"
  using assms(1)
proof induction
  case (Token v X Y)
  then obtain x w where v: "v = x # w" "plain_byte x" "\<not> identifierByte x" using assms(2) by (cases v) (auto simp: inert_def)
  then have "\<not> tag_byte x" "x \<noteq> CHR ''$''" using tag_identifier plain_byte_chars by blast+
  with v show ?case by simp
qed auto

lemma dollarTag_alike:
  "alike d X Y \<Longrightarrow> d = Legacy \<or> d = PostgreSQL \<Longrightarrow> dollarTag (c # X) = None \<Longrightarrow> dollarTag (c # Y) = None"
  using alike_tag [of d X Y] by (auto simp: dollarTag_def Let_def split: if_splits)

lemma region_None_alike:
  assumes "region d st c X = None" "alike d X Y"
  shows "region d st c Y = None"
proof -
  have third: "tl X = [] \<or> byte (hd (tl X)) \<le> 32" if "X = CHR ''-'' # X'" "alike d X' Z" "Z = [] \<or> byte (hd Z) \<le> 32" for X' Z
    using that by (cases X') (auto elim!: alike_Cons_cases)
  have dash: "dashes d X" if "dashes d Y"
  proof (cases X)
    case (Cons x X')
    with assms(2) have "alike d (x # X') Y" by simp
    then show ?thesis by (rule alike_Cons_cases) (use that plain_byte_chars third Cons in \<open>auto simp: dashes_def\<close>)
  qed (use assms(2) that in \<open>auto simp: dashes_def\<close>)
  have star: "starred X" if "starred Y"
    using that assms(2) plain_byte_chars by (cases X) (auto simp: starred_def elim!: alike_Cons_cases)
  from assms(1) show ?thesis
    unfolding region_None_iff using dash star dollarTag_alike [OF assms(2), of c] by meson
qed


section \<open>Protected regions stay as they are\<close>

lemma alike_head:
  assumes "alike d X Y" "x \<noteq> CHR ''!''" "\<not> plain_byte x"
  shows "(Y \<noteq> [] \<and> hd Y = x) = (X \<noteq> [] \<and> hd X = x)"
  using assms by (cases X) (auto elim!: alike_Cons_cases)

lemma alike_newline:
  assumes "alike d X Y" "X = [] \<or> is_newline (hd X)"
  shows "Y = [] \<or> is_newline (hd Y)"
  using assms by (cases X) (auto elim!: alike_Cons_cases simp: is_newline_def)

lemma quoted_len_pos: "s \<noteq> [] \<Longrightarrow> 0 < quoted_len q b s"
  by (cases "(q, b, s)" rule: quoted_len.cases) auto

lemma block_len_pos: "s \<noteq> [] \<Longrightarrow> 0 < block_len b k s"
  by (cases "(b, k, s)" rule: block_len.cases) auto

lemma quoted_len_alike:
  "quoted_len q b (Q @ X) = length Q \<Longrightarrow> alike d X Y \<Longrightarrow> q \<noteq> CHR ''!'' \<Longrightarrow> \<not> plain_byte q \<Longrightarrow> quoted_len q b (Q @ Y) = length Q"
proof (induction q b Q rule: quoted_len.induct)
  case (1 q b)
  then have "X = []" using quoted_len_pos [of X q b] by (cases X) auto
  with 1 show ?case by auto
next
  case (2 q b c)
  show ?case
  proof (cases X)
    case (Cons x X')
    with "2.prems" quoted_len_pos [of X q b] have c: "byte c \<noteq> 92" "c = q" "x \<noteq> q" by (auto split: if_splits)
    then have "\<not> (Y \<noteq> [] \<and> hd Y = q)" using alike_head [OF "2.prems"(2,3,4)] Cons by simp
    with c show ?thesis by (cases Y) auto
  qed (use 2 in auto)
next
  case (3 q b c x r)
  then show ?case by (auto split: if_splits)
qed

lemma block_len_alike:
  "block_len b k (Q @ X) = length Q \<Longrightarrow> alike d X Y \<Longrightarrow> block_len b k (Q @ Y) = length Q"
proof (induction b k Q rule: block_len.induct)
  case (1 b k)
  then have "X = []" using block_len_pos [of X b k] by (cases X) auto
  with 1 show ?case by auto
next
  case (2 b k c)
  show ?case
  proof (cases X)
    case (Cons x X')
    with "2.prems" block_len_pos [of X b k] show ?thesis by (auto split: if_splits)
  qed (use 2 in auto)
next
  case (3 b k c x r)
  then show ?case by (auto split: if_splits)
qed

lemma index_byte_prefix:
  "index_byte x (Q @ X) = Some e \<Longrightarrow> Suc e = length Q \<Longrightarrow> index_byte x (Q @ Y) = Some e"
  by (induction Q arbitrary: e) (auto split: if_splits simp del: index_byte_None)

lemma strings_Index_prefix:
  "strings_Index (Q @ X) t = Some idx \<Longrightarrow> idx + length t \<le> length Q \<Longrightarrow> strings_Index (Q @ Y) t = Some idx"
proof (induction Q arbitrary: idx)
  case Nil
  then show ?case by (subst strings_Index.simps) auto
next
  case (Cons c Q)
  show ?case
  proof (cases "take (length t) (c # Q @ X) = t")
    case True
    with Cons.prems have "idx = 0" using strings_Index.simps [of "c # Q @ X" t] by simp
    with Cons.prems True have "take (length t) (c # Q @ Y) = t"
      by (metis append_Cons append_Nil2 add_0 diff_is_0_eq take_0 take_append)
    with \<open>idx = 0\<close> show ?thesis by (subst strings_Index.simps) simp
  next
    case False
    with Cons.prems obtain j where j: "idx = Suc j" "strings_Index (Q @ X) t = Some j"
      using strings_Index.simps [of "c # Q @ X" t] by auto
    with Cons.IH [of j] Cons.prems have "strings_Index (Q @ Y) t = Some j" by simp
    moreover from False j Cons.prems have "take (length t) (c # Q @ Y) \<noteq> t"
      by (metis append_Cons append_Nil2 diff_is_0_eq take_0 take_append add_leD2)
    ultimately show ?thesis using j by (subst strings_Index.simps) simp
  qed
qed


lemma takeWhile_alike:
  assumes "length (takeWhile (\<lambda>x. \<not> is_newline x) (Q @ X)) = length Q" "alike d X Y"
  shows "length (takeWhile (\<lambda>x. \<not> is_newline x) (Q @ Y)) = length Q \<and> (X = [] \<or> is_newline (hd X))"
proof -
  have "takeWhile (\<lambda>x. \<not> is_newline x) (Q @ X) = Q"
    by (metis append_eq_conv_conj assms(1) takeWhile_eq_take)
  then have Q: "list_all (\<lambda>x. \<not> is_newline x) Q" by (metis list_all_iff set_takeWhileD)
  then have "takeWhile (\<lambda>x. \<not> is_newline x) (Q @ Z) = Q @ takeWhile (\<lambda>x. \<not> is_newline x) Z" for Z
    by (simp add: list_all_iff)
  with assms(1) have "takeWhile (\<lambda>x. \<not> is_newline x) X = []" by simp
  then have X: "X = [] \<or> is_newline (hd X)" by (cases X) (auto split: if_splits)
  with takeWhile_stop [OF Q, of Y] alike_newline [OF assms(2)] show ?thesis by simp
qed

lemma dollar_alike:
  assumes "dollarTag (c # Q @ X) = Some t" "alike d X Y"
    and "(case strings_Index (drop (length t) (c # Q @ X)) t of Some idx \<Rightarrow> length t + idx + length t | None \<Rightarrow> 1 + length (Q @ X)) = Suc (length Q)"
  shows "dollarTag (c # Q @ Y) = Some t \<and>
    (case strings_Index (drop (length t) (c # Q @ Y)) t of Some idx \<Rightarrow> length t + idx + length t | None \<Rightarrow> 1 + length (Q @ Y)) = Suc (length Q)"
proof (cases "strings_Index (drop (length t) (c # Q @ X)) t")
  case None
  with assms(3) have "X = []" by simp
  with assms show ?thesis by auto
next
  case (Some idx)
  obtain tag u where tag: "c # Q @ X = CHR ''$'' # tag @ CHR ''$'' # u" "t = CHR ''$'' # tag @ ''$''"
    "list_all tag_byte tag" "tag = [] \<or> \<not> is_digit (hd tag)"
    by (rule dollarTag_Some [OF assms(1)]) blast
  from Some assms(3) have len: "length t + idx + length t = Suc (length Q)" by simp
  then have "length tag < length Q" using tag(2) by simp
  with tag(1) obtain w where w: "Q = tag @ CHR ''$'' # w" "u = w @ X"
    by (cases "drop (length tag) Q") (auto simp: append_eq_append_conv2)
  then have "dollarTag (c # Q @ Y) = Some t" using tag dollarTag_eq [of tag "w @ Y"] by simp
  moreover have "strings_Index (w @ Y) t = Some idx"
  proof (rule strings_Index_prefix)
    have "drop (length t) (c # Q @ X) = w @ X" using tag(2) w by simp
    with Some show "strings_Index (w @ X) t = Some idx" by simp
    show "idx + length t \<le> length w" using len tag(2) w by simp
  qed
  ultimately show ?thesis using len tag w by simp
qed

lemma region_chars:
  "byte c = 39 \<Longrightarrow> region d st c r = Some (StringLiteral, Suc (quoted_len c (d = Legacy \<or> d = MySQL \<or> d = PostgreSQL \<and> fst st) r))"
  "byte c = 34 \<Longrightarrow> region d st c r = Some (QuotedIdentifier, Suc (quoted_len c (d = Legacy \<or> d = MySQL) r))"
  "byte c = 96 \<Longrightarrow> region d st c r =
     (if d = Legacy \<or> d = MySQL \<or> d = SQLite then Some (QuotedIdentifier, Suc (quoted_len c (d = Legacy) r)) else None)"
  "region d st (CHR ''['') r = (if d = Legacy then Some (QuotedIdentifier, Suc (quoted_len (CHR '']'') False r))
     else if d = SQLite then Some (QuotedIdentifier, case index_byte (CHR '']'') r of Some e \<Rightarrow> 2 + e | None \<Rightarrow> 1 + length r) else None)"
  "region d st (CHR ''-'') r = (if dashes d r then Some (Comment, Suc (length (takeWhile (\<lambda>x. \<not> is_newline x) r))) else None)"
  "region d st (CHR ''#'') r =
     (if d = Legacy \<or> d = MySQL then Some (Comment, Suc (length (takeWhile (\<lambda>x. \<not> is_newline x) r))) else None)"
  "region d st (CHR ''/'') r = (if starred r then Some (Comment, 2 + block_len (d = Legacy \<or> d = PostgreSQL) 1 (tl r)) else None)"
  "region d st (CHR ''$'') r = (if d = Legacy \<or> d = PostgreSQL \<and> \<not> snd st then (case dollarTag (CHR ''$'' # r) of
          None \<Rightarrow> None
        | Some open \<Rightarrow> Some (DollarQuoted, case strings_Index (drop (length open) (CHR ''$'' # r)) open of
              Some idx \<Rightarrow> length open + idx + length open
            | None \<Rightarrow> 1 + length r)) else None)"
  by (simp_all add: region_def dashes_def starred_def eq_char_iff [of c] split: option.split)

lemma dashes_alike:
  assumes "dashes d (Q @ X)" "length (takeWhile (\<lambda>x. \<not> is_newline x) (Q @ X)) = length Q" "alike d X Y"
  shows "dashes d (Q @ Y)"
proof (cases Q)
  case Nil
  with assms(1,2) show ?thesis by (cases X) (auto simp: dashes_def is_newline_def)
next
  case (Cons x Q')
  show ?thesis
  proof (cases Q')
    case Nil
    from takeWhile_alike [OF assms(2,3)] have "X = [] \<or> is_newline (hd X)" by simp
    with alike_newline [OF assms(3)] assms(1) Cons Nil show ?thesis by (auto simp: dashes_def is_newline_def)
  qed (use assms(1) Cons in \<open>simp add: dashes_def\<close>)
qed

lemma region_Some_alike:
  assumes "region d st c (Q @ X) = Some (k, Suc (length Q))" "alike d X Y"
  shows "region d st c (Q @ Y) = Some (k, Suc (length Q))"
proof -
  have q: "quoted_len q b (Q @ Y) = length Q"
    if "quoted_len q b (Q @ X) = length Q" "byte q = 39 \<or> byte q = 34 \<or> byte q = 96 \<or> byte q = 93" for q b
  proof (rule quoted_len_alike [OF that(1) assms(2)])
    from that(2) show "\<not> plain_byte q" unfolding plain_byte_def by (elim disjE) simp_all
    from that(2) show "q \<noteq> CHR ''!''" by (intro notI) simp
  qed
  have some: "region d st c (Q @ X) \<noteq> None" using assms(1) by simp
  consider "byte c = 39" | "byte c = 34" | "byte c = 96" | "c = CHR ''[''" | "c = CHR ''-'' \<or> c = CHR ''#''" | "c = CHR ''/''" | "c = CHR ''$''"
    using some unfolding region_None_iff by blast
  then show ?thesis
  proof cases
    case 4
    note c = this
    show ?thesis
    proof (cases "d = Legacy")
      case False
      show ?thesis
      proof (cases "index_byte (CHR '']'') (Q @ X)")
        case None
        with assms(1) c False have "X = []" by (simp add: region_chars split: if_splits del: index_byte_None)
        with assms show ?thesis by auto
      next
        case (Some e)
        with index_byte_prefix [OF this, of Y] assms(1) c False show ?thesis by (simp add: region_chars split: if_splits del: index_byte_None)
      qed
    qed (use assms(1) q c in \<open>simp add: region_chars\<close>)
  next
    case 5
    with assms(1) have t: "length (takeWhile (\<lambda>x. \<not> is_newline x) (Q @ X)) = length Q" by (auto simp: region_chars split: if_splits)
    with 5 takeWhile_alike [OF t assms(2)] dashes_alike [OF _ t assms(2)] assms(1) show ?thesis by (auto simp: region_chars split: if_splits)
  next
    case 6
    with assms(1) have st: "starred (Q @ X)" and l: "Suc (block_len (d = Legacy \<or> d = PostgreSQL) 1 (tl (Q @ X))) = length Q"
      by (auto simp: region_chars split: if_splits)
    then obtain Q' where Q: "Q = CHR ''*'' # Q'" by (cases Q) (auto simp: starred_def)
    with block_len_alike [OF _ assms(2), of "d = Legacy \<or> d = PostgreSQL" 1 Q'] l assms(1) 6 st show ?thesis
      by (auto simp: region_chars starred_def)
  next
    case 7
    from assms(1) 7 obtain t where "dollarTag (c # Q @ X) = Some t" by (auto simp: region_chars split: if_splits option.splits)
    with assms(1) 7 dollar_alike [OF this assms(2)] show ?thesis by (auto simp: region_chars split: if_splits)
  qed (use assms(1) q in \<open>auto simp: region_chars split: if_splits\<close>)
qed


section \<open>Substitution keeps the regions\<close>

primrec code_run :: "Dialect \<Rightarrow> bool \<times> bool \<Rightarrow> string \<Rightarrow> string \<Rightarrow> bool" where
  "code_run d st [] R \<longleftrightarrow> True"
| "code_run d st (c # T) R \<longleftrightarrow> region d st c (T @ R) = None \<and> code_run d (ctx_step c st) T R"

lemma code_run_append: "code_run d st (S @ T) R \<longleftrightarrow> code_run d st S (T @ R) \<and> code_run d (fold ctx_step S st) T R"
  by (induction S arbitrary: st) auto

lemma pieces_code_run: "code_run d st T R \<Longrightarrow> pieces d st acc (T @ R) = pieces d (fold ctx_step T st) (acc @ T) R"
  by (induction T arbitrary: st acc) auto

lemma code_run_split:
  "\<exists>T R. s = T @ R \<and> code_run d st T R \<and> (case R of [] \<Rightarrow> True | c # r \<Rightarrow> region d (fold ctx_step T st) c r \<noteq> None)"
proof (induction s arbitrary: st)
  case (Cons c r)
  show ?case
  proof (cases "region d st c r")
    case None
    from Cons.IH [of "ctx_step c st"] obtain T R where "r = T @ R" "code_run d (ctx_step c st) T R"
      "case R of [] \<Rightarrow> True | c' # r' \<Rightarrow> region d (fold ctx_step T (ctx_step c st)) c' r' \<noteq> None" by blast
    with None have "c # r = (c # T) @ R \<and> code_run d st (c # T) R \<and>
        (case R of [] \<Rightarrow> True | c' # r' \<Rightarrow> region d (fold ctx_step (c # T) st) c' r' \<noteq> None)" by (simp cong: list.case_cong)
    then show ?thesis by blast
  next
    case (Some kn)
    then show ?thesis by (rule_tac exI [where x = "[]"]) simp
  qed
qed simp

definition same_context :: "Dialect \<Rightarrow> bool \<times> bool \<Rightarrow> bool \<times> bool \<Rightarrow> bool" where
  "same_context d st st' \<longleftrightarrow> d \<noteq> PostgreSQL \<or> st = st'"

lemma same_context_fold: "same_context d st st' \<Longrightarrow> same_context d (fold ctx_step s st) (fold ctx_step s st')"
  by (auto simp: same_context_def)

lemma code_run_plain: "list_all plain_byte v \<Longrightarrow> code_run d st v R"
  by (induction v arbitrary: st) (auto simp: region_plain)

lemma code_run_alike:
  "code_run d st T R \<Longrightarrow> alike d R R' \<Longrightarrow> same_context d st st' \<Longrightarrow> code_run d st' T R'"
proof (induction T arbitrary: st st')
  case (Cons c T)
  then have "region d st c (T @ R') = None" using region_None_alike [of d st c "T @ R" "T @ R'"] alike_append by auto
  then have "region d st' c (T @ R') = None" using region_context [of d st st'] Cons.prems(3) by (simp add: same_context_def)
  with Cons.IH [of "ctx_step c st" "ctx_step c st'"] Cons.prems show ?case using same_context_fold [of d st st' "[c]"] by simp
qed simp

lemma fold_ctx_last: "s \<noteq> [] \<Longrightarrow> \<not> identifierByte (last s) \<Longrightarrow> fold ctx_step s st = (False, False)"
  by (cases s rule: rev_cases)
    (auto simp: ctx_step_def identifierByte_def is_ascii_letter_def)

lemma match_token_Some:
  assumes "match_token s = Some n"
  obtains name r where "s = CHR ''!'' # name @ CHR ''!'' # r" "n = length name + 2" "name \<noteq> []" "list_all token_byte name"
proof (cases s)
  case (Cons c cs)
  let ?name = "takeWhile token_byte cs" and ?rest = "dropWhile token_byte cs"
  from assms Cons have *: "c = CHR ''!''" "?name \<noteq> []" "?rest \<noteq> []" "hd ?rest = CHR ''!''" "n = length ?name + 2"
    by (simp_all add: match_token_def Let_def split: if_splits)
  show ?thesis
  proof (rule that)
    show "s = CHR ''!'' # ?name @ CHR ''!'' # tl ?rest"
      using * Cons by (metis list.collapse takeWhile_dropWhile_id)
  qed (use * in \<open>auto simp: list_all_iff dest: set_takeWhileD\<close>)
qed (use assms in \<open>simp add: match_token_def\<close>)

lemma rewrite_code_alike:
  assumes f: "\<And>t. fn t = t \<or> inert d (fn t)"
  shows "code_run d st T R \<Longrightarrow> alike d R R' \<Longrightarrow> same_context d st st' \<Longrightarrow>
    code_run d st' (rewrite_code fn T) R' \<and> alike d (T @ R) (rewrite_code fn T @ R') \<and>
    same_context d (fold ctx_step T st) (fold ctx_step (rewrite_code fn T) st')"
proof (induction "length T" arbitrary: T st st' rule: less_induct)
  case less
  show ?case
  proof (cases T)
    case (Cons c cs)
    have copy: ?thesis if "T = S @ W" "S \<noteq> []" "rewrite_code fn T = S @ rewrite_code fn W" for S W
    proof -
      from less.prems that have cr: "code_run d st S (W @ R)" "code_run d (fold ctx_step S st) W R" by (simp_all add: code_run_append)
      from less.hyps [OF _ cr(2) less.prems(2) same_context_fold [OF less.prems(3), of S]] that(1,2)
      have IH: "code_run d (fold ctx_step S st') (rewrite_code fn W) R'" "alike d (W @ R) (rewrite_code fn W @ R')"
        "same_context d (fold ctx_step W (fold ctx_step S st)) (fold ctx_step (rewrite_code fn W) (fold ctx_step S st'))" by auto
      from code_run_alike [OF cr(1) IH(2) less.prems(3)] IH that show ?thesis by (simp add: code_run_append alike_append)
    qed
    show ?thesis
    proof (cases "match_token T")
      case None
      with copy [of "[c]" cs] Cons show ?thesis by simp
    next
      case (Some n)
      let ?tk = "take n T" and ?W = "drop n T"
      have rw: "rewrite_code fn T = fn ?tk @ rewrite_code fn ?W" using Some Cons by simp
      obtain name r where tk: "T = CHR ''!'' # name @ CHR ''!'' # r" "n = length name + 2" by (rule match_token_Some [OF Some]) blast
      show ?thesis
      proof (cases "fn ?tk = ?tk")
        case True
        with copy [of ?tk ?W] rw tk show ?thesis by simp
      next
        case False
        with f have v: "inert d (fn ?tk)" by blast
        have "?tk = CHR ''!'' # name @ ''!''" using tk by simp
        then have tkl: "fold ctx_step ?tk st = (False, False)" by (simp add: ctx_step_def identifierByte_def is_ascii_letter_def is_digit_def)
        from v have vl: "same_context d (False, False) (fold ctx_step (fn ?tk) st')" by (auto simp: same_context_def inert_def fold_ctx_last)
        have "T = ?tk @ ?W" by simp
        with less.prems(1) have "code_run d (False, False) ?W R" by (metis code_run_append tkl)
        from less.hyps [OF _ this less.prems(2) vl] tk(1,2)
        have IH: "code_run d (fold ctx_step (fn ?tk) st') (rewrite_code fn ?W) R'"
          "same_context d (fold ctx_step ?W (False, False)) (fold ctx_step (rewrite_code fn ?W) (fold ctx_step (fn ?tk) st'))" by auto
        have "alike d (T @ R) (fn ?tk @ rewrite_code fn ?W @ R')" using tk(1) alike.Token [OF v] by simp
        moreover have "code_run d st' (fn ?tk) (rewrite_code fn ?W @ R')" using v by (simp add: inert_def code_run_plain)
        moreover have "fold ctx_step T st = fold ctx_step ?W (False, False)" by (metis append_take_drop_id comp_apply fold_append tkl)
        ultimately show ?thesis using IH rw by (simp add: code_run_append)
      qed
    qed
  qed (use less.prems in simp)
qed


lemma rewrite_code_Nil_iff:
  assumes "\<And>t. fn t = t \<or> inert d (fn t)"
  shows "rewrite_code fn T = [] \<longleftrightarrow> T = []"
proof (cases T)
  case (Cons c cs)
  have "fn (take n T) \<noteq> []" if "match_token T = Some n" for n
    using assms [of "take n T"] match_token_bounds [OF that] Cons by (cases n) (auto simp: inert_def)
  with Cons show ?thesis by (auto split: option.split)
qed simp

lemma pieces_rewrite:
  assumes f: "\<And>t. fn t = t \<or> inert d (fn t)"
  shows "same_context d st st' \<Longrightarrow>
    let out = concat (map (snd \<circ> rewrite_piece fn) (pieces d st [] s)) in
    pieces d st' [] out = map (rewrite_piece fn) (pieces d st [] s) \<and> alike d s out"
proof (induction "length s" arbitrary: s st st' rule: less_induct)
  case less
  obtain T R where TR: "s = T @ R" "code_run d st T R"
    "case R of [] \<Rightarrow> True | c # r \<Rightarrow> region d (fold ctx_step T st) c r \<noteq> None"
    using code_run_split [of s d st] by blast
  let ?T' = "rewrite_code fn T" and ?st = "fold ctx_step T st"
  have p: "pieces d st [] s = pieces d ?st T R" using pieces_code_run [OF TR(2), of "[]"] TR(1) by simp
  have flush: "map (rewrite_piece fn) (flush T) = flush ?T'" "concat (map (snd \<circ> rewrite_piece fn) (flush T)) = ?T'"
    using rewrite_code_Nil_iff [OF f, of T] by (auto simp: flush_def rewrite_piece_def)
  show ?case
  proof (cases R)
    case Nil
    from rewrite_code_alike [OF f, of st T "[]" "[]" st'] TR less.prems Nil
    have "code_run d st' ?T' []" "alike d T ?T'" by (auto intro: alike.Nil)
    with pieces_code_run [of d st' ?T' "[]" "[]"] flush p Nil TR(1) show ?thesis by (simp add: Let_def)
  next
    case (Cons c r)
    then obtain k n where reg: "region d ?st c r = Some (k, n)" using TR(3) by auto
    from region_bounds [OF reg] have n: "0 < n" "n \<le> length R" "k \<noteq> Code" using Cons by auto
    define Q X where "Q = take (n - 1) r" and "X = drop n R"
    have QX: "R = c # Q @ X" "take n R = c # Q" "length Q = n - 1" using n Cons by (auto simp: Q_def X_def take_Cons' drop_Cons')
    let ?st2 = "fold ctx_step (c # Q) ?st"
    let ?X' = "concat (map (snd \<circ> rewrite_piece fn) (pieces d ?st2 [] X))"
    have p2: "pieces d st [] s = flush T @ (k, c # Q) # pieces d ?st2 [] X"
      unfolding p Cons using reg QX Cons by (simp add: X_def)
    define st2' where "st2' = fold ctx_step (c # Q) (fold ctx_step ?T' st')"
    have IH: "pieces d (fold ctx_step (c # Q) st3) [] ?X' = map (rewrite_piece fn) (pieces d ?st2 [] X)" "alike d X ?X'"
      if "same_context d ?st st3" for st3
      using less.hyps [of X ?st2 "fold ctx_step (c # Q) st3"] same_context_fold [OF that, of "c # Q"] TR(1) QX by (auto simp: Let_def)
    from IH(2) [of ?st] have al: "alike d R (c # Q @ ?X')" by (simp add: QX(1) alike.Cons alike_append same_context_def)
    from rewrite_code_alike [OF f TR(2) al less.prems] TR(1)
    have run: "code_run d st' ?T' (c # Q @ ?X')" "alike d s (?T' @ c # Q @ ?X')" "same_context d ?st (fold ctx_step ?T' st')" by simp_all
    have "region d (fold ctx_step ?T' st') c (Q @ ?X') = Some (k, n)"
    proof -
      have "region d ?st c (Q @ X) = Some (k, Suc (length Q))" using reg QX Cons n by simp
      from region_Some_alike [OF this IH(2) [of ?st]] have "region d ?st c (Q @ ?X') = Some (k, n)" using QX n by (simp add: same_context_def)
      with region_context [of d ?st "fold ctx_step ?T' st'"] run(3) show ?thesis by (simp add: same_context_def)
    qed
    then have "pieces d st' [] (?T' @ c # Q @ ?X') = flush ?T' @ (k, c # Q) # map (rewrite_piece fn) (pieces d ?st2 [] X)"
      using pieces_code_run [OF run(1), of "[]"] IH(1) [OF run(3)] QX n by (cases n) simp_all
    with run(2) n(3) show ?thesis unfolding p2 by (simp add: Let_def flush rewrite_piece_def)
  qed
qed


text \<open>Tokens of a rewritten code text: a replacement that breaks names cannot form new tokens.\<close>

definition breaking :: "string \<Rightarrow> bool" where
  "breaking v \<longleftrightarrow> CHR ''!'' \<notin> set v \<and> list_ex (\<lambda>c. \<not> token_byte c) v"

lemma match_token_head: "c \<noteq> CHR ''!'' \<Longrightarrow> match_token (c # s) = None"
  by (simp add: match_token_def Let_def)

lemma code_tokens_skip: "CHR ''!'' \<notin> set v \<Longrightarrow> code_tokens (v @ s) = code_tokens s"
  by (induction v) (auto simp: match_token_head)

lemma token_byte_bang [simp]: "\<not> token_byte (CHR ''!'')"
  by (simp add: token_byte_def)

lemma match_token_eq:
  "name \<noteq> [] \<Longrightarrow> list_all token_byte name \<Longrightarrow> match_token (CHR ''!'' # name @ CHR ''!'' # r) = Some (length name + 2)"
  by (simp add: match_token_def takeWhile_stop dropWhile_stop)

lemma rewrite_code_name:
  "list_all token_byte name \<Longrightarrow> rewrite_code fn (name @ r) = name @ rewrite_code fn r"
proof (induction name)
  case (Cons c cs)
  then have "c \<noteq> CHR ''!''" by auto
  with Cons show ?case by (simp add: match_token_head)
qed simp

lemma match_token_stop: "list_all token_byte a \<Longrightarrow> \<not> token_byte y \<Longrightarrow> y \<noteq> CHR ''!'' \<Longrightarrow> match_token (CHR ''!'' # a @ y # r) = None"
  by (simp add: match_token_def takeWhile_stop dropWhile_stop)

lemma match_token_empty: "match_token (CHR ''!'' # CHR ''!'' # r) = None"
  by (simp add: match_token_def)

lemma rewrite_code_bang:
  "\<exists>u. rewrite_code (\<lambda>t. if t = tok then v else t) (CHR ''!'' # r) = v @ u \<or>
       rewrite_code (\<lambda>t. if t = tok then v else t) (CHR ''!'' # r) = CHR ''!'' # u"
proof (cases "match_token (CHR ''!'' # r)")
  case (Some m)
  with match_token_bounds [OF this] obtain k where "m = Suc k" by (cases m) auto
  with Some show ?thesis by (cases "take m (CHR ''!'' # r) = tok") auto
qed auto

lemma match_token_rewrite:
  assumes "match_token (c # cs) = None" "breaking v"
  shows "match_token (c # rewrite_code (\<lambda>t. if t = tok then v else t) cs) = None"
proof (cases "c = CHR ''!''")
  case True
  let ?fn = "\<lambda>t. if t = tok then v else t"
  let ?name = "takeWhile token_byte cs" and ?rest = "dropWhile token_byte cs"
  have name: "list_all token_byte ?name" by (auto simp: list_all_iff dest: set_takeWhileD)
  have rw: "rewrite_code ?fn cs = ?name @ rewrite_code ?fn ?rest" using rewrite_code_name [OF name, of ?fn ?rest] by simp
  show ?thesis
  proof (cases ?rest)
    case Nil
    with rw name True show ?thesis by (simp add: match_token_def list_all_iff)
  next
    case (Cons x r)
    then have x: "\<not> token_byte x" by (metis hd_dropWhile list.distinct(1) list.sel(1))
    show ?thesis
    proof (cases "x = CHR ''!''")
      case False
      with Cons have "rewrite_code ?fn ?rest = x # rewrite_code ?fn r" by (simp add: match_token_head)
      with rw True match_token_stop [OF name x False] show ?thesis by simp
    next
      case bang: True
      have Nil: "?name = []"
      proof (rule ccontr)
        assume "?name \<noteq> []"
        with match_token_eq [OF this name, of r] assms(1) True Cons bang show False by (metis option.distinct(1) takeWhile_dropWhile_id)
      qed
      obtain a y b where v: "v = a @ y # b" "list_all token_byte a" "\<not> token_byte y" "y \<noteq> CHR ''!''"
      proof -
        have "\<exists>y\<in>set v. \<not> token_byte y" using assms(2) by (auto simp: breaking_def list_ex_iff)
        from split_list_first_prop [OF this] that assms(2) show ?thesis by (auto simp: breaking_def list_all_iff)
      qed
      obtain u where "rewrite_code ?fn ?rest = v @ u \<or> rewrite_code ?fn ?rest = CHR ''!'' # u"
        using rewrite_code_bang [of tok v r] Cons bang by auto
      with rw Nil True match_token_empty match_token_stop [OF v(2-4)] v(1) show ?thesis by auto
    qed
  qed
qed (rule match_token_head)

lemma code_tokens_rewrite:
  assumes "breaking v"
  shows "code_tokens (rewrite_code (\<lambda>t. if t = tok then v else t) T) = filter (\<lambda>t. t \<noteq> tok) (code_tokens T)"
proof (induction "length T" arbitrary: T rule: less_induct)
  case less
  let ?fn = "\<lambda>t. if t = tok then v else t"
  show ?case
  proof (cases T)
    case (Cons c cs)
    show ?thesis
    proof (cases "match_token T")
      case (Some n)
      obtain name r where tk: "T = CHR ''!'' # name @ CHR ''!'' # r" "n = length name + 2" "name \<noteq> []" "list_all token_byte name"
        by (rule match_token_Some [OF Some]) blast
      have IH: "code_tokens (rewrite_code ?fn (drop n T)) = filter (\<lambda>t. t \<noteq> tok) (code_tokens (drop n T))"
        by (rule less) (use tk in simp)
      have keep: "code_tokens (take n T @ W) = take n T # code_tokens W" for W
        using match_token_eq [OF tk(3,4), of W] tk(1,2) by simp
      show ?thesis using IH keep [of "rewrite_code ?fn (drop n T)"] keep [of "drop n T"] Some Cons assms
        by (auto simp: code_tokens_skip breaking_def)
    next
      case None
      have IH: "code_tokens (rewrite_code ?fn cs) = filter (\<lambda>t. t \<noteq> tok) (code_tokens cs)"
        by (rule less) (use Cons in simp)
      have "match_token (c # rewrite_code ?fn cs) = None" using match_token_rewrite [OF _ assms] None Cons by simp
      with IH None Cons show ?thesis by simp
    qed
  qed simp
qed


lemma FindAll_texts:
  "go_slice sql (a + i) (a + i + length s) = s \<Longrightarrow> a + i + length s \<le> length sql \<Longrightarrow>
   map (\<lambda>loc. go_slice sql (a + fst loc) (a + snd loc)) (FindAllStringIndex s i) = code_tokens s"
proof (induction s i rule: FindAllStringIndex.induct)
  case (1 s i)
  show ?case
  proof (cases s)
    case Nil
    then show ?thesis by (subst FindAllStringIndex.simps) simp
  next
    case (Cons c cs)
    show ?thesis
    proof (cases "match_token s")
      case None
      from "1.prems" Cons have "go_slice sql (a + (i + 1)) (a + (i + 1) + length cs) = cs"
        using go_slice_split [of sql "a + i" "[c]" cs] by simp
      with "1.IH" (1) [OF Cons None] "1.prems" Cons None show ?thesis by (subst FindAllStringIndex.simps) simp
    next
      case (Some n)
      have n: "n \<le> length s" using match_token_bounds [OF Some] by simp
      have sp: "go_slice sql (a + i) (a + i + n) = take n s" "go_slice sql (a + (i + n)) (a + i + length s) = drop n s"
        using go_slice_split [of sql "a + i" "take n s" "drop n s"] "1.prems" n by (simp_all add: add.assoc)
      from "1.IH" (2) [OF Cons Some] sp(2) "1.prems" n
      have "map (\<lambda>loc. go_slice sql (a + fst loc) (a + snd loc)) (FindAllStringIndex (drop n s) (i + n)) = code_tokens (drop n s)" by (simp add: add.assoc)
      with Some Cons sp(1) show ?thesis by (subst FindAllStringIndex.simps) (simp add: add.assoc)
    qed
  qed
qed

definition piece_tokens :: "SqlKind \<times> string \<Rightarrow> string list" where
  "piece_tokens p = (if fst p = Code then code_tokens (snd p) else [])"

lemma segment_tokens_texts:
  "consecutive a gs b \<Longrightarrow> b \<le> length sql \<Longrightarrow>
   map tok_Text (concat (map (seg_tokens sql) gs)) = concat (map (piece_tokens \<circ> seg_piece sql) gs)"
proof (induction gs arbitrary: a)
  case (Cons g gs)
  then have g: "seg_Start g = a" "a \<le> seg_End g" "seg_End g \<le> length sql" by (auto dest: consecutive_le)
  from g have "map (\<lambda>loc. go_slice sql (a + fst loc) (a + snd loc)) (FindAllStringIndex (seg_text sql g) 0) = code_tokens (seg_text sql g)"
    using seg_text_length [of a g sql] by (intro FindAll_texts) (auto simp: seg_text_def)
  with Cons g show ?case by (cases "seg_Kind g = Code") (auto simp: piece_tokens_def [of "(_, _)"] seg_piece_def [of _ g] o_def)
qed simp

lemma CodeTokens_texts: "map tok_Text (CodeTokens d sql) = concat (map piece_tokens (pieces d (False, False) [] sql))"
  using segment_tokens_texts [OF scan_consecutive [of d sql]]
  by (simp add: CodeTokens_seg_tokens scan_pieces [symmetric])

lemma MapTokens_pieces: "MapTokens d sql fn = concat (map (snd \<circ> rewrite_piece fn) (pieces d (False, False) [] sql))"
proof -
  have "snd \<circ> rewrite_piece fn \<circ> seg_piece sql = seg_out fn sql" by (auto simp: rewrite_piece_def seg_piece_def seg_out_def)
  then show ?thesis by (simp add: MapTokens_seg_out scan_pieces [symmetric] del: comp_apply)
qed

text \<open>
  C26. Substituting an inert value for a token is safe. The value is inert when it is not empty, has
  no quote, backquote, bracket, dash, hash, slash, star or dollar byte, starts with a byte above 32
  and, in the Legacy and PostgreSQL dialects, with no identifier byte, and in PostgreSQL ends with
  none; it has no exclamation mark and some byte that cannot occur in a token. Then the resulting
  query has the same protected regions, in the same order and with the same text, the same kinds of
  segments, and the code tokens of the original other than the replaced one. For other values,
  the empty one included, nothing is claimed.
\<close>

theorem inert_substitution:
  assumes "inert d v" "breaking v" and "out = ReplaceToken d sql tok v"
  shows "map (seg_piece out) (filter (Protected \<circ> seg_Kind) (Scan d out)) = map (seg_piece sql) (filter (Protected \<circ> seg_Kind) (Scan d sql)) \<and>
    map seg_Kind (Scan d out) = map seg_Kind (Scan d sql) \<and>
    map tok_Text (CodeTokens d out) = filter (\<lambda>t. t \<noteq> tok) (map tok_Text (CodeTokens d sql))"
proof -
  let ?fn = "\<lambda>t. if t = tok then v else t" and ?ps = "pieces d (False, False) [] sql"
  have out: "pieces d (False, False) [] out = map (rewrite_piece ?fn) ?ps"
    using pieces_rewrite [of ?fn d "(False, False)" "(False, False)" sql] assms
    by (simp add: ReplaceToken_def MapTokens_pieces same_context_def Let_def)
  have prot: "map (seg_piece s) (filter (Protected \<circ> seg_Kind) (Scan d s)) = filter (Protected \<circ> fst) (pieces d (False, False) [] s)" for s
    by (simp add: scan_pieces [symmetric] filter_map o_def seg_piece_def)
  have kinds: "map seg_Kind (Scan d s) = map fst (pieces d (False, False) [] s)" for s
    by (simp add: scan_pieces [symmetric] o_def seg_piece_def)
  have "filter (Protected \<circ> fst) (map (rewrite_piece ?fn) ps) = filter (Protected \<circ> fst) ps" for ps
    by (induction ps) (auto simp: rewrite_piece_def Protected_def)
  moreover have "map fst (map (rewrite_piece ?fn) ps) = map fst ps" for ps by (simp add: rewrite_piece_def)
  moreover have "concat (map piece_tokens (map (rewrite_piece ?fn) ps)) = filter (\<lambda>t. t \<noteq> tok) (concat (map piece_tokens ps))" for ps
    using code_tokens_rewrite [OF assms(2), of tok] by (induction ps) (auto simp: rewrite_piece_def piece_tokens_def)
  ultimately show ?thesis by (simp only: prot kinds CodeTokens_texts out)
qed


text \<open>A query with a token in code, one in a string literal and one in a comment.\<close>

definition sample_sql :: string where
  "sample_sql = ''a && !BBOX! AND l = '' @ [CHR 39] @ ''!BBOX!'' @ [CHR 39] @ '' -- !BBOX!''"

theorem inert_substitution_witness:
  "map tok_Text (CodeTokens PostgreSQL (ReplaceToken PostgreSQL sample_sql ''!BBOX!'' ''(b)'')) = [] \<and>
   map seg_Kind (Scan PostgreSQL (ReplaceToken PostgreSQL sample_sql ''!BBOX!'' ''(b)'')) = [Code, StringLiteral, Code, Comment]"
proof -
  have i: "inert PostgreSQL ''(b)''" "breaking ''(b)''"
    by (simp_all add: inert_def breaking_def plain_byte_def identifierByte_def is_ascii_letter_def is_digit_def token_byte_def tag_byte_def)
  have p: "pieces PostgreSQL (False, False) [] sample_sql =
    [(Code, ''a && !BBOX! AND l = ''), (StringLiteral, [CHR 39] @ ''!BBOX!'' @ [CHR 39]), (Code, '' ''), (Comment, ''-- !BBOX!'')]"
    by (simp add: sample_sql_def region_def flush_def ctx_step_def is_newline_def)
  have k: "map seg_Kind (Scan PostgreSQL sample_sql) = map fst (pieces PostgreSQL (False, False) [] sample_sql)"
    by (simp add: scan_pieces [symmetric] o_def seg_piece_def)
  have "map tok_Text (CodeTokens PostgreSQL sample_sql) = [''!BBOX!'']"
    by (simp add: CodeTokens_texts p piece_tokens_def match_token_def token_byte_def tag_byte_def is_ascii_letter_def is_digit_def)
  with inert_substitution [OF i refl, of sample_sql "''!BBOX!''"] k p show ?thesis by simp
qed

end
