(* ===== verification/Feature_Config.thy ===== *)
theory Feature_Config
  imports Go_Utf8
begin

text \<open>
  The configuration of feature publication and writing, \<^verbatim>\<open>src/config/features.go\<close> and
  \<^verbatim>\<open>src/config/wfs.go\<close>: defaults, validation, and the questions the handlers ask of it.
\<close>

section \<open>The model\<close>

record WriteCollectionConfig =
  wc_ID :: string
  wc_Operations :: "string list"

record FeaturesWriteConfig =
  w_Enabled :: bool
  w_Collections :: "WriteCollectionConfig list"
  w_RequireIfMatch :: bool
  w_AuthMode :: string

record FeatureCollectionConfig =
  fc_ID :: string
  fc_ProviderLayer :: string
  fc_Title :: string
  fc_Description :: string

record FeaturesConfig =
  f_MaxResponseBytes :: "int option"
  f_QueryTimeoutMS :: "int option"
  f_Enabled :: bool
  f_BasePath :: string
  f_DefaultLimit :: "int option"
  f_MaxLimit :: "int option"
  f_Collections :: "FeatureCollectionConfig list"
  f_Write :: FeaturesWriteConfig

record WFSConfig =
  wfs_Enabled :: bool
  wfs_BasePath :: string
  wfs_Versions :: "string list"

datatype config_error =
    ResponseBytesTooSmall
  | TimeoutOutOfRange
  | InvalidBasePath string
  | ReservedBasePath string
  | InvalidCollectionID string
  | InvalidLimits
  | NoCollections
  | DuplicateCollection string
  | InvalidProviderLayer string
  | EmptyBinding string
  | UnknownAuthMode string
  | NotPublished string
  | NoOperations string
  | UnsupportedOperation string string
  | UnsupportedVersion string
  | DuplicateVersion string

definition featureUnreserved :: "char \<Rightarrow> bool" where
  "featureUnreserved c \<longleftrightarrow> 97 \<le> byte c \<and> byte c \<le> 122 \<or> 65 \<le> byte c \<and> byte c \<le> 90 \<or> is_digit c \<or>
     List.member ''-._~'' c"

definition ValidateFeatureCollectionID :: "string \<Rightarrow> config_error + unit" where
  "ValidateFeatureCollectionID i =
     (if i = [] \<or> i = ''.'' \<or> i = ''..'' then Inl (InvalidCollectionID i)
      else if \<not> list_all featureUnreserved i then Inl (InvalidCollectionID i)
      else Inr ())"

definition is_ok :: "'e + 'a \<Rightarrow> bool" where
  "is_ok r = (case r of Inl _ \<Rightarrow> False | Inr _ \<Rightarrow> True)"

definition ValidateFeatureBasePath :: "string \<Rightarrow> config_error + unit" where
  "ValidateFeatureBasePath path =
     (if path = [] \<or> hd path \<noteq> CHR ''/'' \<or> last path = CHR ''/'' then Inl (InvalidBasePath path)
      else
        let segments = split_on (CHR ''/'') (tl path) in
        if \<not> list_all (\<lambda>s. is_ok (ValidateFeatureCollectionID s)) segments then Inl (InvalidBasePath path)
        else if List.member [''maps'', ''capabilities'', ''metrics''] (hd segments) then Inl (ReservedBasePath path)
        else Inr ())"

definition WFS_Resolved :: "WFSConfig \<Rightarrow> WFSConfig" where
  "WFS_Resolved w =
     (let w1 = (if wfs_BasePath w = [] then w\<lparr>wfs_BasePath := ''/wfs''\<rparr> else w);
          w2 = (if wfs_Versions w1 = [] then w1\<lparr>wfs_Versions := [''1.1.0'', ''2.0.0'']\<rparr> else w1)
      in w2\<lparr>wfs_Versions := map TrimSpace (wfs_Versions w2)\<rparr>)"

fun check_versions :: "string list \<Rightarrow> string list \<Rightarrow> config_error + unit" where
  "check_versions seen [] = Inr ()"
| "check_versions seen (v # vs) =
     (let v' = TrimSpace v in
      if \<not> List.member [''1.1.0'', ''2.0.0'', ''2.0.2''] v' then Inl (UnsupportedVersion v')
      else if List.member seen v' then Inl (DuplicateVersion v')
      else check_versions (v' # seen) vs)"

definition WFS_Validate :: "WFSConfig \<Rightarrow> config_error + unit" where
  "WFS_Validate w0 =
     (let w = WFS_Resolved w0 in
      case ValidateFeatureBasePath (wfs_BasePath w) of
        Inl e \<Rightarrow> Inl e
      | Inr _ \<Rightarrow> check_versions [] (wfs_Versions w))"

definition IsProductionAuth :: "FeaturesWriteConfig \<Rightarrow> bool" where
  "IsProductionAuth c \<longleftrightarrow> w_AuthMode c \<noteq> ''dev''"

text \<open>
  \<^verbatim>\<open>strings.ToLower\<close>, compared with the operation names only: no code point outside ASCII has one of
  their letters as its lower case.
\<close>

definition ToLower :: "string \<Rightarrow> string" where
  "ToLower s = map (\<lambda>c. if 65 \<le> byte c \<and> byte c \<le> 90 then char_of (byte c + 32) else c) s"

definition supportedWriteOperations :: "string list" where
  "supportedWriteOperations = [''create'', ''replace'', ''update'', ''delete'']"

fun check_write_collections :: "string list \<Rightarrow> string list \<Rightarrow> WriteCollectionConfig list \<Rightarrow> config_error + unit" where
  "check_write_collections published seen [] = Inr ()"
| "check_write_collections published seen (c # cs) =
     (let i = wc_ID c in
      case ValidateFeatureCollectionID i of
        Inl e \<Rightarrow> Inl e
      | Inr _ \<Rightarrow>
          if List.member seen i then Inl (DuplicateCollection i)
          else if \<not> List.member published i then Inl (NotPublished i)
          else if wc_Operations c = [] then Inl (NoOperations i)
          else (case List.find (\<lambda>x. \<not> List.member supportedWriteOperations (ToLower x)) (wc_Operations c) of
              Some x \<Rightarrow> Inl (UnsupportedOperation i x)
            | None \<Rightarrow> check_write_collections published (i # seen) cs))"

text \<open>\<open>published\<close>: the identifiers of the published collections.\<close>

definition Write_Validate :: "string list \<Rightarrow> FeaturesWriteConfig \<Rightarrow> config_error + unit" where
  "Write_Validate published w =
     (if \<not> List.member [[], ''production'', ''dev''] (w_AuthMode w) then Inl (UnknownAuthMode (w_AuthMode w))
      else check_write_collections published [] (w_Collections w))"

definition AllowsOperation :: "FeaturesWriteConfig \<Rightarrow> string \<Rightarrow> string \<Rightarrow> bool" where
  "AllowsOperation w collection oper \<longleftrightarrow> w_Enabled w \<and>
     list_ex (\<lambda>c. wc_ID c = collection \<and> list_ex (\<lambda>x. ToLower x = ToLower oper) (wc_Operations c)) (w_Collections w)"

definition ProviderLayerName :: "string \<Rightarrow> (string \<times> string) option" where
  "ProviderLayerName s = (case split_on (CHR ''.'') s of [p, l] \<Rightarrow> Some (p, l) | _ \<Rightarrow> None)"

text \<open>The settings after the defaults are filled in.\<close>

definition default_to :: "int \<Rightarrow> int option \<Rightarrow> int option" where
  "default_to d v = (case v of None \<Rightarrow> Some d | Some x \<Rightarrow> Some x)"

definition Features_Resolved :: "FeaturesConfig \<Rightarrow> FeaturesConfig" where
  "Features_Resolved f =
     (if f_BasePath f = [] then f\<lparr>f_BasePath := ''/features''\<rparr> else f)
       \<lparr>f_MaxResponseBytes := default_to 16777216 (f_MaxResponseBytes f), f_QueryTimeoutMS := default_to 30000 (f_QueryTimeoutMS f),
        f_DefaultLimit := default_to 100 (f_DefaultLimit f), f_MaxLimit := default_to 10000 (f_MaxLimit f)\<rparr>"

fun check_collections :: "string list \<Rightarrow> FeatureCollectionConfig list \<Rightarrow> config_error + string list" where
  "check_collections seen [] = Inr seen"
| "check_collections seen (c # cs) =
     (let i = fc_ID c in
      case ValidateFeatureCollectionID i of
        Inl e \<Rightarrow> Inl e
      | Inr _ \<Rightarrow>
          if List.member seen i then Inl (DuplicateCollection i)
          else (case ProviderLayerName (fc_ProviderLayer c) of
              None \<Rightarrow> Inl (InvalidProviderLayer i)
            | Some (name, layer) \<Rightarrow>
                if TrimSpace name = [] \<or> TrimSpace layer = [] then Inl (EmptyBinding i)
                else check_collections (i # seen) cs))"

definition Features_Validate :: "FeaturesConfig \<Rightarrow> config_error + unit" where
  "Features_Validate f0 =
     (let f = Features_Resolved f0;
          responseBytes = the (f_MaxResponseBytes f); timeoutMS = the (f_QueryTimeoutMS f);
          defaultLimit = the (f_DefaultLimit f); maxLimit = the (f_MaxLimit f)
      in if responseBytes < 1024 then Inl ResponseBytesTooSmall
         else if timeoutMS \<le> 0 \<or> timeoutMS > (2 ^ 63 - 1) div 1000000 then Inl TimeoutOutOfRange
         else (case ValidateFeatureBasePath (f_BasePath f) of
           Inl e \<Rightarrow> Inl e
         | Inr _ \<Rightarrow>
             if defaultLimit \<le> 0 \<or> maxLimit \<le> 0 \<or> defaultLimit > maxLimit then Inl InvalidLimits
             else if f_Enabled f \<and> f_Collections f = [] then Inl NoCollections
             else (case check_collections [] (f_Collections f) of
               Inl e \<Rightarrow> Inl e
             | Inr ids \<Rightarrow> Write_Validate ids (f_Write f))))"

section \<open>Accepted configurations\<close>

lemma ValidateFeatureCollectionID_ok [simp]:
  "ValidateFeatureCollectionID i = Inr () \<longleftrightarrow> i \<noteq> [] \<and> i \<noteq> ''.'' \<and> i \<noteq> ''..'' \<and> list_all featureUnreserved i"
  by (auto simp: ValidateFeatureCollectionID_def)

lemma unit_sum_cases: "(case (r :: 'e + unit) of Inl e \<Rightarrow> Inl e | Inr _ \<Rightarrow> k) = Inr x \<longleftrightarrow> r = Inr () \<and> k = Inr x"
  by (cases r) auto

definition writable_ok :: "string list \<Rightarrow> WriteCollectionConfig \<Rightarrow> bool" where
  "writable_ok published c \<longleftrightarrow> ValidateFeatureCollectionID (wc_ID c) = Inr () \<and> wc_ID c \<in> set published \<and> wc_Operations c \<noteq> [] \<and>
     list_all (\<lambda>x. ToLower x \<in> set supportedWriteOperations) (wc_Operations c)"

definition published_ok :: "FeatureCollectionConfig \<Rightarrow> bool" where
  "published_ok c \<longleftrightarrow> ValidateFeatureCollectionID (fc_ID c) = Inr () \<and>
     (case split_on (CHR ''.'') (fc_ProviderLayer c) of [p, l] \<Rightarrow> TrimSpace p \<noteq> [] \<and> TrimSpace l \<noteq> [] | _ \<Rightarrow> False)"

lemma find_case:
  "(case List.find P xs of None \<Rightarrow> k | Some x \<Rightarrow> Inl (f x)) = Inr y \<longleftrightarrow> list_all (\<lambda>x. \<not> P x) xs \<and> k = Inr y"
  by (induction xs) auto

lemma check_write_step:
  "check_write_collections published seen (c # cs) = Inr () \<longleftrightarrow>
     writable_ok published c \<and> wc_ID c \<notin> set seen \<and> check_write_collections published (wc_ID c # seen) cs = Inr ()"
  by (auto simp: unit_sum_cases Let_def writable_ok_def find_case List.member_iff simp del: ValidateFeatureCollectionID_ok)

lemma check_write_collections_ok:
  "check_write_collections published seen cs = Inr () \<longleftrightarrow>
     distinct (map wc_ID cs) \<and> set (map wc_ID cs) \<inter> set seen = {} \<and> list_all (writable_ok published) cs"
  by (induction cs arbitrary: seen) (auto simp: check_write_step simp del: check_write_collections.simps(2))

lemma check_collections_step:
  "check_collections seen (c # cs) = Inr ids \<longleftrightarrow>
     published_ok c \<and> fc_ID c \<notin> set seen \<and> check_collections (fc_ID c # seen) cs = Inr ids"
  by (auto simp: unit_sum_cases Let_def published_ok_def ProviderLayerName_def List.member_iff
      simp del: ValidateFeatureCollectionID_ok split: list.splits)

lemma check_collections_ok:
  "check_collections seen cs = Inr ids \<longleftrightarrow>
     ids = rev (map fc_ID cs) @ seen \<and> distinct (map fc_ID cs) \<and> set (map fc_ID cs) \<inter> set seen = {} \<and> list_all published_ok cs"
  by (induction cs arbitrary: seen) (auto simp: check_collections_step simp del: check_collections.simps(2))

text \<open>
  A publication configuration is accepted exactly when, with the defaults filled in, its limits and
  timeout are in range, its base path is made of clean segments and not reserved, its collections
  have distinct clean identifiers bound to a provider layer, and the writable collections are
  distinct published ones with known operations under a known authorisation mode.
\<close>

theorem features_config_accepted_iff:
  "Features_Validate f = Inr () \<longleftrightarrow>
     (let g = Features_Resolved f; ids = map fc_ID (f_Collections f); w = f_Write f in
      1024 \<le> the (f_MaxResponseBytes g) \<and> 0 < the (f_QueryTimeoutMS g) \<and> the (f_QueryTimeoutMS g) * 1000000 < 2 ^ 63 \<and>
      ValidateFeatureBasePath (f_BasePath g) = Inr () \<and>
      0 < the (f_DefaultLimit g) \<and> the (f_DefaultLimit g) \<le> the (f_MaxLimit g) \<and>
      (if f_Enabled f then ids \<noteq> [] else True) \<and> distinct ids \<and> list_all published_ok (f_Collections f) \<and>
      w_AuthMode w \<in> {[], ''production'', ''dev''} \<and> distinct (map wc_ID (w_Collections w)) \<and>
      list_all (writable_ok ids) (w_Collections w))"
proof -
  have [simp]: "f_Collections (Features_Resolved f) = f_Collections f" "f_Write (Features_Resolved f) = f_Write f"
    "f_Enabled (Features_Resolved f) = f_Enabled f" by (simp_all add: Features_Resolved_def)
  have t: "(t \<le> 0 \<or> t > (2 ^ 63 - 1) div 1000000) = (\<not> (0 < t \<and> t * 1000000 < 2 ^ 63))" for t :: int by auto
  have w: "list_all (writable_ok (rev ids)) cs = list_all (writable_ok ids) cs" for ids cs
    by (simp add: list_all_iff writable_ok_def)
  have c: "(case check_collections [] cs of Inl e \<Rightarrow> Inl e | Inr ids \<Rightarrow> Write_Validate ids wr) = Inr () \<longleftrightarrow>
      distinct (map fc_ID cs) \<and> list_all published_ok cs \<and> Write_Validate (rev (map fc_ID cs)) wr = Inr ()" for cs wr
  proof (cases "check_collections [] cs")
    case (Inl e)
    with check_collections_ok [of "[]" cs "rev (map fc_ID cs)"] show ?thesis by auto
  next
    case (Inr ids)
    with check_collections_ok [of "[]" cs ids] show ?thesis by simp
  qed
  have v: "Write_Validate (rev ids) wr = Inr () \<longleftrightarrow> w_AuthMode wr \<in> {[], ''production'', ''dev''} \<and>
      distinct (map wc_ID (w_Collections wr)) \<and> list_all (writable_ok ids) (w_Collections wr)" for ids wr
    by (simp add: Write_Validate_def check_write_collections_ok w List.member_iff)
  show ?thesis
    unfolding Features_Validate_def Let_def t
    by (simp only: if_Inl_Inr_iff unit_sum_cases c v) (auto simp: not_le)
qed

end
