(* ===== verification/Feature_Rest.thy ===== *)
theory Feature_Rest
  imports Mutation_Build Mutation_Correct Wfs_Lock Feature_Config
begin

text \<open>
  The write handlers of the features API, \<^verbatim>\<open>src/server/handle_features_mutations.go\<close> with
  \<^verbatim>\<open>feature_revision.go\<close>, \<^verbatim>\<open>mutation_geometry_preservation.go\<close> and \<^verbatim>\<open>mutation_receipt.go\<close>. A handler runs while other clients write: it is given a
  sequence of moments, one per access to shared state, and each read, lock check or execution sees
  the moment it happens at. The publication service, the renderer, the geometry encoder, the
  digest and the printing of a URL from its scheme, host and path are arguments.
\<close>

section \<open>The write policy\<close>

definition operation_name :: "PolicyAction \<Rightarrow> string" where
  "operation_name action = (case action of
       ActionInsert \<Rightarrow> ''create'' | ActionReplace \<Rightarrow> ''replace'' | ActionUpdate \<Rightarrow> ''update''
     | ActionDelete \<Rightarrow> ''delete'' | _ \<Rightarrow> [])"

definition writePolicy :: "FeaturesWriteConfig \<Rightarrow> Policy" where
  "writePolicy cfg = \<lparr>
     CheckCollection = (\<lambda>principal' action collection.
       if IsProductionAuth cfg \<and> p_Anonymous principal'
       then \<lparr>Allow = False, d_Reason = ''anonymous writes denied in production auth mode (set auth_mode='' @ [CHR 0x22] @ ''dev'' @ [CHR 0x22] @ '' for trusted networks only)''\<rparr>
       else if operation_name action = [] then \<lparr>Allow = True, d_Reason = []\<rparr>
       else if AllowsOperation cfg collection (operation_name action) then \<lparr>Allow = True, d_Reason = []\<rparr>
       else \<lparr>Allow = False, d_Reason = ''operation not allowed for collection''\<rparr>),
     CheckRow = (\<lambda>_ _ _. \<lparr>Allow = True, d_Reason = []\<rparr>),
     CheckPostImage = (\<lambda>_ _ _. \<lparr>Allow = True, d_Reason = []\<rparr>),
     CollectionOnly = Some True\<rparr>"

section \<open>Requests, responses and moments\<close>

text \<open>
  A request: the parsed query parameters (with a flag for a malformed query), the headers the
  handlers read, the body or the error of reading it, the values of its context, and the scheme,
  host and path of the root URL it was sent to.
\<close>

record request =
  rq_Collection :: string
  rq_Feature :: string
  rq_Params :: "(string \<times> string list) list"
  rq_ParamsOk :: bool
  rq_ContentType :: string
  rq_ContentCrs :: string
  rq_IfMatch :: string
  rq_LockHeader :: string
  rq_ContentLength :: int
  rq_Body :: "string option"
  rq_Cancelled :: bool
  rq_RequestID :: string
  rq_Timestamp :: string
  rq_Root :: "string \<times> string \<times> string"

record response =
  rs_Status :: nat
  rs_Code :: string
  rs_Commit :: "string option"
  rs_ETag :: "string option"
  rs_Body :: "string option"
  rs_Location :: "string option"

text \<open>One moment of the shared state: the stored data, the lock store with its clock and faults.\<close>

record 'db moment =
  mo_db :: 'db
  mo_locks :: LockStore
  mo_now :: int
  mo_fault :: "sql_stmt \<Rightarrow> bool"

record ('db, 'tx) FeatureAPI =
  a_Write :: FeaturesWriteConfig
  a_Authenticator :: "(request \<Rightarrow> Principal) option"
  a_SchemaDescriptorFor :: "string \<Rightarrow> go_error + SchemaDescriptor"
  a_MutationProviderFor :: "string \<Rightarrow> go_error + ('db, 'tx) MutationProvider \<times> string"
  a_RevisionReader :: "('db, 'tx) MutationProvider \<Rightarrow> ('db \<Rightarrow> string \<Rightarrow> u64 \<Rightarrow> go_error + string) option"
  a_QueryFeature :: "'db \<Rightarrow> string \<Rightarrow> u64 \<Rightarrow> string \<Rightarrow> go_error + ogc_feature"
  a_resolveFeatureCRS :: "string \<Rightarrow> (string \<times> string list) list \<Rightarrow> go_error + string"
  a_renderRepresentation :: "request \<Rightarrow> nat \<Rightarrow> string \<Rightarrow> u64 \<Rightarrow> ogc_feature \<Rightarrow> go_error + string"
  a_OnMutate :: "(string list \<Rightarrow> string option) option"
  a_tileCacheInvalidate :: "(unit \<Rightarrow> string option) option"
  a_encode :: "geometry \<Rightarrow> string option"
  a_sha256 :: "string \<Rightarrow> string"
  a_uriPrefix :: string
  a_BasePath :: string
  a_URLString :: "string \<Rightarrow> string \<Rightarrow> string \<Rightarrow> string"

definition writeError :: "nat \<Rightarrow> string \<Rightarrow> response" where
  "writeError status code = \<lparr>rs_Status = status, rs_Code = code, rs_Commit = None, rs_ETag = None, rs_Body = None, rs_Location = None\<rparr>"

definition principal_of :: "('db, 'tx) FeatureAPI \<Rightarrow> request \<Rightarrow> Principal" where
  "principal_of api rq = (case a_Authenticator api of
       Some f \<Rightarrow> f rq
     | None \<Rightarrow> \<lparr>p_ID = [], p_Anonymous = True\<rparr>)"

definition parsePKUint64 :: "string \<Rightarrow> u64" where
  "parsePKUint64 pk = (case ParseUint 64 pk of
       Some n \<Rightarrow> of_nat n
     | None \<Rightarrow> if pk \<noteq> [] \<and> list_all is_digit pk then - 1 else 0)"

definition mutationCoordinator :: "('db, 'tx) FeatureAPI \<Rightarrow> 'db moment \<Rightarrow> ('db, 'tx) MutationCoordinator" where
  "mutationCoordinator api mo = \<lparr>
     PolicyFor = (\<lambda>_. Some (writePolicy (a_Write api))),
     SchemaFor = (\<lambda>_. Inl (OtherError ''no schema resolver'')),
     SchemaForContext = Some (a_SchemaDescriptorFor api),
     ProviderFor = a_MutationProviderFor api,
     OnCommit = Some (\<lambda>cs. case a_OnMutate api of Some f \<Rightarrow> f cs | None \<Rightarrow> None),
     OnInvalidate = Some (\<lambda>_. case a_tileCacheInvalidate api of Some f \<Rightarrow> f () | None \<Rightarrow> None),
     LockCheck = Some (\<lambda>collection key.
       let i = parsePKUint64 (PK key) in
       if IsLocked (mo_fault mo) (mo_now mo) (mo_locks mo) collection i
       then Some (''feature '' @ FormatUint (unat i) @ '' is locked'') else None)\<rparr>"


section \<open>Errors as responses\<close>

text \<open>\<^verbatim>\<open>errors.Is\<close> and \<^verbatim>\<open>errors.As\<close>: whether an error of a kind is in the chain.\<close>

fun error_is :: "(go_error \<Rightarrow> bool) \<Rightarrow> go_error \<Rightarrow> bool"
and error_in :: "(go_error \<Rightarrow> bool) \<Rightarrow> go_error list \<Rightarrow> bool" where
  "error_is P (JoinError es) = (P (JoinError es) \<or> error_in P es)"
| "error_is P (WrapError t e) = (P (WrapError t e) \<or> error_is P e)"
| "error_is P (FeatureDataError e) = (P (FeatureDataError e) \<or> error_is P e)"
| "error_is P e = P e"
| "error_in P [] = False"
| "error_in P (e # es) = (error_is P e \<or> error_in P es)"

definition is_context :: "go_error \<Rightarrow> bool" where
  "is_context e = (case e of ContextCanceled \<Rightarrow> True | DeadlineExceeded \<Rightarrow> True | _ \<Rightarrow> False)"

definition is_data :: "go_error \<Rightarrow> bool" where
  "is_data e = (case e of FeatureDataError _ \<Rightarrow> True | _ \<Rightarrow> False)"

definition is_collection_missing :: "go_error \<Rightarrow> bool" where
  "is_collection_missing e = (case e of CollectionNotFoundError _ \<Rightarrow> True | _ \<Rightarrow> False)"

definition is_missing :: "go_error \<Rightarrow> bool" where
  "is_missing e = (case e of CollectionNotFoundError _ \<Rightarrow> True | FeatureNotFoundError _ _ \<Rightarrow> True | _ \<Rightarrow> False)"

definition is_invalid :: "go_error \<Rightarrow> bool" where
  "is_invalid e = (case e of InvalidFeatureQueryError _ _ \<Rightarrow> True | _ \<Rightarrow> False)"

definition is_unsupported :: "go_error \<Rightarrow> bool" where
  "is_unsupported e = (case e of ErrUnsupported \<Rightarrow> True | _ \<Rightarrow> False)"

definition writeQueryError :: "go_error \<Rightarrow> response" where
  "writeQueryError e =
     (if error_is is_context e then writeError 408 ''RequestTimeout''
      else if error_is is_data e then writeError 500 ''InternalError''
      else if error_is is_missing e then writeError 404 ''NotFound''
      else if error_is is_invalid e then writeError 400 ''InvalidParameter''
      else if error_is is_unsupported e then writeError 501 ''UnsupportedQuery''
      else writeError 500 ''InternalError'')"

definition writeMutationError :: "go_error \<Rightarrow> response" where
  "writeMutationError e =
     (let other = (if error_is is_collection_missing e then writeError 404 ''NotFound'' else writeQueryError e) in
      case AsMutationError e of
        None \<Rightarrow> other
      | Some (kind, _) \<Rightarrow> (case kind of
            MutationErrMalformedInput \<Rightarrow> writeError 400 ''InvalidParameter''
          | MutationErrSchemaViolation \<Rightarrow> writeError 400 ''InvalidParameter''
          | MutationErrDenied \<Rightarrow> writeError 403 ''Forbidden''
          | MutationErrNotFound \<Rightarrow> writeError 404 ''NotFound''
          | MutationErrPreconditionFailed \<Rightarrow> writeError 412 ''PreconditionFailed''
          | MutationErrLockConflict \<Rightarrow> writeError 409 ''LockConflict''
          | MutationErrUnsupportedCapability \<Rightarrow> writeError 400 ''InvalidParameter''
          | MutationErrQuotaExceeded \<Rightarrow> writeError 413 ''QuotaExceeded''
          | MutationErrDomainMismatch \<Rightarrow> writeError 400 ''InvalidParameter''
          | MutationErrCommitUnknown \<Rightarrow> writeError 500 ''CommitUnknown''
          | MutationErrExecutionFailed \<Rightarrow> other))"

datatype precondition_error = PreconditionFailed | PreconditionRequired | PreconditionOther go_error

definition writePreconditionError :: "precondition_error \<Rightarrow> response" where
  "writePreconditionError e = (case e of
       PreconditionFailed \<Rightarrow> writeError 412 ''PreconditionFailed''
     | PreconditionRequired \<Rightarrow> writeError 428 ''PreconditionRequired''
     | PreconditionOther g \<Rightarrow> writeQueryError g)"

section \<open>Revisions and entity tags\<close>

definition decimalDigits :: "string \<Rightarrow> bool" where
  "decimalDigits s \<longleftrightarrow> s \<noteq> [] \<and> list_all is_digit s"

definition parseFeatureIDParam :: "string \<Rightarrow> u64 option" where
  "parseFeatureIDParam s = (if \<not> decimalDigits s then None else map_option of_nat (ParseUint 64 s))"

definition trim_quotes :: "string \<Rightarrow> string" where
  "trim_quotes s = rev (dropWhile (\<lambda>c. c = CHR 0x22) (rev (dropWhile (\<lambda>c. c = CHR 0x22) s)))"

definition revisionETag :: "(string \<Rightarrow> string) \<Rightarrow> string \<Rightarrow> string \<Rightarrow> string" where
  "revisionETag sha256 rw revision =
     (let hash = strongETag sha256 rw in
      if revision = [] then hash
      else CHR 0x22 # revision @ ''.'' @ trim_quotes hash @ [CHR 0x22])"

definition lower_hex :: "char \<Rightarrow> bool" where
  "lower_hex c \<longleftrightarrow> is_digit c \<or> 97 \<le> byte c \<and> byte c \<le> 102"

definition revisionFromETag :: "string \<Rightarrow> string" where
  "revisionFromETag etag =
     (if length etag < 2 \<or> hd etag \<noteq> CHR 0x22 \<or> last etag \<noteq> CHR 0x22 then []
      else
        let parts = split_on (CHR ''.'') (butlast (tl etag)) in
        if length parts = 3 \<and> (length (parts ! 2) \<noteq> 64 \<or> \<not> list_all lower_hex (parts ! 2)) then []
        else
          let parts' = (if length parts = 3 then take 2 parts else parts) in
          if length parts' \<noteq> 1 \<and> length parts' \<noteq> 2 then []
          else if \<not> list_all (\<lambda>p. decimalDigits p \<and> ParseUint 64 p \<noteq> None) parts' then []
          else if length parts' = 1 then ''0.'' @ hd parts'
          else join_with (CHR ''.'') parts')"

definition etagMatches :: "string \<Rightarrow> string \<Rightarrow> bool" where
  "etagMatches header current \<longleftrightarrow>
     list_ex (\<lambda>part. let p = TrimSpace part in take 2 p \<noteq> ''W/'' \<and> p = current) (split_on (CHR '','') header)"

definition currentRevision :: "('db, 'tx) FeatureAPI \<Rightarrow> 'db \<Rightarrow> string \<Rightarrow> u64 \<Rightarrow> go_error + string" where
  "currentRevision api db collection featureID =
     (if \<not> w_Enabled (a_Write api) then Inr []
      else if \<not> list_ex (\<lambda>c. wc_ID c = collection) (w_Collections (a_Write api)) then Inr []
      else (case a_MutationProviderFor api collection of
          Inl e \<Rightarrow> if error_is is_unsupported e then Inr [] else Inl e
        | Inr (p, layer) \<Rightarrow> (case a_RevisionReader api p of
              None \<Rightarrow> Inr []
            | Some rr \<Rightarrow> (case rr db layer featureID of
                  Inl e \<Rightarrow> Inl (WrapError ''read feature revision'' e)
                | Inr rv \<Rightarrow> Inr rv))))"

text \<open>The loop of \<open>queryFeatureRevision\<close> with \<open>n\<close> attempts left, from moment \<open>k\<close>; it returns the moment
  after its last read.\<close>

fun query_attempts ::
  "('db, 'tx) FeatureAPI \<Rightarrow> (nat \<Rightarrow> 'db moment) \<Rightarrow> string \<Rightarrow> u64 \<Rightarrow> string \<Rightarrow> nat \<Rightarrow> nat \<Rightarrow> (go_error + ogc_feature \<times> string) \<times> nat" where
  "query_attempts api w collection i crs 0 k =
     (Inl (MutationError MutationErrPreconditionFailed (Reason ''feature changed during representation read'')), k)"
| "query_attempts api w collection i crs (Suc n) k =
     (case currentRevision api (mo_db (w k)) collection i of
        Inl e \<Rightarrow> (Inl e, k + 1)
      | Inr before \<Rightarrow> (case a_QueryFeature api (mo_db (w (k + 1))) collection i crs of
          Inl e \<Rightarrow> (Inl e, k + 2)
        | Inr f \<Rightarrow> (case currentRevision api (mo_db (w (k + 2))) collection i of
            Inl e \<Rightarrow> (Inl e, k + 3)
          | Inr after \<Rightarrow>
              if before = after then (Inr (f, after), k + 3)
              else query_attempts api w collection i crs n (k + 3))))"

definition queryFeatureRevision ::
  "('db, 'tx) FeatureAPI \<Rightarrow> (nat \<Rightarrow> 'db moment) \<Rightarrow> string \<Rightarrow> u64 \<Rightarrow> string \<Rightarrow> nat \<Rightarrow> (go_error + ogc_feature \<times> string) \<times> nat" where
  "queryFeatureRevision api w collection i crs k = query_attempts api w collection i crs 3 k"

text \<open>The query option (output CRS) and the output CRS name of an item request.\<close>

definition param_get :: "(string \<times> string list) list \<Rightarrow> string \<Rightarrow> string" where
  "param_get ps name = (case map_of ps name of Some (v # vs) \<Rightarrow> v | _ \<Rightarrow> [])"

definition selectedItemQuery :: "('db, 'tx) FeatureAPI \<Rightarrow> request \<Rightarrow> string \<Rightarrow> go_error + string \<times> string" where
  "selectedItemQuery api rq collection =
     (if \<not> rq_ParamsOk rq then Inl (InvalidFeatureQueryError ''query'' ''Invalid query parameter'')
      else (case List.find (\<lambda>(key, values). key \<noteq> ''crs'' \<or> length values \<noteq> 1 \<or> hd values = []) (rq_Params rq) of
          Some (key, _) \<Rightarrow> Inl (InvalidFeatureQueryError key ''Invalid query parameter'')
        | None \<Rightarrow> (case a_resolveFeatureCRS api collection (rq_Params rq) of
              Inl e \<Rightarrow> Inl e
            | Inr outputURI \<Rightarrow> Inr (param_get (rq_Params rq) ''crs'', outputURI))))"

definition querySelectedFeatureRevision ::
  "('db, 'tx) FeatureAPI \<Rightarrow> request \<Rightarrow> (nat \<Rightarrow> 'db moment) \<Rightarrow> string \<Rightarrow> u64 \<Rightarrow> nat \<Rightarrow> (go_error + ogc_feature \<times> string) \<times> nat" where
  "querySelectedFeatureRevision api rq w collection i k = (case selectedItemQuery api rq collection of
       Inl e \<Rightarrow> (Inl e, k)
     | Inr (crs, _) \<Rightarrow> queryFeatureRevision api w collection i crs k)"

definition currentETag ::
  "('db, 'tx) FeatureAPI \<Rightarrow> request \<Rightarrow> (nat \<Rightarrow> 'db moment) \<Rightarrow> string \<Rightarrow> u64 \<Rightarrow> nat \<Rightarrow> (go_error + string) \<times> nat" where
  "currentETag api rq w collection i k = (case querySelectedFeatureRevision api rq w collection i k of
       (Inl e, k') \<Rightarrow> (Inl e, k')
     | (Inr (f, rv), k') \<Rightarrow> (case a_renderRepresentation api rq 200 collection i f of
           Inl e \<Rightarrow> (Inl e, k')
         | Inr rw \<Rightarrow> (Inr (revisionETag (a_sha256 api) rw rv), k')))"

definition checkPrecondition ::
  "('db, 'tx) FeatureAPI \<Rightarrow> request \<Rightarrow> (nat \<Rightarrow> 'db moment) \<Rightarrow> string \<Rightarrow> u64 \<Rightarrow> nat \<Rightarrow> (precondition_error + string) \<times> nat" where
  "checkPrecondition api rq w collection i k =
     (let match = rq_IfMatch rq in
      if match = [] then (if w_RequireIfMatch (a_Write api) then (Inl PreconditionRequired, k) else (Inr [], k))
      else if match = ''*'' then
        (case a_QueryFeature api (mo_db (w k)) collection i [] of
           Inl e \<Rightarrow> (Inl (PreconditionOther e), k + 1)
         | Inr _ \<Rightarrow> (Inr [], k + 1))
      else (case currentETag api rq w collection i k of
          (Inl e, k') \<Rightarrow> (Inl (PreconditionOther e), k')
        | (Inr current, k') \<Rightarrow>
            if \<not> etagMatches match current then (Inl PreconditionFailed, k')
            else if revisionFromETag current = []
            then (Inl (PreconditionOther (MutationError MutationErrUnsupportedCapability (Reason ''conditional writes require provider revisions''))), k')
            else (Inr current, k')))"


section \<open>The handlers\<close>

definition maxMutationBody :: nat where
  "maxMutationBody = 4194304"

definition readMutationBody :: "request \<Rightarrow> string option" where
  "readMutationBody rq =
     (if rq_ContentLength rq > int maxMutationBody then None
      else (case rq_Body rq of
          None \<Rightarrow> None
        | Some body \<Rightarrow> if length body > maxMutationBody then None else Some body))"

definition isGeoJSONContentType :: "string \<Rightarrow> bool" where
  "isGeoJSONContentType ct =
     (let t = TrimSpace (hd (split_on (CHR '';'') ct)) in t = ''application/geo+json'' \<or> t = ''application/vnd.geo+json'')"

definition media_is :: "string \<Rightarrow> string \<Rightarrow> bool" where
  "media_is ct media \<longleftrightarrow> ct = media \<or> take (length media + 1) ct = media @ '';''"

definition checkWFSLock :: "request \<Rightarrow> 'db moment \<Rightarrow> string \<Rightarrow> u64 \<Rightarrow> response option" where
  "checkWFSLock rq mo collection featureID =
     (if param_get (rq_Params rq) ''lockId'' \<noteq> [] \<or> rq_LockHeader rq \<noteq> []
      then Some (writeError 400 ''OperationNotSupported'')
      else if IsLocked (mo_fault mo) (mo_now mo) (mo_locks mo) collection featureID
      then Some (writeError 403 ''Locked'')
      else None)"

definition commit_text :: "CommitStatus \<Rightarrow> string" where
  "commit_text s = (case s of CommitCommitted \<Rightarrow> ''committed'' | CommitNotCommitted \<Rightarrow> ''not-committed'' | CommitUnknown \<Rightarrow> ''unknown'')"

definition writeMutationReceiptHeaders :: "CommitReceipt \<Rightarrow> response \<Rightarrow> response" where
  "writeMutationReceiptHeaders receipt rs = rs\<lparr>rs_Commit := Some (commit_text (r_Status receipt))\<rparr>"

definition mutationReceiptError :: "'db exec_result \<Rightarrow> response option" where
  "mutationReceiptError r = (case x_err r of
       None \<Rightarrow> None
     | Some e \<Rightarrow> if r_Status (x_receipt r) = CommitCommitted then None
         else Some (writeMutationReceiptHeaders (x_receipt r) (writeMutationError e)))"

text \<open>The response every handler gives when the coordinator has not reported a commit.\<close>

definition not_committed :: "'db exec_result \<Rightarrow> response option" where
  "not_committed r = (case mutationReceiptError r of
       Some rs \<Rightarrow> Some rs
     | None \<Rightarrow> if r_Status (x_receipt r) = CommitCommitted then None
         else Some (writeMutationReceiptHeaders (x_receipt r) (writeError 500 ''CommitUnknown'')))"

definition writeCommittedWithoutRepresentation :: "nat \<Rightarrow> response" where
  "writeCommittedWithoutRepresentation status = (writeError status [])\<lparr>rs_Commit := Some ''committed''\<rparr>"

definition writeMutationRepresentation ::
  "('db, 'tx) FeatureAPI \<Rightarrow> request \<Rightarrow> nat \<Rightarrow> string \<Rightarrow> u64 \<Rightarrow> ogc_feature \<Rightarrow> string \<Rightarrow> CommitReceipt \<Rightarrow> response" where
  "writeMutationRepresentation api rq status collection i f revision receipt =
     (case a_renderRepresentation api rq status collection i f of
        Inl e \<Rightarrow> writeCommittedWithoutRepresentation (if status \<noteq> 201 then 204 else status)
      | Inr rw \<Rightarrow> writeMutationReceiptHeaders receipt \<lparr>rs_Status = status, rs_Code = [], rs_Commit = None,
          rs_ETag = Some (revisionETag (a_sha256 api) rw revision), rs_Body = Some rw, rs_Location = None\<rparr>)"

definition outcome_id :: "'db exec_result \<Rightarrow> u64" where
  "outcome_id r = (case x_outcomes r of [] \<Rightarrow> 0 | out # _ \<Rightarrow> o_FeatureID out)"

definition execute_at ::
  "('db, 'tx) FeatureAPI \<Rightarrow> request \<Rightarrow> 'db moment \<Rightarrow> Mutation \<Rightarrow> 'db exec_result" where
  "execute_at api rq mo m =
     ExecuteAll (mutationCoordinator api mo) (rq_Cancelled rq) (rq_RequestID rq) (rq_Timestamp rq) (principal_of api rq) [m] (mo_db mo)"

text \<open>
  What a handler did: its response and, if it called the coordinator, the mutation, the moment and
  the result of the execution.
\<close>

record 'db run =
  run_Response :: response
  run_Write :: "(Mutation \<times> nat \<times> 'db exec_result) option"

definition refuse :: "response \<Rightarrow> 'db run" where
  "refuse rs = \<lparr>run_Response = rs, run_Write = None\<rparr>"

definition trim_slashes :: "string \<Rightarrow> string" where
  "trim_slashes s = rev (dropWhile (\<lambda>c. c = CHR ''/'') (rev (dropWhile (\<lambda>c. c = CHR ''/'') s)))"

definition link_href :: "('db, 'tx) FeatureAPI \<Rightarrow> request \<Rightarrow> string \<Rightarrow> string" where
  "link_href api rq tail = (case rq_Root rq of (scheme, host, path) \<Rightarrow>
     let rootPath = trim_slashes path;
         rootPath = (if rootPath \<noteq> [] then CHR ''/'' # rootPath else rootPath)
     in a_URLString api scheme host (rootPath @ a_uriPrefix api @ a_BasePath api @ tail))"

definition itemLocation :: "('db, 'tx) FeatureAPI \<Rightarrow> request \<Rightarrow> string \<Rightarrow> u64 \<Rightarrow> string" where
  "itemLocation api rq collection i = link_href api rq (''/collections/'' @ collection @ ''/items/'' @ FormatUint (unat i))"

definition serveCreateItem :: "('db, 'tx) FeatureAPI \<Rightarrow> request \<Rightarrow> (nat \<Rightarrow> 'db moment) \<Rightarrow> 'db run" where
  "serveCreateItem api rq w =
     (let collection = rq_Collection rq in
      if \<not> AllowsOperation (a_Write api) collection ''create'' then refuse (writeError 405 ''MethodNotAllowed'')
      else if \<not> isGeoJSONContentType (rq_ContentType rq) then refuse (writeError 415 ''InvalidParameter'')
      else (case readMutationBody rq of
        None \<Rightarrow> refuse (writeError 400 ''InvalidParameter'')
      | Some body \<Rightarrow> (case parseGeoJSONFeature body of
          Inl e \<Rightarrow> refuse (writeError 400 ''InvalidParameter'')
        | Inr gf \<Rightarrow> (case a_SchemaDescriptorFor api collection of
            Inl e \<Rightarrow> refuse (writeQueryError e)
          | Inr schema \<Rightarrow> (case buildInsertMutation (a_encode api) schema collection gf of
              Inl e \<Rightarrow> refuse (writeError 400 ''InvalidParameter'')
            | Inr m \<Rightarrow>
                let r = execute_at api rq (w 0) m; i = outcome_id r in
                \<lparr>run_Response = (case not_committed r of
                     Some rs \<Rightarrow> rs
                   | None \<Rightarrow>
                       (case querySelectedFeatureRevision api rq w collection i 1 of
                          (Inl e, _) \<Rightarrow> writeCommittedWithoutRepresentation 201
                        | (Inr (created, revision), _) \<Rightarrow>
                            writeMutationRepresentation api rq 201 collection i created revision (x_receipt r))
                       \<lparr>rs_Location := Some (itemLocation api rq collection i)\<rparr>),
                 run_Write = Some (m, 0, r)\<rparr>)))))"

text \<open>The end of a replacement or update: the committed row is read back and returned.\<close>

definition respond_updated ::
  "('db, 'tx) FeatureAPI \<Rightarrow> request \<Rightarrow> (nat \<Rightarrow> 'db moment) \<Rightarrow> string \<Rightarrow> nat \<Rightarrow> 'db exec_result \<Rightarrow> response" where
  "respond_updated api rq w collection k r = (case not_committed r of
       Some rs \<Rightarrow> rs
     | None \<Rightarrow> (case querySelectedFeatureRevision api rq w collection (outcome_id r) k of
         (Inl e, _) \<Rightarrow> writeCommittedWithoutRepresentation 204
       | (Inr (updated, revision), _) \<Rightarrow>
           writeMutationRepresentation api rq 200 collection (ft_ID updated) updated revision (x_receipt r)))"

definition run_update ::
  "('db, 'tx) FeatureAPI \<Rightarrow> request \<Rightarrow> (nat \<Rightarrow> 'db moment) \<Rightarrow> string \<Rightarrow> nat \<Rightarrow> Mutation \<Rightarrow> 'db run" where
  "run_update api rq w collection k m =
     (let r = execute_at api rq (w k) m in
      \<lparr>run_Response = respond_updated api rq w collection (k + 1) r, run_Write = Some (m, k, r)\<rparr>)"

definition preserveIdenticalReplaceGeometry ::
  "(geometry \<Rightarrow> string option) \<Rightarrow> Mutation \<Rightarrow> ogc_feature \<Rightarrow> string \<Rightarrow> Mutation" where
  "preserveIdenticalReplaceGeometry encode m current revision =
     (if m_Op m \<noteq> MutationReplace \<or> m_GeometryWKB m = None \<or> m_GeometryAbsent m \<or> revision = [] \<or> m_GeometrySRID m \<noteq> 4326 then m
      else if m_IfRevision m \<noteq> [] \<and> m_IfRevision m \<noteq> revision then m
      else (case json_Decode (ft_Geometry current) of
          Some (JObject rw) \<Rightarrow> (case parseGeoJSONGeometry rw of
              Inl e \<Rightarrow> m
            | Inr g \<Rightarrow> (case encode g of
                  None \<Rightarrow> m
                | Some canonical \<Rightarrow>
                    if Some canonical \<noteq> m_GeometryWKB m then m
                    else m\<lparr>m_GeometryWKB := None, m_GeometrySRID := 0, m_GeometryUnchanged := True, m_IfRevision := revision\<rparr>))
        | _ \<Rightarrow> m))"

definition serveReplaceItem :: "('db, 'tx) FeatureAPI \<Rightarrow> request \<Rightarrow> (nat \<Rightarrow> 'db moment) \<Rightarrow> 'db run" where
  "serveReplaceItem api rq w =
     (let collection = rq_Collection rq in
      if \<not> AllowsOperation (a_Write api) collection ''replace'' then refuse (writeError 405 ''MethodNotAllowed'')
      else (case parseFeatureIDParam (rq_Feature rq) of
        None \<Rightarrow> refuse (writeError 400 ''InvalidParameter'')
      | Some featureID \<Rightarrow> (case checkWFSLock rq (w 0) collection featureID of
          Some rs \<Rightarrow> refuse rs
        | None \<Rightarrow>
          if \<not> isGeoJSONContentType (rq_ContentType rq) then refuse (writeError 415 ''InvalidParameter'')
          else (case checkPrecondition api rq w collection featureID 1 of
            (Inl e, _) \<Rightarrow> refuse (writePreconditionError e)
          | (Inr matchedETag, k) \<Rightarrow>
            let ifRevision = revisionFromETag matchedETag in
            (case readMutationBody rq of
              None \<Rightarrow> refuse (writeError 400 ''InvalidParameter'')
            | Some body \<Rightarrow> (case parseGeoJSONFeature body of
                Inl e \<Rightarrow> refuse (writeError 400 ''InvalidParameter'')
              | Inr gf \<Rightarrow> (case a_SchemaDescriptorFor api collection of
                  Inl e \<Rightarrow> refuse (writeQueryError e)
                | Inr schema \<Rightarrow> (case buildReplaceMutation (a_encode api) schema collection featureID gf of
                    Inl e \<Rightarrow> refuse (writeError 400 ''InvalidParameter'')
                  | Inr m0 \<Rightarrow>
                    let m = m0\<lparr>m_IfRevision := ifRevision\<rparr> in
                    if m_GeometryWKB m = None then run_update api rq w collection k m
                    else (case queryFeatureRevision api w collection featureID [] k of
                        (Inl e, _) \<Rightarrow> refuse (writeQueryError e)
                      | (Inr (current, revision), k') \<Rightarrow>
                          if ifRevision \<noteq> [] \<and> ifRevision \<noteq> revision then refuse (writePreconditionError PreconditionFailed)
                          else run_update api rq w collection k' (preserveIdenticalReplaceGeometry (a_encode api) m current revision))))))))))"

fun unmarshal_ops :: "raw list \<Rightarrow> patch_error + JSONPatchOp list" where
  "unmarshal_ops [] = Inr []"
| "unmarshal_ops (v # vs) = (case UnmarshalJSON v of
       Inl e \<Rightarrow> Inl e
     | Inr oper \<Rightarrow> (case unmarshal_ops vs of Inl e \<Rightarrow> Inl e | Inr ops \<Rightarrow> Inr (oper # ops)))"

text \<open>The decoded patch document: JSON Patch operations, or a merge patch (\<open>None\<close> for JSON null).\<close>

definition decode_ops :: "string \<Rightarrow> JSONPatchOp list option" where
  "decode_ops body = (case parse_json body of
       Some (RArray vs, _) \<Rightarrow> (case unmarshal_ops vs of Inr ops \<Rightarrow> Some ops | Inl _ \<Rightarrow> None)
     | Some (RNull, _) \<Rightarrow> Some []
     | _ \<Rightarrow> None)"

definition decode_merge :: "string \<Rightarrow> (string, json) fmap option option" where
  "decode_merge body = (case json_Decode body of
       Some (JObject m) \<Rightarrow> Some (Some m)
     | Some JNull \<Rightarrow> Some None
     | _ \<Rightarrow> None)"

definition build_patch ::
  "('db, 'tx) FeatureAPI \<Rightarrow> bool \<Rightarrow> SchemaDescriptor \<Rightarrow> string \<Rightarrow> u64 \<Rightarrow> ogc_feature \<Rightarrow> string \<Rightarrow> Mutation option" where
  "build_patch api isJSONPatch schema collection featureID current body =
     (if isJSONPatch then
        (case decode_ops body of
           None \<Rightarrow> None
         | Some ops \<Rightarrow> (case buildJSONPatchMutation (a_encode api) schema collection featureID current ops of
               Inl e \<Rightarrow> None | Inr m \<Rightarrow> Some m))
      else
        (case decode_merge body of
           None \<Rightarrow> None
         | Some patch \<Rightarrow> (case buildPatchMutation (a_encode api) schema collection featureID current patch of
               Inl e \<Rightarrow> None | Inr m \<Rightarrow> Some m)))"

definition servePatchItem :: "('db, 'tx) FeatureAPI \<Rightarrow> request \<Rightarrow> (nat \<Rightarrow> 'db moment) \<Rightarrow> 'db run" where
  "servePatchItem api rq w =
     (let collection = rq_Collection rq;
          isMergePatch = media_is (rq_ContentType rq) ''application/merge-patch+json'';
          isJSONPatch = media_is (rq_ContentType rq) ''application/json-patch+json''
      in
      if \<not> AllowsOperation (a_Write api) collection ''update'' then refuse (writeError 405 ''MethodNotAllowed'')
      else (case parseFeatureIDParam (rq_Feature rq) of
        None \<Rightarrow> refuse (writeError 400 ''InvalidParameter'')
      | Some featureID \<Rightarrow> (case checkWFSLock rq (w 0) collection featureID of
          Some rs \<Rightarrow> refuse rs
        | None \<Rightarrow>
          if \<not> isMergePatch \<and> \<not> isJSONPatch then refuse (writeError 415 ''InvalidParameter'')
          else (case checkPrecondition api rq w collection featureID 1 of
            (Inl e, _) \<Rightarrow> refuse (writePreconditionError e)
          | (Inr matchedETag, k) \<Rightarrow>
            let ifRevision = revisionFromETag matchedETag in
            (case readMutationBody rq of
              None \<Rightarrow> refuse (writeError 400 ''InvalidParameter'')
            | Some body \<Rightarrow>
              if rejectDuplicateKeys body \<noteq> None then refuse (writeError 400 ''InvalidParameter'')
              else (case queryFeatureRevision api w collection featureID [] k of
                (Inl e, _) \<Rightarrow> refuse (writeQueryError e)
              | (Inr (current, readRevision), k') \<Rightarrow>
                if ifRevision \<noteq> [] \<and> ifRevision \<noteq> readRevision then refuse (writePreconditionError PreconditionFailed)
                else if readRevision = []
                then refuse (writeMutationError (MutationError MutationErrUnsupportedCapability (Reason ''PATCH requires provider revisions'')))
                else (case a_SchemaDescriptorFor api collection of
                  Inl e \<Rightarrow> refuse (writeQueryError e)
                | Inr schema \<Rightarrow> (case build_patch api isJSONPatch schema collection featureID current body of
                    None \<Rightarrow> refuse (writeError 400 ''InvalidParameter'')
                  | Some m \<Rightarrow> run_update api rq w collection k' (m\<lparr>m_IfRevision := readRevision\<rparr>)))))))))"

definition serveDeleteItem :: "('db, 'tx) FeatureAPI \<Rightarrow> request \<Rightarrow> (nat \<Rightarrow> 'db moment) \<Rightarrow> 'db run" where
  "serveDeleteItem api rq w =
     (let collection = rq_Collection rq in
      if \<not> AllowsOperation (a_Write api) collection ''delete'' then refuse (writeError 405 ''MethodNotAllowed'')
      else (case parseFeatureIDParam (rq_Feature rq) of
        None \<Rightarrow> refuse (writeError 400 ''InvalidParameter'')
      | Some featureID \<Rightarrow> (case checkWFSLock rq (w 0) collection featureID of
          Some rs \<Rightarrow> refuse rs
        | None \<Rightarrow> (case checkPrecondition api rq w collection featureID 1 of
            (Inl e, _) \<Rightarrow> refuse (writePreconditionError e)
          | (Inr matchedETag, k) \<Rightarrow>
            let m = (base_mutation MutationDelete collection [])\<lparr>m_FeatureID := featureID, m_IfRevision := revisionFromETag matchedETag\<rparr>;
                r = execute_at api rq (w k) m
            in \<lparr>run_Response = (case not_committed r of
                    Some rs \<Rightarrow> rs
                  | None \<Rightarrow> writeMutationReceiptHeaders (x_receipt r) (writeError 204 [])),
                run_Write = Some (m, k, r)\<rparr>))))"

text \<open>The wrapper around every write handler: input coordinates and the selected representation.\<close>

definition CRS84 :: string where
  "CRS84 = ''http://www.opengis.net/def/crs/OGC/1.3/CRS84''"

definition mutation_entry ::
  "(('db, 'tx) FeatureAPI \<Rightarrow> request \<Rightarrow> (nat \<Rightarrow> 'db moment) \<Rightarrow> 'db run) \<Rightarrow> ('db, 'tx) FeatureAPI \<Rightarrow> request \<Rightarrow> (nat \<Rightarrow> 'db moment) \<Rightarrow> 'db run" where
  "mutation_entry h api rq w =
     (let crs = rq_ContentCrs rq in
      if crs \<noteq> [] \<and> crs \<noteq> ''<'' @ CRS84 @ ''>'' \<and> crs \<noteq> CRS84 then refuse (writeError 400 ''InvalidParameter'')
      else (case selectedItemQuery api rq (rq_Collection rq) of
          Inl e \<Rightarrow> refuse (writeQueryError e)
        | Inr _ \<Rightarrow> h api rq w))"

section \<open>Advertised methods\<close>

definition writeEnabledFor :: "FeaturesWriteConfig \<Rightarrow> string \<Rightarrow> bool" where
  "writeEnabledFor w collection =
     (w_Enabled w \<and> (case List.find (\<lambda>c. wc_ID c = collection) (w_Collections w) of
        Some c \<Rightarrow> wc_Operations c \<noteq> [] | None \<Rightarrow> False))"

definition allowedMethods :: "FeaturesWriteConfig \<Rightarrow> string \<Rightarrow> bool \<Rightarrow> string list" where
  "allowedMethods w collection item =
     (let methods = [''GET'', ''HEAD'', ''OPTIONS''] in
      if \<not> writeEnabledFor w collection then methods
      else if \<not> item then methods @ (if AllowsOperation w collection ''create'' then [''POST''] else [])
      else methods @ (if AllowsOperation w collection ''replace'' then [''PUT''] else []) @
        (if AllowsOperation w collection ''update'' then [''PATCH''] else []) @
        (if AllowsOperation w collection ''delete'' then [''DELETE''] else []))"

end
