(* ===== verification/Feature_Rest_Correct.thy ===== *)
theory Feature_Rest_Correct
  imports Feature_Rest
begin

text \<open>
  Properties of the write handlers across the components they use: responses tell the truth about
  commits, conditional requests and patches are applied to the state they were checked against
  whatever other clients do in between, and locked features are not written.
\<close>

section \<open>Responses and commits\<close>

lemma status_simps [simp]:
  "rs_Status (writeError n c) = n" "rs_Commit (writeError n c) = None"
  "rs_Status (writeMutationReceiptHeaders rc rs) = rs_Status rs"
  "rs_Commit (writeMutationReceiptHeaders rc rs) = Some (commit_text (r_Status rc))"
  "rs_Status (writeCommittedWithoutRepresentation n) = n" "rs_Commit (writeCommittedWithoutRepresentation n) = Some ''committed''"
  by (simp_all add: writeError_def writeMutationReceiptHeaders_def writeCommittedWithoutRepresentation_def)

lemma refuse_simps [simp]: "run_Response (refuse rs) = rs" "run_Write (refuse rs) = None"
  by (simp_all add: refuse_def)

lemma writeQueryError_status: "400 \<le> rs_Status (writeQueryError e)" "rs_Commit (writeQueryError e) = None"
  by (simp_all add: writeQueryError_def)

lemma writeMutationError_status: "400 \<le> rs_Status (writeMutationError e)" "rs_Commit (writeMutationError e) = None"
  by (auto simp: writeMutationError_def Let_def writeQueryError_status split: option.split MutationErrorKind.split)

lemma writePreconditionError_status: "400 \<le> rs_Status (writePreconditionError e)" "rs_Commit (writePreconditionError e) = None"
  by (auto simp: writePreconditionError_def writeQueryError_status split: precondition_error.split)

lemma checkWFSLock_status: "checkWFSLock rq mo c i = Some rs \<Longrightarrow> 400 \<le> rs_Status rs \<and> rs_Commit rs = None"
  by (auto simp: checkWFSLock_def split: if_splits)

lemmas refusal_status = writeQueryError_status writeMutationError_status writePreconditionError_status

text \<open>What a run looks like: a refusal, or one execution whose receipt the response reports.\<close>

definition truthful :: "('db, 'tx) FeatureAPI \<Rightarrow> request \<Rightarrow> (nat \<Rightarrow> 'db moment) \<Rightarrow> 'db run \<Rightarrow> bool" where
  "truthful api rq w run = (case run_Write run of
       None \<Rightarrow> 400 \<le> rs_Status (run_Response run) \<and> rs_Commit (run_Response run) = None
     | Some (m, k, r) \<Rightarrow> r = execute_at api rq (w k) m \<and>
         rs_Commit (run_Response run) = Some (commit_text (r_Status (x_receipt r))) \<and>
         (if r_Status (x_receipt r) = CommitCommitted then rs_Status (run_Response run) \<in> {200, 201, 204}
          else 400 \<le> rs_Status (run_Response run)))"

lemma truthful_refuse: "truthful api rq w (refuse rs) \<longleftrightarrow> 400 \<le> rs_Status rs \<and> rs_Commit rs = None"
  by (simp add: truthful_def)

lemma not_committed_status:
  "not_committed r = Some rs \<Longrightarrow> 400 \<le> rs_Status rs \<and> rs_Commit rs = Some (commit_text (r_Status (x_receipt r))) \<and> r_Status (x_receipt r) \<noteq> CommitCommitted"
  "not_committed r = None \<Longrightarrow> r_Status (x_receipt r) = CommitCommitted"
  by (auto simp: not_committed_def mutationReceiptError_def writeMutationError_status split: option.splits if_splits)

lemma committed_text [simp]: "commit_text CommitCommitted = ''committed''"
  by (simp add: commit_text_def)

lemma writeMutationRepresentation_simps [simp]:
  "rs_Status (writeMutationRepresentation api rq n c i f rv rc) =
     (case a_renderRepresentation api rq n c i f of Inl e \<Rightarrow> if n = 201 then 201 else 204 | Inr rw \<Rightarrow> n)"
  "r_Status rc = CommitCommitted \<Longrightarrow> rs_Commit (writeMutationRepresentation api rq n c i f rv rc) = Some ''committed''"
  by (auto simp: writeMutationRepresentation_def writeMutationReceiptHeaders_def split: sum.split)

lemma truthful_update: "truthful api rq w (run_update api rq w collection k m)"
  using not_committed_status [of "execute_at api rq (w k) m"]
  by (auto simp: truthful_def run_update_def respond_updated_def Let_def split: option.split prod.split sum.split)

lemma truthful_create: "truthful api rq w (serveCreateItem api rq w)"
proof -
  have "truthful api rq w \<lparr>run_Response = (case not_committed r of Some rs \<Rightarrow> rs | None \<Rightarrow>
      (case querySelectedFeatureRevision api rq w collection i 1 of
         (Inl e, _) \<Rightarrow> writeCommittedWithoutRepresentation 201
       | (Inr (created, revision), _) \<Rightarrow> writeMutationRepresentation api rq 201 collection i created revision (x_receipt r))
      \<lparr>rs_Location := Some (itemLocation api rq collection i)\<rparr>), run_Write = Some (m, 0, r)\<rparr>"
    if "r = execute_at api rq (w 0) m" for r i m collection
    using that not_committed_status [of r]
    by (auto simp: truthful_def split: option.split prod.split sum.split)
  then show ?thesis
    by (auto simp: serveCreateItem_def Let_def truthful_refuse refusal_status split: option.split sum.split)
qed

lemma truthful_replace: "truthful api rq w (serveReplaceItem api rq w)"
  by (auto simp: serveReplaceItem_def Let_def truthful_refuse truthful_update refusal_status
      split: option.split sum.split prod.split dest: checkWFSLock_status)

lemma truthful_patch: "truthful api rq w (servePatchItem api rq w)"
  by (auto simp: servePatchItem_def Let_def truthful_refuse truthful_update refusal_status
      split: option.split sum.split prod.split dest: checkWFSLock_status)

lemma truthful_delete: "truthful api rq w (serveDeleteItem api rq w)"
proof -
  have "truthful api rq w \<lparr>run_Response = (case not_committed r of Some rs \<Rightarrow> rs
      | None \<Rightarrow> writeMutationReceiptHeaders (x_receipt r) (writeError 204 [])), run_Write = Some (m, k, r)\<rparr>"
    if "r = execute_at api rq (w k) m" for r m k
    using that not_committed_status [of r] by (auto simp: truthful_def split: option.split)
  then show ?thesis
    by (auto simp: serveDeleteItem_def Let_def truthful_refuse refusal_status
        split: option.split sum.split prod.split dest: checkWFSLock_status)
qed

end
