(* ===== verification/Feature_Rest_Safety.thy ===== *)
theory Feature_Rest_Safety
  imports Feature_Rest_Correct
begin

text \<open>
  The properties of the write handlers: what a response says of the commit, conditional writes and
  patches under concurrent writers, and locks.
\<close>

section \<open>Executions\<close>

lemma apply_all_locked:
  assumes "b \<in> set bs" "LockCheck c = Some f" "f (b_collection b) (bound_key domain b) \<noteq> None"
  shows "\<exists>e tx' evs. apply_all c actor mp domain bs tx = (Inl e, tx', evs)"
  using assms
proof (induction bs arbitrary: tx)
  case (Cons a bs)
  show ?case
  proof (cases "a = b")
    case True
    with Cons.prems show ?thesis by (auto simp: Let_def)
  next
    case False
    with Cons have IH: "\<exists>e tx' evs. apply_all c actor mp domain bs t = (Inl e, tx', evs)" for t by simp
    obtain e tx' evs where "\<And>t. apply_all c actor mp domain bs t = (Inl (e t), tx' t, evs t)" using IH by metis
    then show ?thesis by (auto simp: Let_def split: option.split prod.split sum.split)
  qed
qed simp

lemma execute_locked:
  assumes contract: "\<forall>coll mp layer. ProviderFor c coll = Inr (mp, layer) \<longrightarrow> tx_contract mp view"
    and lock: "LockCheck c = Some f" "m \<in> set ms" "\<And>key. PK key = formatPK (m_FeatureID m) \<Longrightarrow> f (m_Collection m) key \<noteq> None"
  shows "let r = ExecuteAll c cancelled requestID timestamp actor ms db in
    x_db r = db \<and> r_Status (x_receipt r) = CommitNotCommitted"
proof (cases "bind_all c actor [] None ms")
  case (Inr x)
  then obtain domain bs where b: "bind_all c actor [] None ms = Inr (domain, bs)" by (metis surj_pair)
  from bind_all_Inr [OF b] lock(2) obtain b where bb: "b \<in> set bs" "bound_to c m b"
    by (auto simp: list_all2_conv_all_nth in_set_conv_nth) blast
  then have "f (b_collection b) (bound_key domain b) \<noteq> None"
    using lock(3) by (simp add: bound_to_def bound_key_def)
  note a = apply_all_locked [OF bb(1) lock(1) this]
  from bb(1) bind_all_Inr [OF b] have "bound_to c (hd ms) (hd bs)" by (cases ms; cases bs) auto
  then have "tx_contract (b_mp (hd bs)) view" using contract by (auto simp: bound_to_def)
  then have rb: "tx_Rollback (b_mp (hd bs)) t d = d" for t d by (simp add: tx_contract_def)
  show ?thesis
  proof (cases "BeginFeatureTx (b_mp (hd bs)) \<lparr>tx_ReadOnly = False, tx_Actor = p_ID actor, tx_RequestID = requestID\<rparr> db")
    case (Inr tx)
    obtain e tx' evs where "apply_all c actor (b_mp (hd bs)) domain bs tx = (Inl e, tx', evs)" using a by blast
    with Inr b rb lock(2) show ?thesis by (auto simp: ExecuteAll_def Let_def empty_receipt_def)
  qed (use b lock(2) in \<open>auto simp: ExecuteAll_def Let_def empty_receipt_def\<close>)
qed (use lock(2) in \<open>auto simp: ExecuteAll_def Let_def empty_receipt_def\<close>)

lemma coordinator_simps [simp]:
  "ProviderFor (mutationCoordinator api mo) = a_MutationProviderFor api"
  "LockCheck (mutationCoordinator api mo) = Some (\<lambda>collection key.
     let i = parsePKUint64 (PK key) in
     if IsLocked (mo_fault mo) (mo_now mo) (mo_locks mo) collection i
     then Some (''feature '' @ FormatUint (unat i) @ '' is locked'') else None)"
  by (simp_all add: mutationCoordinator_def)

lemma parsePKUint64_formatPK [simp]: "parsePKUint64 (formatPK n) = n"
  using unat_u64_less [of n] by (simp add: parsePKUint64_def formatPK_def ParseUint_FormatUint)

text \<open>What a provider promises: transactions, and revisions compared inside them.\<close>

definition providers_transactional :: "('db, 'tx) FeatureAPI \<Rightarrow> ('tx \<Rightarrow> 'db) \<Rightarrow> bool" where
  "providers_transactional api view \<longleftrightarrow>
     (\<forall>coll mp layer. a_MutationProviderFor api coll = Inr (mp, layer) \<longrightarrow> tx_contract mp view)"

text \<open>The stored data after one mutation has been applied in a transaction of its own.\<close>

definition applied_at :: "('db, 'tx) FeatureAPI \<Rightarrow> ('tx \<Rightarrow> 'db) \<Rightarrow> Mutation \<Rightarrow> 'db \<Rightarrow> 'db \<Rightarrow> bool" where
  "applied_at api view m db db' \<longleftrightarrow>
     (\<exists>mp layer tx tx' out. a_MutationProviderFor api (m_Collection m) = Inr (mp, layer) \<and> view tx = db \<and>
        tx_Apply mp (m\<lparr>m_Collection := layer\<rparr>) tx = (Inr out, tx') \<and> db' = view tx')"

lemma execute_at_outcome:
  assumes "providers_transactional api view"
  shows "case r_Status (x_receipt (execute_at api rq mo m)) of
      CommitCommitted \<Rightarrow> applied_at api view m (mo_db mo) (x_db (execute_at api rq mo m))
    | CommitNotCommitted \<Rightarrow> x_db (execute_at api rq mo m) = mo_db mo
    | CommitUnknown \<Rightarrow> x_db (execute_at api rq mo m) = mo_db mo \<or> applied_at api view m (mo_db mo) (x_db (execute_at api rq mo m))"
proof -
  let ?c = "mutationCoordinator api mo"
  have k: "\<forall>coll mp layer. ProviderFor ?c coll = Inr (mp, layer) \<longrightarrow> tx_contract mp view"
    using assms by (auto simp: providers_transactional_def)
  have ap: "applied_at api view m (mo_db mo) d"
    if "\<exists>mp layer tx tx'. ProviderFor ?c (m_Collection (hd [m])) = Inr (mp, layer) \<and> view tx = mo_db mo \<and>
        applies mp (map (pinned ?c) [m]) tx tx' \<and> d = view tx'" for d
  proof -
    from that obtain mp layer tx tx' where p: "a_MutationProviderFor api (m_Collection m) = Inr (mp, layer)" "view tx = mo_db mo"
      "applies mp [pinned ?c m] tx tx'" "d = view tx'" by auto
    from p(1,3) obtain out where "tx_Apply mp (m\<lparr>m_Collection := layer\<rparr>) tx = (Inr out, tx')" by (auto simp: pinned_def)
    with p show ?thesis unfolding applied_at_def by blast
  qed
  let ?r = "execute_at api rq mo m"
  have "case r_Status (x_receipt ?r) of
      CommitCommitted \<Rightarrow> \<exists>mp layer tx tx'. ProviderFor ?c (m_Collection (hd [m])) = Inr (mp, layer) \<and> view tx = mo_db mo \<and>
        applies mp (map (pinned ?c) [m]) tx tx' \<and> x_db ?r = view tx'
    | CommitNotCommitted \<Rightarrow> x_db ?r = mo_db mo
    | CommitUnknown \<Rightarrow> x_db ?r = mo_db mo \<or> (\<exists>mp layer tx tx'. ProviderFor ?c (m_Collection (hd [m])) = Inr (mp, layer) \<and>
        view tx = mo_db mo \<and> applies mp (map (pinned ?c) [m]) tx tx' \<and> x_db ?r = view tx')"
    unfolding execute_at_def by (rule execute_outcome [OF k, unfolded Let_def])
  then show ?thesis
    by (cases "r_Status (x_receipt ?r)") (simp_all only: CommitStatus.case ap, metis ap)
qed

lemma execute_at_locked:
  assumes "providers_transactional api view"
    and "IsLocked (mo_fault mo) (mo_now mo) (mo_locks mo) (m_Collection m) (m_FeatureID m)"
  shows "x_db (execute_at api rq mo m) = mo_db mo \<and> r_Status (x_receipt (execute_at api rq mo m)) = CommitNotCommitted"
proof -
  let ?c = "mutationCoordinator api mo"
  have k: "\<forall>coll mp layer. ProviderFor ?c coll = Inr (mp, layer) \<longrightarrow> tx_contract mp view"
    using assms(1) by (auto simp: providers_transactional_def)
  show ?thesis
    using execute_locked [OF k coordinator_simps(2), where ms = "[m]" and m = m] assms(2)
    unfolding execute_at_def Let_def by auto
qed

section \<open>What a handler executes\<close>

lemma buildReplaceMutation_target:
  "buildReplaceMutation encode schema collection i gf = Inr m \<Longrightarrow> m_Collection m = collection \<and> m_FeatureID m = i \<and> m_Op m = MutationReplace"
  by (auto simp: buildReplaceMutation_def buildInsertMutation_def base_mutation_def Let_def split: if_splits option.splits)

lemma preserve_target [simp]:
  "m_Collection (preserveIdenticalReplaceGeometry encode m cur rv) = m_Collection m"
  "m_FeatureID (preserveIdenticalReplaceGeometry encode m cur rv) = m_FeatureID m"
  "m_Op (preserveIdenticalReplaceGeometry encode m cur rv) = m_Op m"
  "m_IfRevision m = rv \<Longrightarrow> m_IfRevision (preserveIdenticalReplaceGeometry encode m cur rv) = rv"
  by (auto simp: preserveIdenticalReplaceGeometry_def split: option.split json.split sum.split)

lemma build_merged_target:
  assumes "buildMutationFromMerged encode schema collection i cur merged = Inr m"
  shows "m_Collection m = collection \<and> m_FeatureID m = i \<and> m_Op m \<noteq> MutationInsert"
  using assms by (rule buildMutationFromMerged_Inr) (auto dest!: geometry_update_keeps simp: base_mutation_def)

lemma build_patch_target:
  "build_patch api jp schema collection i cur body = Some m \<Longrightarrow> m_Collection m = collection \<and> m_FeatureID m = i \<and> m_Op m \<noteq> MutationInsert"
  by (auto simp: build_patch_def buildJSONPatchMutation_def buildPatchMutation_def
      split: if_splits option.splits sum.splits dest: build_merged_target)

lemma run_update_write [simp]: "run_Write (run_update api rq w c k m) = Some (m, k, execute_at api rq (w k) m)"
  by (simp add: run_update_def Let_def)

lemma query_attempts_Inr:
  "query_attempts api w c i crs n k = (Inr (f, rv), k') \<Longrightarrow> \<exists>j\<ge>k. k' = j + 3 \<and>
     currentRevision api (mo_db (w j)) c i = Inr rv \<and> a_QueryFeature api (mo_db (w (j + 1))) c i crs = Inr f"
  by (induction n arbitrary: k) (fastforce split: sum.splits if_splits)+

lemma query_moment [dest]: "queryFeatureRevision api w c i crs k = (Inr x, k') \<Longrightarrow> k \<le> k'"
  by (cases x) (auto simp: queryFeatureRevision_def dest: query_attempts_Inr)

text \<open>
  An execution by a handler on an existing feature: the item is named by the path, it was not locked
  and its precondition held no later than the execution, and the mutation carries the revision of
  the matched entity tag.
\<close>

definition checked_write :: "('db, 'tx) FeatureAPI \<Rightarrow> request \<Rightarrow> (nat \<Rightarrow> 'db moment) \<Rightarrow> string \<Rightarrow> Mutation \<Rightarrow> nat \<Rightarrow> bool" where
  "checked_write api rq w oper m n \<longleftrightarrow>
     (\<exists>i etag k. AllowsOperation (a_Write api) (rq_Collection rq) oper \<and> parseFeatureIDParam (rq_Feature rq) = Some i \<and>
        m_Op m \<noteq> MutationInsert \<and> m_FeatureID m = i \<and> m_Collection m = rq_Collection rq \<and> checkWFSLock rq (w 0) (rq_Collection rq) i = None \<and>
        checkPrecondition api rq w (rq_Collection rq) i 1 = (Inr etag, k) \<and> k \<le> n \<and>
        (revisionFromETag etag \<noteq> [] \<longrightarrow> m_IfRevision m = revisionFromETag etag))"

lemma checked_replace:
  assumes "run_Write (serveReplaceItem api rq w) = Some (m, k, r)"
  shows "checked_write api rq w ''replace'' m k"
  using assms
  by (auto simp: serveReplaceItem_def checked_write_def Let_def split: if_splits option.splits sum.splits prod.splits
      dest!: buildReplaceMutation_target)

lemma checked_patch:
  assumes "run_Write (servePatchItem api rq w) = Some (m, k, r)"
  shows "checked_write api rq w ''update'' m k"
  using assms
  by (auto simp: servePatchItem_def checked_write_def Let_def split: if_splits option.splits sum.splits prod.splits
      dest!: build_patch_target)

lemma checked_delete:
  assumes "run_Write (serveDeleteItem api rq w) = Some (m, k, r)"
  shows "checked_write api rq w ''delete'' m k"
  using assms
  by (auto simp: serveDeleteItem_def checked_write_def base_mutation_def Let_def split: if_splits option.splits sum.splits prod.splits)

lemma entry_write: "run_Write (mutation_entry h api rq w) = Some x \<Longrightarrow> run_Write (h api rq w) = Some x"
  by (auto simp: mutation_entry_def Let_def split: if_splits sum.splits)

lemma checked_any:
  assumes "h \<in> {serveReplaceItem, servePatchItem, serveDeleteItem}" "run_Write (mutation_entry h api rq w) = Some (m, k, r)"
  obtains oper where "checked_write api rq w oper m k"
  using assms(1) entry_write [OF assms(2)] that
  by (auto dest: checked_replace checked_patch checked_delete)

lemma any_execute:
  assumes "h \<in> {serveReplaceItem, servePatchItem, serveDeleteItem}" "run_Write (mutation_entry h api rq w) = Some (m, k, r)"
  shows "r = execute_at api rq (w k) m"
  using assms(1) entry_write [OF assms(2)] truthful_replace [of api rq w] truthful_patch [of api rq w] truthful_delete [of api rq w]
  by (auto simp: truthful_def)

section \<open>A service to run\<close>

text \<open>
  A provider whose stored data is the number of writes so far, which is also the revision of its
  features; a conditional write is compared with it inside the transaction.
\<close>

definition counter_provider :: "(nat, nat) MutationProvider" where
  "counter_provider = \<lparr>provider_ptr = 1, DescribeWritable = (\<lambda>_. Inr ''d''), BeginFeatureTx = (\<lambda>_ db. Inr db),
     tx_Apply = (\<lambda>m tx. if m_IfRevision m \<noteq> [] \<and> m_IfRevision m \<noteq> ''0.'' @ FormatUint tx
       then (Inl (MutationError MutationErrPreconditionFailed (Reason ''revision mismatch'')), tx)
       else (Inr \<lparr>o_FeatureID = m_FeatureID m, o_Revision = [], o_RevisionBefore = [], o_Affected = 1\<rparr>, tx + 1)),
     tx_Commit = (\<lambda>tx db. ((empty_receipt CommitCommitted, None), tx)), tx_Rollback = (\<lambda>tx db. db)\<rparr>"

definition sample_api :: "(nat, nat) FeatureAPI" where
  "sample_api = \<lparr>a_Write = \<lparr>w_Enabled = True,
       w_Collections = [\<lparr>wc_ID = ''roads'', wc_Operations = [''update'', ''delete'']\<rparr>], w_RequireIfMatch = False, w_AuthMode = ''dev''\<rparr>,
     a_Authenticator = None, a_SchemaDescriptorFor = (\<lambda>_. Inr sample_schema),
     a_MutationProviderFor = (\<lambda>c. Inr (counter_provider, c)),
     a_RevisionReader = (\<lambda>_. Some (\<lambda>db layer i. Inr (''0.'' @ FormatUint db))),
     a_QueryFeature = (\<lambda>db c i crs. Inr stored_feature),
     a_resolveFeatureCRS = (\<lambda>_ _. Inr CRS84),
     a_renderRepresentation = (\<lambda>_ _ _ _ _. Inr ''{}''),
     a_OnMutate = None, a_tileCacheInvalidate = None, a_encode = (\<lambda>_. None), a_sha256 = (\<lambda>_. replicate 32 (CHR 0x00)),
     a_uriPrefix = [], a_BasePath = ''/ogc'', a_URLString = (\<lambda>scheme host path. scheme @ ''://'' @ host @ path)\<rparr>"

definition sample_request :: request where
  "sample_request = \<lparr>rq_Collection = ''roads'', rq_Feature = ''7'', rq_Params = [], rq_ParamsOk = True, rq_ContentType = [],
     rq_ContentCrs = [], rq_IfMatch = [], rq_LockHeader = [], rq_ContentLength = 0, rq_Body = Some [], rq_Cancelled = False,
     rq_RequestID = [], rq_Timestamp = [], rq_Root = (''http'', ''localhost'', [])\<rparr>"

definition sample_moment :: "memoryLockStore \<Rightarrow> nat \<Rightarrow> nat moment" where
  "sample_moment locks n = \<lparr>mo_db = n, mo_locks = MemoryStore locks, mo_now = 0, mo_fault = (\<lambda>_. False)\<rparr>"

definition sample_lock :: memoryLockStore where
  "sample_lock = [(''l'', \<lparr>ID = ''l'', TypeName = ''roads'', FeatureIDs = [7], Owner = [], Acquired = 0, Expires = 10\<rparr>)]"

lemma sample_transactional: "providers_transactional sample_api (\<lambda>tx. tx)"
  by (auto simp: providers_transactional_def sample_api_def tx_contract_def counter_provider_def split: if_splits)


text \<open>A deletion of feature 7, at moments that differ in the locks and the number of writes.\<close>

lemma sample_delete_run:
  assumes "\<not> mem_IsLocked 0 (locks 0) ''roads'' 7"
  shows "mutation_entry serveDeleteItem sample_api sample_request (\<lambda>k. sample_moment (locks k) (n k)) =
    (let r = execute_at sample_api sample_request (sample_moment (locks 1) (n 1)) sample_delete in
     \<lparr>run_Response = (case not_committed r of Some rs \<Rightarrow> rs
        | None \<Rightarrow> writeMutationReceiptHeaders (x_receipt r) (writeError 204 [])), run_Write = Some (sample_delete, 1, r)\<rparr>)"
proof -
  have "parseFeatureIDParam ''7'' = Some 7"
    by (simp add: parseFeatureIDParam_def decimalDigits_def is_digit_def ParseUint_def digits_val_def digit_val_def)
  moreover have "(base_mutation MutationDelete ''roads'' [])\<lparr>m_FeatureID := 7, m_IfRevision := revisionFromETag []\<rparr> = sample_delete"
    by (simp add: base_mutation_def sample_delete_def revisionFromETag_def)
  ultimately show ?thesis
    using assms by (simp add: mutation_entry_def serveDeleteItem_def sample_api_def sample_request_def sample_moment_def Let_def
      selectedItemQuery_def AllowsOperation_def ToLower_def checkWFSLock_def param_get_def IsLocked_def checkPrecondition_def)
qed

lemma sample_execute:
  "let r = execute_at sample_api sample_request (sample_moment [] n) sample_delete in
   r_Status (x_receipt r) = CommitCommitted \<and> x_err r = None"
  by (simp add: execute_at_def ExecuteAll_def mutationCoordinator_def bind_one_def policyActionFor_def effective_policy_def
    sample_api_def sample_request_def sample_moment_def sample_delete_def writePolicy_def IsProductionAuth_def principal_of_def
    operation_name_def AllowsOperation_def ToLower_def resolve_schema_def validateMutationInput_def counter_provider_def
    finish_commit_def Let_def IsLocked_def mem_IsLocked_def bound_key_def notifyMutationCommit_def errors_Join_def)

section \<open>Properties\<close>

text \<open>
  C7. A write response tells the truth about the commit. A handler that did not reach the coordinator
  answers with an error status and no commit header. Otherwise the commit header is the status of the
  receipt; a success status means the mutation was applied to the stored data in one transaction, and
  an error status with a definite receipt means the stored data is unchanged.
\<close>

theorem rest_response_truthful:
  assumes "providers_transactional api view"
    and "h \<in> {serveCreateItem, serveReplaceItem, servePatchItem, serveDeleteItem}"
    and "run = mutation_entry h api rq w" and "rs = run_Response run"
  shows "case run_Write run of
      None \<Rightarrow> 400 \<le> rs_Status rs \<and> rs_Commit rs = None
    | Some (m, k, r) \<Rightarrow> rs_Commit rs = Some (commit_text (r_Status (x_receipt r))) \<and>
        (case r_Status (x_receipt r) of
           CommitCommitted \<Rightarrow> rs_Status rs \<in> {200, 201, 204} \<and> applied_at api view m (mo_db (w k)) (x_db r)
         | CommitNotCommitted \<Rightarrow> 400 \<le> rs_Status rs \<and> x_db r = mo_db (w k)
         | CommitUnknown \<Rightarrow> 400 \<le> rs_Status rs \<and> (x_db r = mo_db (w k) \<or> applied_at api view m (mo_db (w k)) (x_db r)))"
proof -
  have "truthful api rq w (h api rq w)"
    using assms(2) truthful_create truthful_replace truthful_patch truthful_delete by blast
  then have t: "truthful api rq w run"
    using assms(3) by (auto simp: mutation_entry_def Let_def truthful_refuse refusal_status split: sum.split)
  show ?thesis
  proof (cases "run_Write run")
    case None
    with t assms(4) show ?thesis by (simp add: truthful_def)
  next
    case (Some x)
    obtain m k r where x: "x = (m, k, r)" by (metis prod_cases3)
    with Some t have r: "r = execute_at api rq (w k) m" by (simp add: truthful_def)
    have "case r_Status (x_receipt r) of
        CommitCommitted \<Rightarrow> applied_at api view m (mo_db (w k)) (x_db r)
      | CommitNotCommitted \<Rightarrow> x_db r = mo_db (w k)
      | CommitUnknown \<Rightarrow> x_db r = mo_db (w k) \<or> applied_at api view m (mo_db (w k)) (x_db r)"
      unfolding r by (rule execute_at_outcome [OF assms(1)])
    with t Some x assms(4) show ?thesis by (cases "r_Status (x_receipt r)") (auto simp: truthful_def)
  qed
qed

theorem rest_response_truthful_witness:
  "let run = mutation_entry serveDeleteItem sample_api sample_request (\<lambda>k. sample_moment [] 3);
       r = execute_at sample_api sample_request (sample_moment [] 3) sample_delete
   in run_Write run = Some (sample_delete, 1, r) \<and> rs_Status (run_Response run) = 204 \<and>
     rs_Commit (run_Response run) = Some ''committed'' \<and> applied_at sample_api (\<lambda>tx. tx) sample_delete 3 (x_db r)"
proof -
  let ?run = "mutation_entry serveDeleteItem sample_api sample_request (\<lambda>k. sample_moment [] 3)"
  have "\<not> mem_IsLocked 0 [] ''roads'' 7" by (simp add: mem_IsLocked_def)
  note run = sample_delete_run [of "\<lambda>_. []" "\<lambda>_. 3", OF this]
  have nc: "not_committed (execute_at sample_api sample_request (sample_moment [] 3) sample_delete) = None"
    using sample_execute [of 3] by (simp add: not_committed_def mutationReceiptError_def Let_def)
  have "mo_db (sample_moment [] 3) = 3" by (simp add: sample_moment_def)
  then show ?thesis
    using rest_response_truthful [OF sample_transactional, of serveDeleteItem ?run sample_request "\<lambda>k. sample_moment [] 3"]
      sample_execute [of 3] nc
    unfolding run Let_def by simp
qed

text \<open>
  C10. Locked features are not written. A replacement, update or deletion of a feature that is locked when
  the request arrives is refused without an execution, and one whose feature is locked when the
  transaction runs is not committed and leaves the stored data as it was.
\<close>

theorem locked_feature_not_written:
  assumes "providers_transactional api view"
    and "h \<in> {serveReplaceItem, servePatchItem, serveDeleteItem}"
    and "parseFeatureIDParam (rq_Feature rq) = Some i"
    and "locked = (\<lambda>k. IsLocked (mo_fault (w k)) (mo_now (w k)) (mo_locks (w k)) (rq_Collection rq) i)"
  shows "case run_Write (mutation_entry h api rq w) of
      None \<Rightarrow> True
    | Some (m, k, r) \<Rightarrow> \<not> locked 0 \<and> (if locked k then x_db r = mo_db (w k) \<and> r_Status (x_receipt r) = CommitNotCommitted else True)"
proof (cases "run_Write (mutation_entry h api rq w)")
  case (Some x)
  obtain m k r where x: "x = (m, k, r)" by (metis prod_cases3)
  obtain oper where "checked_write api rq w oper m k" using checked_any assms(2) Some x by blast
  then have c: "m_FeatureID m = i" "m_Collection m = rq_Collection rq" "checkWFSLock rq (w 0) (rq_Collection rq) i = None"
    using assms(3) by (auto simp: checked_write_def)
  have "\<not> locked 0" using c(3) by (auto simp: checkWFSLock_def assms(4) split: if_splits)
  moreover have "x_db r = mo_db (w k) \<and> r_Status (x_receipt r) = CommitNotCommitted" if "locked k"
    using execute_at_locked [OF assms(1), of "w k" m rq] that c any_execute [OF assms(2)] Some x by (simp add: assms(4))
  ultimately show ?thesis using Some x by simp
qed simp

theorem locked_feature_not_written_witness:
  "let w = (\<lambda>k. sample_moment (if k = 0 then [] else sample_lock) 3);
       r = execute_at sample_api sample_request (w 1) sample_delete
   in run_Write (mutation_entry serveDeleteItem sample_api sample_request w) = Some (sample_delete, 1, r) \<and>
     x_db r = 3 \<and> r_Status (x_receipt r) = CommitNotCommitted"
proof -
  let ?w = "\<lambda>k. sample_moment (if k = (0 :: nat) then [] else sample_lock) 3"
  have "\<not> mem_IsLocked 0 ((\<lambda>k :: nat. if k = 0 then [] else sample_lock) 0) ''roads'' 7" by (simp add: mem_IsLocked_def)
  note run = sample_delete_run [of "\<lambda>k. if k = 0 then [] else sample_lock" "\<lambda>_. 3", OF this]
  have i: "parseFeatureIDParam (rq_Feature sample_request) = Some 7"
    by (simp add: sample_request_def parseFeatureIDParam_def decimalDigits_def is_digit_def ParseUint_def digits_val_def digit_val_def)
  have l: "IsLocked (mo_fault (?w 1)) (mo_now (?w 1)) (mo_locks (?w 1)) (rq_Collection sample_request) 7"
    by (simp add: sample_moment_def sample_request_def sample_lock_def IsLocked_def mem_IsLocked_def)
  have "mo_db (sample_moment sample_lock 3) = 3" by (simp add: sample_moment_def)
  then show ?thesis
    using locked_feature_not_written [OF sample_transactional _ i refl, of serveDeleteItem ?w] l
    unfolding run Let_def by simp
qed

end
