(* ===== verification/Gpkg_Geometry.thy ===== *)
theory Gpkg_Geometry
  imports Feature_Mutation
begin

text \<open>
  Geometries in a GeoPackage: bounds, the binary header of \<^verbatim>\<open>src/provider/gpkg/binary_header.go\<close> and
  the storage encoding of \<^verbatim>\<open>src/provider/gpkg/mutation_ops.go\<close>. A \<^verbatim>\<open>float64\<close> is its 64 bits. The WKB
  and WKT codecs, the projections and the MOS codec are arguments.
\<close>

unbundle bit_operations_syntax

section \<open>Floating-point comparison\<close>

type_synonym float64 = "64 word"

definition f64_nan :: "float64 \<Rightarrow> bool" where
  "f64_nan a \<longleftrightarrow> uint a mod 2 ^ 63 > 0x7FF0000000000000"

definition f64_key :: "float64 \<Rightarrow> int" where
  "f64_key a = (if uint a < 2 ^ 63 then uint a else - (uint a - 2 ^ 63))"

text \<open>The operator \<open><\<close>: false when an operand is not a number, and the two zeros are equal.\<close>

definition f64_less :: "float64 \<Rightarrow> float64 \<Rightarrow> bool" where
  "f64_less a b \<longleftrightarrow> \<not> f64_nan a \<and> \<not> f64_nan b \<and> f64_key a < f64_key b"

section \<open>Geometries and their bounds\<close>

type_synonym pt = "float64 \<times> float64"

datatype geom =
    GPoint pt
  | GMultiPoint "pt list"
  | GLineString "pt list"
  | GMultiLineString "pt list list"
  | GPolygon "pt list list"
  | GMultiPolygon "pt list list list"
  | GCollection "geom list"
  | GOther string

text \<open>The points of a geometry in order; \<open>None\<close> for a type the geometry library does not know.\<close>

primrec GetCoordinates :: "geom \<Rightarrow> pt list option" where
  "GetCoordinates (GPoint p) = Some [p]"
| "GetCoordinates (GMultiPoint ps) = Some ps"
| "GetCoordinates (GLineString ps) = Some ps"
| "GetCoordinates (GMultiLineString ls) = Some (concat ls)"
| "GetCoordinates (GPolygon rs) = Some (concat rs)"
| "GetCoordinates (GMultiPolygon qs) = Some (concat (concat qs))"
| "GetCoordinates (GCollection gs) =
     (let cs = map GetCoordinates gs in if List.member cs None then None else Some (concat (map the cs)))"
| "GetCoordinates (GOther t) = None"

text \<open>An envelope: least and greatest x, least and greatest y.\<close>

type_synonym bounds = "float64 \<times> float64 \<times> float64 \<times> float64"

definition extend_bounds :: "bounds \<Rightarrow> pt \<Rightarrow> bounds" where
  "extend_bounds b p = (case (b, p) of ((minx, maxx, miny, maxy), (x, y)) \<Rightarrow>
     (if f64_less x minx then x else minx, if f64_less maxx x then x else maxx,
      if f64_less y miny then y else miny, if f64_less maxy y then y else maxy))"

definition geometryBounds :: "geom \<Rightarrow> string + bounds" where
  "geometryBounds g = (case GetCoordinates g of
       None \<Rightarrow> Inl ''unknown Geometry''
     | Some [] \<Rightarrow> Inl ''empty geometry has no bounds''
     | Some ((x, y) # ps) \<Rightarrow> Inr (foldl extend_bounds (x, x, y, y) ps))"

definition geometryEnvelope :: "geom \<Rightarrow> float64 list option" where
  "geometryEnvelope g = (case GetCoordinates g of
       None \<Rightarrow> None
     | Some [] \<Rightarrow> None
     | Some ((x, y) # ps) \<Rightarrow> (case foldl extend_bounds (x, x, y, y) ps of (minX, maxX, minY, maxY) \<Rightarrow> Some [minX, maxX, minY, maxY]))"

section \<open>The binary header\<close>

text \<open>\<^verbatim>\<open>encoding/binary\<close>: the bytes of a number, least significant first.\<close>

definition put_le :: "nat \<Rightarrow> nat \<Rightarrow> string" where
  "put_le n v = map (\<lambda>k. char_of (v div 256 ^ k mod 256)) [0..<n]"

fun get_le :: "string \<Rightarrow> nat" where
  "get_le [] = 0"
| "get_le (c # cs) = byte c + 256 * get_le cs"

definition get_be :: "string \<Rightarrow> nat" where
  "get_be s = get_le (rev s)"

definition encodeGPKGGeometry :: "string \<Rightarrow> 32 word \<Rightarrow> float64 list option \<Rightarrow> string" where
  "encodeGPKGGeometry rawWKB srsID envelope =
     (let flags0 = (0x01 OR push_bit 1 0x01 :: 8 word);
          flags = (case envelope of None \<Rightarrow> flags0 AND NOT 0x0E | Some _ \<Rightarrow> flags0)
      in [CHR 0x47, CHR 0x50, CHR 0x00, char_of (unat flags)] @ put_le 4 (unat srsID) @
         (case envelope of None \<Rightarrow> [] | Some vs \<Rightarrow> concat (map (\<lambda>v. put_le 8 (unat v)) vs)) @ rawWKB)"

datatype envelopeType =
  EnvelopeTypeNone | EnvelopeTypeXY | EnvelopeTypeXYZ | EnvelopeTypeXYM | EnvelopeTypeXYZM | EnvelopeTypeInvalid

fun NumberOfElements :: "envelopeType \<Rightarrow> int" where
  "NumberOfElements EnvelopeTypeNone = 0"
| "NumberOfElements EnvelopeTypeXY = 4"
| "NumberOfElements EnvelopeTypeXYZ = 6"
| "NumberOfElements EnvelopeTypeXYM = 6"
| "NumberOfElements EnvelopeTypeXYZM = 8"
| "NumberOfElements EnvelopeTypeInvalid = - 1"

type_synonym headerFlags = "8 word"

definition little_endian :: "headerFlags \<Rightarrow> bool" where
  "little_endian hf \<longleftrightarrow> hf AND 0x01 \<noteq> 0"

definition Flags_Envelope :: "headerFlags \<Rightarrow> envelopeType" where
  "Flags_Envelope hf =
     (let et = drop_bit 1 (hf AND 0x0E) in
      if et = 0 then EnvelopeTypeNone else if et = 1 then EnvelopeTypeXY else if et = 2 then EnvelopeTypeXYZ
      else if et = 3 then EnvelopeTypeXYM else if et = 4 then EnvelopeTypeXYZM else EnvelopeTypeInvalid)"

definition IsEmpty :: "headerFlags \<Rightarrow> bool" where
  "IsEmpty hf \<longleftrightarrow> drop_bit 4 (hf AND 0x10) = 1"

definition IsStandard :: "headerFlags \<Rightarrow> bool" where
  "IsStandard hf \<longleftrightarrow> drop_bit 5 (hf AND 0x20) = 0"

record BinaryHeader =
  bh_flags :: headerFlags
  bh_srsid :: "32 word"
  bh_envelope :: "float64 list"

datatype header_error =
  HeaderTooShort | InvalidMagic | InvalidVersion nat | ReservedFlags headerFlags | InvalidEnvelope

definition header_floats :: "(string \<Rightarrow> nat) \<Rightarrow> nat \<Rightarrow> string \<Rightarrow> float64 list" where
  "header_floats get num bytes = map (\<lambda>i. of_nat (get (take 8 (drop (i * 8) bytes)))) [0..<num]"

definition NewBinaryHeader :: "string \<Rightarrow> header_error + BinaryHeader" where
  "NewBinaryHeader data =
     (if length data < 8 then Inl HeaderTooShort
      else if data ! 0 \<noteq> CHR 0x47 \<or> data ! 1 \<noteq> CHR 0x50 then Inl InvalidMagic
      else if data ! 2 \<noteq> CHR 0x00 then Inl (InvalidVersion (byte (data ! 2)))
      else
        let flags = (of_nat (byte (data ! 3)) :: headerFlags) in
        if flags AND 0xC0 \<noteq> 0 then Inl (ReservedFlags flags)
        else
          let get = (if little_endian flags then get_le else get_be);
              srsid = of_nat (get (take 4 (drop 4 data)));
              bytes = drop 8 data;
              et = Flags_Envelope flags
          in if et = EnvelopeTypeInvalid then Inl InvalidEnvelope
             else if et = EnvelopeTypeNone then Inr \<lparr>bh_flags = flags, bh_srsid = srsid, bh_envelope = []\<rparr>
             else
               let num = nat (NumberOfElements et) in
               if length bytes < num * 8 then Inl HeaderTooShort
               else Inr \<lparr>bh_flags = flags, bh_srsid = srsid, bh_envelope = header_floats get num bytes\<rparr>)"

definition header_Size :: "BinaryHeader \<Rightarrow> nat" where
  "header_Size h = length (bh_envelope h) * 8 + 8"

section \<open>Admitted types and projections\<close>

fun geom_type_name :: "geom \<Rightarrow> string" where
  "geom_type_name (GPoint _) = ''point''"
| "geom_type_name (GLineString _) = ''linestring''"
| "geom_type_name (GPolygon _) = ''polygon''"
| "geom_type_name (GMultiPoint _) = ''multipoint''"
| "geom_type_name (GMultiLineString _) = ''multilinestring''"
| "geom_type_name (GMultiPolygon _) = ''multipolygon''"
| "geom_type_name (GCollection _) = ''geometry''"
| "geom_type_name (GOther t) = ''geometry''"

definition normalizeGeomType :: "geom \<Rightarrow> string" where
  "normalizeGeomType g = geom_type_name g"

definition checkGeometryType :: "geom \<Rightarrow> string \<Rightarrow> go_error option" where
  "checkGeometryType g admitted = (case g of
       GCollection _ \<Rightarrow> Some (MutationError MutationErrMalformedInput (Reason ''unsupported geometry type geom.Collection''))
     | GOther t \<Rightarrow> Some (MutationError MutationErrMalformedInput (Reason (''unsupported geometry type '' @ t)))
     | _ \<Rightarrow>
         let got = geom_type_name g in
         if admitted \<noteq> [] \<and> admitted \<noteq> ''geometry'' \<and> got \<noteq> admitted
         then Some (MutationError MutationErrSchemaViolation (Reason (''geometry type '' @ [CHR 0x22] @ got @ [CHR 0x22] @
           '' not admitted for '' @ [CHR 0x22] @ admitted @ [CHR 0x22] @ '' layer'')))
         else None)"

text \<open>The first error of a conversion applied along a list.\<close>

fun each_result :: "('a \<Rightarrow> 'e + 'b) \<Rightarrow> 'a list \<Rightarrow> 'e + 'b list" where
  "each_result f [] = Inr []"
| "each_result f (x # xs) = (case f x of
     Inl e \<Rightarrow> Inl e
   | Inr y \<Rightarrow> (case each_result f xs of Inl e \<Rightarrow> Inl e | Inr ys \<Rightarrow> Inr (y # ys)))"

definition on_result :: "('a \<Rightarrow> 'b) \<Rightarrow> 'e + 'a \<Rightarrow> 'e + 'b" where
  "on_result f r = (case r of Inl e \<Rightarrow> Inl e | Inr x \<Rightarrow> Inr (f x))"

text \<open>The codecs and projections, with the texts of their errors.\<close>

record codecs =
  wkb_Decode :: "string \<Rightarrow> string + geom"
  wkb_Encode :: "geom \<Rightarrow> string + string"
  wkt_Encode :: "geom \<Rightarrow> string + string"
  wkt_Decode :: "string \<Rightarrow> string + geom"
  proj_Convert :: "pt \<Rightarrow> string + pt"
  proj_Inverse :: "pt \<Rightarrow> string + pt"
  EncodeMOSStorage :: "geom \<Rightarrow> string + string \<times> geom"
  mos_Decode :: "string \<Rightarrow> string + geom"

text \<open>Reading a stored geometry back: a header that marks the geometry as empty stands for no geometry.\<close>

datatype decode_error = HeaderError header_error | WKBError string

definition decodeGeometry :: "codecs \<Rightarrow> string \<Rightarrow> decode_error + BinaryHeader \<times> geom option" where
  "decodeGeometry cd bytes = (case NewBinaryHeader bytes of
       Inl e \<Rightarrow> Inl (HeaderError e)
     | Inr h \<Rightarrow>
         if IsEmpty (bh_flags h) then Inr (h, None)
         else (case wkb_Decode cd (drop (header_Size h) bytes) of
             Inl e \<Rightarrow> Inl (WKBError e)
           | Inr g \<Rightarrow> Inr (h, Some g)))"

definition text_error :: "string + 'a \<Rightarrow> go_error + 'a" where
  "text_error r = (case r of Inl e \<Rightarrow> Inl (OtherError e) | Inr x \<Rightarrow> Inr x)"

definition transform4326_3857 :: "codecs \<Rightarrow> geom \<Rightarrow> bool \<Rightarrow> go_error + geom" where
  "transform4326_3857 cd g forward =
     (let xform = (\<lambda>p. text_error (if forward then proj_Convert cd p else proj_Inverse cd p));
          mapPts = each_result xform
      in case g of
           GPoint p \<Rightarrow> on_result GPoint (xform p)
         | GMultiPoint ps \<Rightarrow> on_result GMultiPoint (mapPts ps)
         | GLineString ps \<Rightarrow> on_result GLineString (mapPts ps)
         | GMultiLineString ls \<Rightarrow> on_result GMultiLineString (each_result mapPts ls)
         | GPolygon rs \<Rightarrow> on_result GPolygon (each_result mapPts rs)
         | GMultiPolygon qs \<Rightarrow> on_result GMultiPolygon (each_result (each_result mapPts) qs)
         | GCollection _ \<Rightarrow> Inl (MutationError MutationErrUnsupportedCapability (Reason ''cannot reproject geometry type geom.Collection''))
         | GOther t \<Rightarrow> Inl (MutationError MutationErrUnsupportedCapability (Reason (''cannot reproject geometry type '' @ t))))"

definition transformGeometry :: "codecs \<Rightarrow> geom \<Rightarrow> u64 \<Rightarrow> u64 \<Rightarrow> go_error + geom" where
  "transformGeometry cd g from_srid to_srid =
     (if from_srid = to_srid then Inr g
      else if from_srid = 4326 \<and> to_srid = 3857 \<or> from_srid = 3857 \<and> to_srid = 4326
      then transform4326_3857 cd g (from_srid = 4326)
      else Inl (MutationError MutationErrUnsupportedCapability (Reason (''CRS transform '' @ FormatUint (unat from_srid) @ '' -> '' @
        FormatUint (unat to_srid) @ '' not supported by this writer profile''))))"

section \<open>The storage encoding\<close>

text \<open>What of a layer the encoding depends on; \<open>gl_projection\<close> is its own projection, if it has one.\<close>

record geometry_layer =
  gl_type :: string
  gl_format :: string
  gl_srid :: u64
  gl_projection :: "(geom \<Rightarrow> u64 \<Rightarrow> go_error + geom) option"

definition malformed :: "string \<Rightarrow> go_error" where
  "malformed s = MutationError MutationErrMalformedInput (Reason s)"

text \<open>The bytes, or the text, to store, and the bounds to index.\<close>

definition store_geometry :: "codecs \<Rightarrow> geometry_layer \<Rightarrow> geom \<Rightarrow> bounds \<Rightarrow> string \<Rightarrow> go_error + string \<times> string \<times> bounds" where
  "store_geometry cd gl g bounds rawWKB =
     (if gl_format gl = ''gpkg'' \<or> gl_format gl = []
      then Inr (encodeGPKGGeometry rawWKB (ucast (gl_srid gl)) (geometryEnvelope g), [], bounds)
      else if gl_format gl = ''wkb'' then Inr (rawWKB, [], bounds)
      else if gl_format gl = ''wkt''
      then (case wkt_Encode cd g of
              Inl e \<Rightarrow> Inl (malformed (''WKT encode: '' @ e))
            | Inr t \<Rightarrow> (case wkt_Decode cd t of
                Inl e \<Rightarrow> Inl (WrapError ''decode stored WKT'' (OtherError e))
              | Inr stored \<Rightarrow> (case geometryBounds stored of
                  Inl e \<Rightarrow> Inl (WrapError ''stored WKT bounds'' (OtherError e))
                | Inr b \<Rightarrow> Inr ([], t, b))))
      else if gl_format gl = ''mos''
      then (case EncodeMOSStorage cd g of
              Inl e \<Rightarrow> Inl (malformed (''MOS encode: '' @ e))
            | Inr (blob, stored) \<Rightarrow> (case geometryBounds stored of
                Inl e \<Rightarrow> Inl (OtherError e)
              | Inr b \<Rightarrow> Inr (blob, [], b)))
      else Inl (MutationError MutationErrUnsupportedCapability (Reason (''geometry format '' @ gl_format gl))))"

definition project_geometry :: "codecs \<Rightarrow> geometry_layer \<Rightarrow> geom \<Rightarrow> u64 \<Rightarrow> go_error + geom" where
  "project_geometry cd gl g inputSRID = (case gl_projection gl of
       Some f \<Rightarrow> f g inputSRID
     | None \<Rightarrow>
         let srid = (if inputSRID = 0 then gl_srid gl else inputSRID) in
         if srid \<noteq> gl_srid gl then transformGeometry cd g srid (gl_srid gl) else Inr g)"

definition encodeStorageGeometry ::
  "codecs \<Rightarrow> geometry_layer \<Rightarrow> string \<Rightarrow> u64 \<Rightarrow> go_error + string \<times> string \<times> bounds" where
  "encodeStorageGeometry cd gl wkbBytes inputSRID = (case wkb_Decode cd wkbBytes of
       Inl e \<Rightarrow> Inl (malformed (''invalid WKB geometry: '' @ e))
     | Inr g0 \<Rightarrow> (case checkGeometryType g0 (gl_type gl) of
         Some e \<Rightarrow> Inl e
       | None \<Rightarrow> (case project_geometry cd gl g0 inputSRID of
           Inl e \<Rightarrow> Inl e
         | Inr g \<Rightarrow> (case geometryBounds g of
             Inl e \<Rightarrow> Inl (malformed (''geometry bounds: '' @ e))
           | Inr bounds \<Rightarrow> (case wkb_Encode cd g of
               Inl e \<Rightarrow> Inl (malformed (''WKB encode: '' @ e))
             | Inr rawWKB \<Rightarrow> store_geometry cd gl g bounds rawWKB)))))"

definition nativeMOSBounds :: "codecs \<Rightarrow> string \<Rightarrow> go_error + bounds" where
  "nativeMOSBounds cd blob = (case mos_Decode cd blob of
       Inl e \<Rightarrow> Inl (OtherError e)
     | Inr g \<Rightarrow> text_error (geometryBounds g))"

end
