(* ===== verification/Revision_Store.thy ===== *)
theory Revision_Store
  imports Feature_Mutation
begin

text \<open>
  Revision tracking, \<^verbatim>\<open>src/provider/audit/revision.go\<close>, with the readers and the fail-fast checks the
  three database providers put in front of it. The table \<^verbatim>\<open>tegola_revisions\<close> is a map from a
  collection and a feature to its revision and incarnation; a storage failure of a statement is an
  argument, given by the text of the driver's error.
\<close>

section \<open>The table and its statements\<close>

type_synonym rev_table = "string \<times> u64 \<rightharpoonup> int \<times> int"

datatype rev_stmt =
    SelectRevision | UpsertRevision | SelectIncarnation | InsertTombstone | UpdateIncarnation
  | MaterializeZero | LockRevision | IncrementRevision | ReadRevision | SelectCAS

type_synonym rev_fault = "rev_stmt \<Rightarrow> string option"

definition strings_Contains :: "string \<Rightarrow> string \<Rightarrow> bool" where
  "strings_Contains s t \<longleftrightarrow> list_ex (\<lambda>i. take (length t) (drop i s) = t) [0..<Suc (length s)]"

definition FormatInt :: "int \<Rightarrow> string" where
  "FormatInt n = (if n < 0 then ''-'' @ FormatUint (nat (- n)) else FormatUint (nat n))"

text \<open>Addition of \<^verbatim>\<open>int64\<close> values, which wraps around.\<close>

definition int64_add :: "int \<Rightarrow> int \<Rightarrow> int" where
  "int64_add a b = (a + b + 2 ^ 63) mod 2 ^ 64 - 2 ^ 63"

definition IsMissingTable :: "string \<Rightarrow> bool" where
  "IsMissingTable msg \<longleftrightarrow> strings_Contains msg ''no such table'' \<or>
     strings_Contains msg (''doesn'' @ [CHR 0x27] @ ''t exist'') \<or> strings_Contains msg ''does not exist''"

section \<open>Revision tokens\<close>

definition invalid_revision :: go_error where
  "invalid_revision = MutationError MutationErrMalformedInput (Reason ''invalid revision'')"

text \<open>A token is an incarnation and a revision.\<close>

definition ParseRevision :: "string \<Rightarrow> go_error + int \<times> int" where
  "ParseRevision value =
     (let parts = split_on (CHR ''.'') value;
          parts = (if length parts = 1 then ''0'' # parts else parts)
      in if length parts \<noteq> 2 then Inl invalid_revision
         else (case (ParseInt 64 (parts ! 0), ParseInt 64 (parts ! 1)) of
             (Some inc, Some rv) \<Rightarrow> if inc < 0 \<or> rv < 0 then Inl invalid_revision else Inr (inc, rv)
           | _ \<Rightarrow> Inl invalid_revision))"

definition revision_token :: "int \<Rightarrow> int \<Rightarrow> string" where
  "revision_token inc rv = FormatInt inc @ ''.'' @ FormatInt rv"

definition formatIncarnationRevision :: "int \<Rightarrow> int \<Rightarrow> string" where
  "formatIncarnationRevision inc rv = (if rv < 0 then [] else revision_token inc rv)"

section \<open>Check and bump\<close>

record RevisionBump =
  rb_Old :: int
  rb_New :: int
  rb_OldInc :: int
  rb_NewInc :: int

definition no_bump :: RevisionBump where
  "no_bump = \<lparr>rb_Old = - 1, rb_New = - 1, rb_OldInc = 0, rb_NewInc = 0\<rparr>"

definition unenforceable :: go_error where
  "unenforceable = MutationError MutationErrUnsupportedCapability
     (Reason ''revision precondition requires tegola_revisions table (run migration)'')"

definition CheckAndBumpRevisionSQL ::
  "rev_fault \<Rightarrow> rev_table \<Rightarrow> string \<Rightarrow> u64 \<Rightarrow> string \<Rightarrow> (go_error + RevisionBump) \<times> rev_table" where
  "CheckAndBumpRevisionSQL fault t collection featureID want = (case fault SelectRevision of
       Some msg \<Rightarrow>
         if IsMissingTable msg then (if want \<noteq> [] then (Inl unenforceable, t) else (Inr no_bump, t))
         else (Inl (MutationError MutationErrExecutionFailed (Reason (''revision read: '' @ msg))), t)
     | None \<Rightarrow>
         let found = (t (collection, featureID) \<noteq> None);
             (cur, curInc) = (case t (collection, featureID) of Some x \<Rightarrow> x | None \<Rightarrow> (0, 0));
             refusal = (if want = [] then None else (case ParseRevision want of
                 Inl e \<Rightarrow> Some e
               | Inr (wantInc, wantRev) \<Rightarrow>
                   if wantRev \<noteq> cur \<or> wantInc \<noteq> curInc
                   then Some (MutationError MutationErrPreconditionFailed (Reason (''revision mismatch: have '' @
                     revision_token curInc cur @ '', want '' @ revision_token wantInc wantRev)))
                   else None))
         in (case refusal of
             Some e \<Rightarrow> (Inl e, t)
           | None \<Rightarrow>
               let newRev = (if found then int64_add cur 1 else 1);
                   newInc = (if found then curInc else 0)
               in (case fault UpsertRevision of
                   Some msg \<Rightarrow>
                     if IsMissingTable msg then (Inr no_bump, t)
                     else (Inl (MutationError MutationErrExecutionFailed (Reason (''revision bump: '' @ msg))), t)
                 | None \<Rightarrow>
                     (Inr \<lparr>rb_Old = cur, rb_New = newRev, rb_OldInc = curInc, rb_NewInc = newInc\<rparr>,
                      t((collection, featureID) \<mapsto> (newRev, newInc))))))"

definition BumpIncarnationOnDelete ::
  "rev_fault \<Rightarrow> rev_table \<Rightarrow> string \<Rightarrow> u64 \<Rightarrow> go_error option \<times> rev_table" where
  "BumpIncarnationOnDelete fault t collection featureID = (case fault SelectIncarnation of
       Some msg \<Rightarrow> if IsMissingTable msg then (None, t) else (Some (OtherError msg), t)
     | None \<Rightarrow> (case t (collection, featureID) of
         None \<Rightarrow> (case fault InsertTombstone of
             Some msg \<Rightarrow> (Some (OtherError msg), t)
           | None \<Rightarrow> (None, t((collection, featureID) \<mapsto> (0, 1))))
       | Some (rv, inc) \<Rightarrow> (case fault UpdateIncarnation of
             Some msg \<Rightarrow> (Some (OtherError msg), t)
           | None \<Rightarrow> (None, t((collection, featureID) \<mapsto> (0, inc + 1))))))"

text \<open>The PostGIS provider inserts revision zero first, so that the row it then locks exists.\<close>

definition materialize :: "rev_table \<Rightarrow> string \<times> u64 \<Rightarrow> rev_table" where
  "materialize t k = (case t k of None \<Rightarrow> t(k \<mapsto> (0, 0)) | Some _ \<Rightarrow> t)"

definition pg_checkAndBumpRevision ::
  "rev_fault \<Rightarrow> rev_table \<Rightarrow> string \<Rightarrow> u64 \<Rightarrow> string \<Rightarrow> (go_error + RevisionBump) \<times> rev_table" where
  "pg_checkAndBumpRevision fault t collection featureID want = (case fault MaterializeZero of
       Some msg \<Rightarrow> (Inl (OtherError msg), t)
     | None \<Rightarrow>
         let t1 = materialize t (collection, featureID) in
         (case (fault LockRevision, t1 (collection, featureID)) of
            (Some msg, _) \<Rightarrow> (Inl (OtherError msg), t1)
          | (None, None) \<Rightarrow> (Inl (OtherError ''no rows in result set''), t1)
          | (None, Some (cur, inc)) \<Rightarrow>
              let refusal = (if want = [] then None else (case ParseRevision want of
                    Inl e \<Rightarrow> Some e
                  | Inr (wi, wr) \<Rightarrow> if wi \<noteq> inc \<or> wr \<noteq> cur
                      then Some (MutationError MutationErrPreconditionFailed (Reason ''revision mismatch'')) else None))
              in (case refusal of
                  Some e \<Rightarrow> (Inl e, t1)
                | None \<Rightarrow> (case fault IncrementRevision of
                      Some msg \<Rightarrow> (Inl (OtherError msg), t1)
                    | None \<Rightarrow>
                        (Inr \<lparr>rb_Old = cur, rb_New = int64_add cur 1, rb_OldInc = inc, rb_NewInc = inc\<rparr>,
                         t1((collection, featureID) \<mapsto> (cur + 1, inc)))))))"

section \<open>Fail-fast checks and readers\<close>

definition gpkg_mapSQLError :: "string \<Rightarrow> go_error" where
  "gpkg_mapSQLError msg =
     (if strings_Contains msg ''UNIQUE constraint failed''
      then MutationError MutationErrPreconditionFailed (Reason ''unique constraint violated'')
      else if strings_Contains msg ''NOT NULL constraint failed''
      then MutationError MutationErrSchemaViolation (Reason ''not-null constraint violated'')
      else if strings_Contains msg ''FOREIGN KEY constraint failed''
      then MutationError MutationErrSchemaViolation (Reason ''foreign key constraint violated'')
      else if strings_Contains msg ''database is locked'' \<or> strings_Contains msg ''database table is locked''
      then MutationError MutationErrLockConflict (Reason ''database is locked'')
      else MutationError MutationErrMalformedInput (Reason ''storage error''))"

definition gpkg_checkRevisionCAS :: "rev_fault \<Rightarrow> rev_table \<Rightarrow> string \<Rightarrow> u64 \<Rightarrow> string \<Rightarrow> go_error option" where
  "gpkg_checkRevisionCAS fault t collection featureID ifRevision =
     (if ifRevision = [] then None
      else
        let parts = split_on (CHR ''.'') ifRevision;
            (wantInc, wantRev) = (if length parts = 2 then (parts ! 0, parts ! 1) else (''0'', ifRevision))
        in (case fault SelectCAS of
            Some msg \<Rightarrow> Some (if IsMissingTable msg then unenforceable else gpkg_mapSQLError msg)
          | None \<Rightarrow> (case t (collection, featureID) of
              None \<Rightarrow>
                if wantRev \<noteq> ''0'' \<or> wantInc \<noteq> ''0''
                then Some (MutationError MutationErrPreconditionFailed (Reason (''revision mismatch: expected '' @ ifRevision @ '', got 0.0'')))
                else None
            | Some (curRev, curInc) \<Rightarrow>
                let curStr = revision_token curInc curRev; wantStr = wantInc @ ''.'' @ wantRev in
                if curStr \<noteq> wantStr
                then Some (MutationError MutationErrPreconditionFailed (Reason (''revision mismatch: expected '' @ wantStr @ '', got '' @ curStr)))
                else None)))"

definition mysql_mapSQLError :: "string \<Rightarrow> go_error" where
  "mysql_mapSQLError msg =
     (if strings_Contains msg ''Duplicate entry'' then MutationError MutationErrPreconditionFailed (Reason msg)
      else MutationError MutationErrExecutionFailed (Reason msg))"

text \<open>MySQL and PostGIS lock the row, created first if need be; they differ in the errors.\<close>

definition locking_checkRevisionCAS ::
  "(string \<Rightarrow> go_error) \<Rightarrow> rev_fault \<Rightarrow> rev_table \<Rightarrow> string \<Rightarrow> u64 \<Rightarrow> string \<Rightarrow> go_error option \<times> rev_table" where
  "locking_checkRevisionCAS map_error fault t collection featureID ifRevision = (case fault MaterializeZero of
       Some msg \<Rightarrow> (Some (map_error msg), t)
     | None \<Rightarrow>
         let t1 = materialize t (collection, featureID) in
         (case (fault LockRevision, t1 (collection, featureID)) of
            (Some msg, _) \<Rightarrow> (Some (map_error msg), t1)
          | (None, None) \<Rightarrow> (Some (map_error ''no rows in result set''), t1)
          | (None, Some (rv, inc)) \<Rightarrow>
              if ifRevision = [] then (None, t1)
              else (case ParseRevision ifRevision of
                  Inl e \<Rightarrow> (Some e, t1)
                | Inr (wantInc, wantRev) \<Rightarrow>
                    if wantInc \<noteq> inc \<or> wantRev \<noteq> rv
                    then (Some (MutationError MutationErrPreconditionFailed (Reason ''revision mismatch'')), t1)
                    else (None, t1))))"

definition mysql_checkRevisionCAS :: "rev_fault \<Rightarrow> rev_table \<Rightarrow> string \<Rightarrow> u64 \<Rightarrow> string \<Rightarrow> go_error option \<times> rev_table" where
  "mysql_checkRevisionCAS = locking_checkRevisionCAS mysql_mapSQLError"

definition pg_checkRevisionCAS :: "rev_fault \<Rightarrow> rev_table \<Rightarrow> string \<Rightarrow> u64 \<Rightarrow> string \<Rightarrow> go_error option \<times> rev_table" where
  "pg_checkRevisionCAS = locking_checkRevisionCAS OtherError"

text \<open>The reader's query for the revision of a row in a table.\<close>

definition read_revision :: "rev_fault \<Rightarrow> rev_table \<Rightarrow> string \<Rightarrow> u64 \<Rightarrow> go_error + string" where
  "read_revision fault t collection featureID = (case fault ReadRevision of
       Some msg \<Rightarrow> if IsMissingTable msg then Inr ''0.0'' else Inl (OtherError msg)
     | None \<Rightarrow> (case t (collection, featureID) of
         None \<Rightarrow> Inr ''0.0''
       | Some (rv, inc) \<Rightarrow> Inr (revision_token inc rv)))"

definition gpkg_CurrentRevision ::
  "(string \<Rightarrow> string option) \<Rightarrow> rev_fault \<Rightarrow> rev_table \<Rightarrow> string \<Rightarrow> u64 \<Rightarrow> go_error + string" where
  "gpkg_CurrentRevision layers fault t layer featureID = (case layers layer of
       None \<Rightarrow> Inr []
     | Some tablename \<Rightarrow>
         if unat featureID > 9223372036854775807 then Inr ''0.0''
         else read_revision fault t tablename featureID)"

definition mysql_CurrentRevision ::
  "(string \<Rightarrow> string option) \<Rightarrow> rev_fault \<Rightarrow> rev_table \<Rightarrow> string \<Rightarrow> u64 \<Rightarrow> go_error + string" where
  "mysql_CurrentRevision layers fault t layer featureID = (case layers layer of
       None \<Rightarrow> Inr []
     | Some tablename \<Rightarrow> read_revision fault t tablename featureID)"

definition quoteIdent :: "string \<Rightarrow> string" where
  "quoteIdent s = CHR 0x22 # concat (map (\<lambda>c. if c = CHR 0x22 then [c, c] else [c]) s) @ [CHR 0x22]"

definition pg_relation :: "string \<Rightarrow> string" where
  "pg_relation tablename =
     (case last_index_byte (CHR ''.'') tablename of
        None \<Rightarrow> quoteIdent ''public'' @ ''.'' @ quoteIdent tablename
      | Some i \<Rightarrow> quoteIdent (take i tablename) @ ''.'' @ quoteIdent (drop (i + 1) tablename))"

definition pg_CurrentRevision ::
  "(string \<Rightarrow> string option) \<Rightarrow> rev_fault \<Rightarrow> rev_table \<Rightarrow> string \<Rightarrow> u64 \<Rightarrow> go_error + string" where
  "pg_CurrentRevision layers fault t layer featureID = (case layers layer of
       None \<Rightarrow> Inr []
     | Some tablename \<Rightarrow> read_revision fault t (pg_relation tablename) featureID)"

end
