(* ===== verification/Gpkg_Writer.thy ===== *)
theory Gpkg_Writer
  imports Gpkg_Geometry Revision_Store Go_Utf8 "HOL-Library.AList"
begin

text \<open>
  The GeoPackage writer, \<^verbatim>\<open>src/provider/gpkg/mutation.go\<close>, \<^verbatim>\<open>mutation_ops.go\<close> and \<^verbatim>\<open>audit.go\<close>: one native
  transaction with its four data operations, the revision bump, the audit log and the outbox, and the
  upkeep of the spatial index and the contents table at commit. The database is a record of its
  tables; what the SQL engine decides (failures of statements, new row ids, column defaults, the
  affinity of columns, generated columns, triggers and foreign-key actions, the rounding of the
  index) is an argument.
\<close>

section \<open>The database\<close>

datatype sql_value = SqlNull | SqlInt int | SqlText string | SqlReal float64 | SqlBlob string

type_synonym row = "string \<Rightarrow> sql_value"

text \<open>The tables a user of the file defines, and their spatial indexes.\<close>

type_synonym table_rows = "string \<Rightarrow> u64 \<rightharpoonup> row"

type_synonym rtrees = "string \<rightharpoonup> (u64 \<rightharpoonup> bounds)"

record AuditEntry =
  ae_Timestamp :: string
  ae_Actor :: string
  ae_Collection :: string
  ae_Operation :: string
  ae_FeatureID :: u64
  ae_RevisionBefore :: string
  ae_RevisionAfter :: string
  ae_TransactionID :: string
  ae_RequestID :: string

record OutboxEvent =
  oe_Timestamp :: string
  oe_Type :: string
  oe_Collection :: string
  oe_FeatureID :: u64

text \<open>A row of \<^verbatim>\<open>gpkg_contents\<close>: when it last changed and the extent, if known.\<close>

record contents =
  ct_last_change :: string
  ct_extent :: "bounds option"

record gpkg_db =
  d_rows :: table_rows
  d_revisions :: rev_table
  d_audit :: "AuditEntry list"
  d_outbox :: "OutboxEvent list"
  d_rtree :: rtrees
  d_contents :: "string \<rightharpoonup> contents"

section \<open>Layers\<close>

record ColumnDescriptor =
  cd_Type :: string
  cd_Nullable :: bool
  cd_IsDefault :: bool
  cd_IsGenerated :: bool

record writeMapping =
  mp_createUnsupportedReason :: string
  mp_isMapplGIS :: bool
  mp_table :: string
  mp_idColumn :: string
  mp_geomColumn :: string
  mp_geometry :: geometry_layer
  mp_bboxColumns :: "string list"
  mp_columns :: "(string \<times> ColumnDescriptor) list"
  mp_writable :: "(string \<times> string) list"
  mp_readOnly :: "string list"
  mp_domain :: string

datatype gpkg_stmt =
    RevisionStmt rev_stmt | SelectExists | SelectRow | InsertRow | UpdateRow | DeleteRow | SelectDefault string
  | SelectCanonical | AuditInsert | OutboxInsert | BeginStmt | SetupStmt | RTreeStmt string | ContentsCount string | ContentsStmt string | CommitStmt

text \<open>
  The surroundings of a transaction. \<open>g_fault\<close> gives the error of a statement of the \<open>n\<close>-th operation,
  if it fails; \<open>g_commit_lost\<close> tells whether a failed commit took effect nevertheless;
  \<open>g_canonical\<close> is the check of a MOS rewrite against the stored value.

  \<open>g_affinity\<close> gives what a column stores for a bound value; \<open>g_react\<close> is what the engine does after
  a statement has written a row of a table, given the columns it set: it computes generated
  columns, fires triggers and carries out foreign-key actions, on any row and on the spatial
  indexes. Triggers that write the tables of the service itself are not considered.
\<close>

record gpkg_env =
  g_codecs :: codecs
  g_mapping :: "string \<Rightarrow> go_error + writeMapping"
  g_fault :: "nat \<Rightarrow> gpkg_stmt \<Rightarrow> string option"
  g_commit_lost :: bool
  g_newid :: "(u64 \<rightharpoonup> row) \<Rightarrow> int"
  g_default :: "string \<Rightarrow> string \<Rightarrow> sql_value"
  g_affinity :: "string \<Rightarrow> string \<Rightarrow> sql_value \<Rightarrow> sql_value"
  g_react :: "gpkg_stmt \<Rightarrow> string \<Rightarrow> u64 \<Rightarrow> string list \<Rightarrow> table_rows \<times> rtrees \<Rightarrow> table_rows \<times> rtrees"
  g_Sscanf :: "string \<Rightarrow> float64 option"
  g_int64 :: "float64 \<Rightarrow> int"
  g_isSystemInfo :: "sql_value \<Rightarrow> bool"
  g_canonical :: "writeMapping \<Rightarrow> sql_value \<Rightarrow> string \<Rightarrow> go_error option"
  g_rtree_round :: "bounds \<Rightarrow> bounds"
  g_rtree_extent :: "(u64 \<rightharpoonup> bounds) \<Rightarrow> bounds option"
  g_now :: string
  g_errorText :: "go_error \<Rightarrow> string"

section \<open>Values and assignments\<close>

definition ascii_upper :: "string \<Rightarrow> string" where
  "ascii_upper s = map ascii_upper_char s"

definition valueToSQL :: "gpkg_env \<Rightarrow> MutationValue \<Rightarrow> string \<Rightarrow> string + sql_value" where
  "valueToSQL env mv colType =
     (if mv_Null mv then Inr SqlNull
      else
        let upper = ascii_upper (TrimSpace colType) in
        case mv_Kind mv of
          MutationValueInteger \<Rightarrow> Inr (SqlInt (mv_Integer mv))
        | MutationValueDecimal \<Rightarrow>
            if strings_Contains upper ''REAL'' \<or> strings_Contains upper ''FLOAT'' \<or> strings_Contains upper ''DOUBLE''
            then (case g_Sscanf env (mv_Decimal mv) of
                    None \<Rightarrow> Inl (''invalid decimal '' @ [CHR 0x22] @ mv_Decimal mv @ [CHR 0x22])
                  | Some f \<Rightarrow> Inr (SqlReal f))
            else Inr (SqlText (mv_Decimal mv))
        | MutationValueString \<Rightarrow> if mv_Empty mv then Inr (SqlText []) else Inr (SqlText (mv_String mv))
        | MutationValueBoolean \<Rightarrow> Inr (SqlInt (if mv_Boolean mv then 1 else 0))
        | MutationValueUnset \<Rightarrow> Inl ''unsupported value kind'')"

definition column_type :: "writeMapping \<Rightarrow> string \<Rightarrow> string" where
  "column_type mp col = (case map_of (mp_columns mp) col of Some d \<Rightarrow> cd_Type d | None \<Rightarrow> [])"

text \<open>The assignments of the supplied properties, in the order they are visited.\<close>

fun property_assignments ::
  "gpkg_env \<Rightarrow> writeMapping \<Rightarrow> (string \<times> MutationValue) list \<Rightarrow> go_error + (string \<times> sql_value) list" where
  "property_assignments env mp [] = Inr []"
| "property_assignments env mp ((pub, mv) # ps) = (case map_of (mp_writable mp) pub of
     None \<Rightarrow> Inl (MutationError MutationErrSchemaViolation (Reason (''property '' @ [CHR 0x22] @ pub @ [CHR 0x22] @ '' is not writable'')))
   | Some col \<Rightarrow> (case valueToSQL env mv (column_type mp col) of
       Inl e \<Rightarrow> Inl (malformed e)
     | Inr v \<Rightarrow> (case property_assignments env mp ps of
         Inl e \<Rightarrow> Inl e
       | Inr rest \<Rightarrow> Inr ((col, v) # rest))))"

text \<open>The columns a replacement does not name take their default, or null.\<close>

fun default_assignments ::
  "gpkg_env \<Rightarrow> nat \<Rightarrow> writeMapping \<Rightarrow> string list \<Rightarrow> (string \<times> string) list \<Rightarrow> go_error + (string \<times> sql_value) list" where
  "default_assignments env n mp given [] = Inr []"
| "default_assignments env n mp given ((pub, col) # ws) =
     (if List.member given pub then default_assignments env n mp given ws
      else
        let deflt = (case map_of (mp_columns mp) col of Some d \<Rightarrow> cd_IsDefault d | None \<Rightarrow> False) in
        case (if deflt then g_fault env n (SelectDefault col) else None) of
          Some msg \<Rightarrow> Inl (OtherError msg)
        | None \<Rightarrow> (case default_assignments env n mp given ws of
            Inl e \<Rightarrow> Inl e
          | Inr rest \<Rightarrow> Inr ((col, if deflt then g_default env (mp_table mp) col else SqlNull) # rest)))"

definition has_bbox :: "writeMapping \<Rightarrow> bool" where
  "has_bbox mp \<longleftrightarrow> mp_bboxColumns mp \<noteq> [] \<and> hd (mp_bboxColumns mp) \<noteq> []"

definition bbox_assignments :: "gpkg_env \<Rightarrow> writeMapping \<Rightarrow> bounds \<Rightarrow> (string \<times> sql_value) list" where
  "bbox_assignments env mp b = (case b of (a, c, d, e) \<Rightarrow>
     zip (mp_bboxColumns mp) (map (\<lambda>v. SqlInt (g_int64 env v)) [a, c, d, e]))"

text \<open>The assignments of a supplied geometry, with the bounds to index.\<close>

definition geometry_assignments ::
  "gpkg_env \<Rightarrow> writeMapping \<Rightarrow> string \<Rightarrow> u64 \<Rightarrow> go_error + (string \<times> sql_value) list \<times> bounds" where
  "geometry_assignments env mp wkb srid = (case encodeStorageGeometry (g_codecs env) (mp_geometry mp) wkb srid of
       Inl e \<Rightarrow> Inl e
     | Inr (enc, encStr, bounds) \<Rightarrow>
         let g = (mp_geomColumn mp, if encStr \<noteq> [] then SqlText encStr else SqlBlob enc) in
         if has_bbox mp
         then (case nativeMOSBounds (g_codecs env) enc of
                 Inl e \<Rightarrow> Inl e
               | Inr rw \<Rightarrow> Inr (g # bbox_assignments env mp rw, bounds))
         else Inr ([g], bounds))"

definition absent_geometry :: "writeMapping \<Rightarrow> (string \<times> sql_value) list" where
  "absent_geometry mp =
     (mp_geomColumn mp, SqlNull) # (if has_bbox mp then map (\<lambda>c. (c, SqlNull)) (mp_bboxColumns mp) else [])"

text \<open>What a replacement or update does to the geometry: the assignments, the bounds, and whether
  it touches the geometry at all.\<close>

definition geometry_change ::
  "gpkg_env \<Rightarrow> writeMapping \<Rightarrow> Mutation \<Rightarrow> go_error + (string \<times> sql_value) list \<times> bounds option \<times> bool" where
  "geometry_change env mp m =
     (if m_GeometryAbsent m then Inr (absent_geometry mp, None, True)
      else (case m_GeometryWKB m of
          None \<Rightarrow> Inr ([], None, False)
        | Some wkb \<Rightarrow> (case geometry_assignments env mp wkb (m_GeometrySRID m) of
              Inl e \<Rightarrow> Inl e
            | Inr (sets, b) \<Rightarrow> Inr (sets, Some b, True))))"

text \<open>The row with the bound values stored in their columns.\<close>

definition assign :: "gpkg_env \<Rightarrow> string \<Rightarrow> (string \<times> sql_value) list \<Rightarrow> row \<Rightarrow> row" where
  "assign env table sets r = foldl (\<lambda>r (c, v). r(c := g_affinity env table c v)) r sets"

section \<open>Transactions\<close>

record tableModification =
  tm_mosStorage :: bool
  tm_table :: string
  tm_geomCol :: string
  tm_geomChanged :: "(u64 \<times> bounds option) list"

record gpkg_tx =
  t_failed :: "go_error option"
  t_done :: bool
  t_db :: gpkg_db
  t_modified :: "(string \<times> tableModification) list"
  t_actor :: string
  t_requestID :: string
  t_step :: nat

definition recordMod :: "writeMapping \<Rightarrow> u64 \<Rightarrow> bounds option \<Rightarrow> bool \<Rightarrow> gpkg_tx \<Rightarrow> gpkg_tx" where
  "recordMod mp i b geomTouched t =
     (let md = (case map_of (t_modified t) (mp_table mp) of
            Some md \<Rightarrow> md
          | None \<Rightarrow> \<lparr>tm_mosStorage = (gl_format (mp_geometry mp) = ''mos''), tm_table = mp_table mp,
              tm_geomCol = mp_geomColumn mp, tm_geomChanged = []\<rparr>);
          md = (if geomTouched then md\<lparr>tm_geomChanged := AList.update i b (tm_geomChanged md)\<rparr> else md)
      in t\<lparr>t_modified := AList.update (mp_table mp) md (t_modified t)\<rparr>)"

text \<open>A data statement: the row is written, and the engine reacts.\<close>

definition exec_row ::
  "gpkg_env \<Rightarrow> gpkg_stmt \<Rightarrow> string \<Rightarrow> u64 \<Rightarrow> string list \<Rightarrow> row option \<Rightarrow> gpkg_db \<Rightarrow> gpkg_db" where
  "exec_row env s table i cols r db =
     (case g_react env s table i cols ((d_rows db)(table := (d_rows db table)(i := r)), d_rtree db) of
        (rows, trees) \<Rightarrow> db\<lparr>d_rows := rows, d_rtree := trees\<rparr>)"

definition not_found :: "u64 \<Rightarrow> go_error" where
  "not_found i = MutationError MutationErrNotFound (Reason (''feature '' @ FormatUint (unat i) @ '' not found''))"

definition rev_faults :: "gpkg_env \<Rightarrow> nat \<Rightarrow> rev_fault" where
  "rev_faults env n s = g_fault env n (RevisionStmt s)"

definition checkRevision :: "gpkg_env \<Rightarrow> writeMapping \<Rightarrow> Mutation \<Rightarrow> gpkg_tx \<Rightarrow> go_error option" where
  "checkRevision env mp m t =
     gpkg_checkRevisionCAS (rev_faults env (t_step t)) (d_revisions (t_db t)) (mp_table mp) (m_FeatureID m) (m_IfRevision m)"

definition existsInTx :: "gpkg_env \<Rightarrow> writeMapping \<Rightarrow> u64 \<Rightarrow> gpkg_tx \<Rightarrow> go_error + bool" where
  "existsInTx env mp i t = (case g_fault env (t_step t) SelectExists of
       Some msg \<Rightarrow> Inl (gpkg_mapSQLError msg)
     | None \<Rightarrow> Inr (d_rows (t_db t) (mp_table mp) i \<noteq> None))"

definition selectRow :: "gpkg_env \<Rightarrow> writeMapping \<Rightarrow> u64 \<Rightarrow> gpkg_tx \<Rightarrow> go_error + row option" where
  "selectRow env mp i t = (case g_fault env (t_step t) SelectRow of
       Some msg \<Rightarrow> Inl (WrapError ''select row'' (OtherError msg))
     | None \<Rightarrow> (case d_rows (t_db t) (mp_table mp) i of
         None \<Rightarrow> Inr None
       | Some r \<Rightarrow> if gl_format (mp_geometry mp) = ''mos'' \<and> g_isSystemInfo env (r (mp_geomColumn mp)) then Inr None else Inr (Some r)))"

text \<open>The row a mutation is about must exist, and hold a feature.\<close>

definition require_row :: "gpkg_env \<Rightarrow> writeMapping \<Rightarrow> bool \<Rightarrow> u64 \<Rightarrow> gpkg_tx \<Rightarrow> go_error + row" where
  "require_row env mp check_exists i t =
     (let found = (case selectRow env mp i t of
            Inl e \<Rightarrow> Inl e
          | Inr None \<Rightarrow> Inl (not_found i)
          | Inr (Some r) \<Rightarrow> Inr r)
      in if check_exists
         then (case existsInTx env mp i t of
                 Inl e \<Rightarrow> Inl e
               | Inr ex \<Rightarrow> if \<not> ex then Inl (not_found i) else found)
         else found)"

definition outcome :: "u64 \<Rightarrow> MutationOutcome" where
  "outcome i = \<lparr>o_FeatureID = i, o_Revision = [], o_RevisionBefore = [], o_Affected = 1\<rparr>"

definition insert_geometry ::
  "gpkg_env \<Rightarrow> writeMapping \<Rightarrow> Mutation \<Rightarrow> go_error + (string \<times> sql_value) list \<times> bounds option" where
  "insert_geometry env mp m = (case m_GeometryWKB m of
       Some wkb \<Rightarrow> (case geometry_assignments env mp wkb (m_GeometrySRID m) of
           Inl e \<Rightarrow> Inl e
         | Inr (sets, b) \<Rightarrow> Inr (sets, Some b))
     | None \<Rightarrow> if has_bbox mp \<or> m_GeometryAbsent m then Inr (absent_geometry mp, None) else Inr ([], None))"

definition gpkg_insert :: "gpkg_env \<Rightarrow> writeMapping \<Rightarrow> Mutation \<Rightarrow> gpkg_tx \<Rightarrow> (go_error + MutationOutcome) \<times> gpkg_tx" where
  "gpkg_insert env mp m t = (case property_assignments env mp (m_Properties m) of
       Inl e \<Rightarrow> (Inl e, t)
     | Inr props \<Rightarrow> (case insert_geometry env mp m of
         Inl e \<Rightarrow> (Inl e, t)
       | Inr (gsets, b) \<Rightarrow>
           if props @ gsets = [] then (Inl (malformed ''insert carries no properties or geometry''), t)
           else (case g_fault env (t_step t) InsertRow of
               Some msg \<Rightarrow> (Inl (gpkg_mapSQLError msg), t)
             | None \<Rightarrow>
                 let rows = d_rows (t_db t) (mp_table mp);
                     k = g_newid env rows;
                     i = of_int k;
                     sets = props @ gsets;
                     r = assign env (mp_table mp) sets (g_default env (mp_table mp));
                     t1 = t\<lparr>t_db := exec_row env InsertRow (mp_table mp) i (map fst sets) (Some r) (t_db t)\<rparr>
                 in if k \<le> 0
                    then (Inl (MutationError MutationErrExecutionFailed (Reason ''insert did not return a row id'')), t1)
                    else (Inr (outcome i), recordMod mp i b True t1))))"

text \<open>The \<^verbatim>\<open>UPDATE\<close> at the end of a replacement and of an update.\<close>

definition store_row ::
  "gpkg_env \<Rightarrow> writeMapping \<Rightarrow> Mutation \<Rightarrow> row \<Rightarrow> (string \<times> sql_value) list \<Rightarrow> bounds option \<Rightarrow> bool \<Rightarrow> gpkg_tx \<Rightarrow>
     (go_error + MutationOutcome) \<times> gpkg_tx" where
  "store_row env mp m r sets b touched t = (case g_fault env (t_step t) UpdateRow of
       Some msg \<Rightarrow> (Inl (gpkg_mapSQLError msg), t)
     | None \<Rightarrow> (Inr (outcome (m_FeatureID m)),
         recordMod mp (m_FeatureID m) b touched (t\<lparr>t_db :=
           exec_row env UpdateRow (mp_table mp) (m_FeatureID m) (map fst sets) (Some (assign env (mp_table mp) sets r)) (t_db t)\<rparr>)))"

definition gpkg_replace :: "gpkg_env \<Rightarrow> writeMapping \<Rightarrow> Mutation \<Rightarrow> gpkg_tx \<Rightarrow> (go_error + MutationOutcome) \<times> gpkg_tx" where
  "gpkg_replace env mp m t = (case require_row env mp True (m_FeatureID m) t of
       Inl e \<Rightarrow> (Inl e, t)
     | Inr r \<Rightarrow> (case checkRevision env mp m t of
         Some e \<Rightarrow> (Inl e, t)
       | None \<Rightarrow> (case property_assignments env mp (m_Properties m) of
           Inl e \<Rightarrow> (Inl e, t)
         | Inr props \<Rightarrow> (case default_assignments env (t_step t) mp (map fst (m_Properties m)) (mp_writable mp) of
             Inl e \<Rightarrow> (Inl e, t)
           | Inr defaults \<Rightarrow> (case geometry_change env mp m of
               Inl e \<Rightarrow> (Inl e, t)
             | Inr (gsets, b, touched) \<Rightarrow>
                 let sets = props @ defaults @ gsets in
                 if sets = []
                 then (if m_GeometryUnchanged m \<and> m_IfRevision m \<noteq> [] then (Inr (outcome (m_FeatureID m)), t)
                       else (Inl (malformed ''replace carries nothing to set''), t))
                 else store_row env mp m r sets b touched t)))))"

definition gpkg_update :: "gpkg_env \<Rightarrow> writeMapping \<Rightarrow> Mutation \<Rightarrow> gpkg_tx \<Rightarrow> (go_error + MutationOutcome) \<times> gpkg_tx" where
  "gpkg_update env mp m t = (case checkRevision env mp m t of
       Some e \<Rightarrow> (Inl e, t)
     | None \<Rightarrow> (case require_row env mp True (m_FeatureID m) t of
         Inl e \<Rightarrow> (Inl e, t)
       | Inr r \<Rightarrow> (case checkRevision env mp m t of
           Some e \<Rightarrow> (Inl e, t)
         | None \<Rightarrow> (case property_assignments env mp (m_Properties m) of
             Inl e \<Rightarrow> (Inl e, t)
           | Inr props \<Rightarrow> (case geometry_change env mp m of
               Inl e \<Rightarrow> (Inl e, t)
             | Inr (gsets, b, touched) \<Rightarrow>
                 let sets = props @ gsets in
                 if sets = [] then (Inl (malformed ''update carries nothing to set''), t)
                 else store_row env mp m r sets b touched t)))))"

definition gpkg_delete :: "gpkg_env \<Rightarrow> writeMapping \<Rightarrow> Mutation \<Rightarrow> gpkg_tx \<Rightarrow> (go_error + MutationOutcome) \<times> gpkg_tx" where
  "gpkg_delete env mp m t = (case checkRevision env mp m t of
       Some e \<Rightarrow> (Inl e, t)
     | None \<Rightarrow> (case require_row env mp False (m_FeatureID m) t of
         Inl e \<Rightarrow> (Inl e, t)
       | Inr r \<Rightarrow> (case checkRevision env mp m t of
           Some e \<Rightarrow> (Inl e, t)
         | None \<Rightarrow> (case g_fault env (t_step t) DeleteRow of
             Some msg \<Rightarrow> (Inl (gpkg_mapSQLError msg), t)
           | None \<Rightarrow> (Inr (outcome (m_FeatureID m)),
               recordMod mp (m_FeatureID m) None True
                 (t\<lparr>t_db := exec_row env DeleteRow (mp_table mp) (m_FeatureID m) [] None (t_db t)\<rparr>))))))"

section \<open>Audit\<close>

definition outboxEventType :: "MutationOp \<Rightarrow> string" where
  "outboxEventType oper = (case oper of
       MutationInsert \<Rightarrow> ''feature.created'' | MutationReplace \<Rightarrow> ''feature.replaced'' | MutationUpdate \<Rightarrow> ''feature.updated''
     | MutationDelete \<Rightarrow> ''feature.deleted'' | _ \<Rightarrow> ''feature.changed'')"

definition auditEntryFor :: "string \<Rightarrow> string \<Rightarrow> MutationOp \<Rightarrow> MutationOutcome \<Rightarrow> string \<Rightarrow> string \<Rightarrow> string \<Rightarrow> AuditEntry" where
  "auditEntryFor now collection oper out actor requestID txID = \<lparr>
     ae_Timestamp = now, ae_Actor = actor, ae_Collection = collection, ae_Operation = MutationOp_String oper,
     ae_FeatureID = o_FeatureID out,
     ae_RevisionBefore = (if oper = MutationInsert then [] else o_RevisionBefore out),
     ae_RevisionAfter = (if oper = MutationDelete then [] else o_Revision out),
     ae_TransactionID = txID, ae_RequestID = requestID\<rparr>"

definition recordAuditTx :: "gpkg_env \<Rightarrow> AuditEntry \<Rightarrow> string \<Rightarrow> gpkg_tx \<Rightarrow> go_error option \<times> gpkg_tx" where
  "recordAuditTx env entry eventType t = (case g_fault env (t_step t) AuditInsert of
       Some msg \<Rightarrow> (Some (WrapError ''audit insert'' (OtherError msg)), t)
     | None \<Rightarrow>
         let t1 = t\<lparr>t_db := (t_db t)\<lparr>d_audit := d_audit (t_db t) @ [entry]\<rparr>\<rparr> in
         (case g_fault env (t_step t) OutboxInsert of
            Some msg \<Rightarrow> (Some (WrapError ''outbox insert'' (OtherError msg)), t1)
          | None \<Rightarrow> (None, t1\<lparr>t_db := (t_db t1)\<lparr>d_outbox := d_outbox (t_db t1) @
              [\<lparr>oe_Timestamp = ae_Timestamp entry, oe_Type = eventType, oe_Collection = ae_Collection entry, oe_FeatureID = ae_FeatureID entry\<rparr>]\<rparr>\<rparr>)))"

section \<open>Apply, commit and roll back\<close>

definition validateCanonicalGeometry :: "gpkg_env \<Rightarrow> writeMapping \<Rightarrow> Mutation \<Rightarrow> gpkg_tx \<Rightarrow> go_error option" where
  "validateCanonicalGeometry env mp m t = (case g_fault env (t_step t) SelectCanonical of
       Some msg \<Rightarrow> Some (OtherError msg)
     | None \<Rightarrow> (case d_rows (t_db t) (mp_table mp) (m_FeatureID m) of
         None \<Rightarrow> Some (MutationError MutationErrNotFound (Reason ''feature not found''))
       | Some r \<Rightarrow>
           let rw = r (mp_geomColumn mp) in
           if g_isSystemInfo env rw then Some (MutationError MutationErrNotFound (Reason ''feature not found''))
           else if rw = SqlNull
           then Some (MutationError MutationErrUnsupportedCapability
             (Reason ''canonical geometry family cannot be established from an absent geometry''))
           else g_canonical env mp rw (case m_GeometryWKB m of Some wkb \<Rightarrow> wkb | None \<Rightarrow> [])))"

definition gpkg_data :: "gpkg_env \<Rightarrow> writeMapping \<Rightarrow> Mutation \<Rightarrow> gpkg_tx \<Rightarrow> (go_error + MutationOutcome) \<times> gpkg_tx" where
  "gpkg_data env mp m t = (case m_Op m of
       MutationInsert \<Rightarrow>
         if mp_createUnsupportedReason mp \<noteq> []
         then (Inl (MutationError MutationErrUnsupportedCapability (Reason (mp_createUnsupportedReason mp))), t)
         else gpkg_insert env mp m t
     | MutationReplace \<Rightarrow> gpkg_replace env mp m t
     | MutationUpdate \<Rightarrow> gpkg_update env mp m t
     | MutationDelete \<Rightarrow> gpkg_delete env mp m t
     | MutationOpOther n \<Rightarrow> (Inl (malformed ''unknown op''), t))"

text \<open>The revision of the feature, bumped in the same transaction; deletion starts a new incarnation.\<close>

definition gpkg_bump ::
  "gpkg_env \<Rightarrow> writeMapping \<Rightarrow> Mutation \<Rightarrow> MutationOutcome \<Rightarrow> gpkg_tx \<Rightarrow> (go_error + MutationOutcome) \<times> gpkg_tx" where
  "gpkg_bump env mp m out t =
     (let f = rev_faults env (t_step t) in
      case CheckAndBumpRevisionSQL f (d_revisions (t_db t)) (mp_table mp) (o_FeatureID out) (m_IfRevision m) of
        (Inl e, tab) \<Rightarrow> (Inl e, t\<lparr>t_db := (t_db t)\<lparr>d_revisions := tab\<rparr>\<rparr>)
      | (Inr b, tab) \<Rightarrow>
          (case (if m_Op m = MutationDelete then BumpIncarnationOnDelete f tab (mp_table mp) (o_FeatureID out) else (None, tab)) of
             (Some e, tab') \<Rightarrow> (Inl e, t\<lparr>t_db := (t_db t)\<lparr>d_revisions := tab'\<rparr>\<rparr>)
           | (None, tab') \<Rightarrow>
               let b' = (if m_Op m = MutationDelete then b\<lparr>rb_NewInc := int64_add (rb_NewInc b) 1, rb_New := 0\<rparr> else b) in
               (Inr (out\<lparr>o_Revision := formatIncarnationRevision (rb_NewInc b') (rb_New b'),
                  o_RevisionBefore := formatIncarnationRevision (rb_OldInc b') (rb_Old b')\<rparr>),
                t\<lparr>t_db := (t_db t)\<lparr>d_revisions := tab'\<rparr>\<rparr>)))"

definition gpkg_apply_steps :: "gpkg_env \<Rightarrow> Mutation \<Rightarrow> gpkg_tx \<Rightarrow> (go_error + MutationOutcome) \<times> gpkg_tx" where
  "gpkg_apply_steps env m t =
     (if t_done t then (Inl (malformed ''transaction already finished''), t)
      else (case g_mapping env (m_Collection m) of
          Inl e \<Rightarrow> (Inl e, t)
        | Inr mp \<Rightarrow>
            (case (if mp_isMapplGIS mp \<and> m_Op m \<noteq> MutationInsert \<and> m_GeometryWKB m \<noteq> None
                   then validateCanonicalGeometry env mp m t else None) of
               Some e \<Rightarrow> (Inl e, t)
             | None \<Rightarrow> (case gpkg_data env mp m t of
                 (Inl e, t1) \<Rightarrow> (Inl e, t1)
               | (Inr out, t1) \<Rightarrow> (case gpkg_bump env mp m out t1 of
                   (Inl e, t2) \<Rightarrow> (Inl e, t2)
                 | (Inr out', t2) \<Rightarrow>
                     (case recordAuditTx env (auditEntryFor (g_now env) (m_Collection m) (m_Op m) out' (t_actor t) (t_requestID t) [])
                         (outboxEventType (m_Op m)) t2 of
                        (Some e, t3) \<Rightarrow> (Inl e, t3)
                      | (None, t3) \<Rightarrow> (Inr out', t3)))))))"

text \<open>An error fails the transaction, as a mutation error.\<close>

definition gpkg_Apply :: "gpkg_env \<Rightarrow> Mutation \<Rightarrow> gpkg_tx \<Rightarrow> (go_error + MutationOutcome) \<times> gpkg_tx" where
  "gpkg_Apply env m t = (case t_failed t of
       Some e \<Rightarrow> (Inl e, t)
     | None \<Rightarrow> (case gpkg_apply_steps env m t of
         (Inr out, t') \<Rightarrow> (Inr out, t'\<lparr>t_step := Suc (t_step t)\<rparr>)
       | (Inl e, t') \<Rightarrow>
           let e' = (case AsMutationError e of
                 Some _ \<Rightarrow> e
               | None \<Rightarrow> MutationError MutationErrExecutionFailed (Reason (g_errorText env e)))
           in (Inl e', t'\<lparr>t_failed := Some e', t_step := Suc (t_step t)\<rparr>)))"

definition rtree_name :: "tableModification \<Rightarrow> string" where
  "rtree_name md = ''rtree_'' @ tm_table md @ ''_'' @ tm_geomCol md"

definition maintainRTree :: "gpkg_env \<Rightarrow> nat \<Rightarrow> tableModification \<Rightarrow> gpkg_db \<Rightarrow> string option \<times> gpkg_db" where
  "maintainRTree env n md db = (case g_fault env n (RTreeStmt (tm_table md)) of
       Some msg \<Rightarrow> (Some msg, db)
     | None \<Rightarrow> (case d_rtree db (rtree_name md) of
         None \<Rightarrow> (None, db)
       | Some ix \<Rightarrow> (None, db\<lparr>d_rtree := (d_rtree db)(rtree_name md \<mapsto>
           foldl (\<lambda>ix (i, b). ix(i := map_option (g_rtree_round env) b)) ix (tm_geomChanged md))\<rparr>)))"

definition ascii_lower :: "string \<Rightarrow> string" where
  "ascii_lower s = map (\<lambda>c. if 65 \<le> byte c \<and> byte c \<le> 90 then char_of (byte c + 32) else c) s"

definition isNoSuchTable :: "string \<Rightarrow> bool" where
  "isNoSuchTable msg = strings_Contains (ascii_lower msg) ''no such table''"

definition touchContents :: "gpkg_env \<Rightarrow> nat \<Rightarrow> tableModification \<Rightarrow> gpkg_db \<Rightarrow> string option \<times> gpkg_db" where
  "touchContents env n md db = (case g_fault env n (ContentsCount (tm_table md)) of
       Some msg \<Rightarrow> if isNoSuchTable msg then (None, db) else (Some msg, db)
     | None \<Rightarrow> (case d_contents db (tm_table md) of
         None \<Rightarrow> (None, db)
       | Some c \<Rightarrow> (case g_fault env n (ContentsStmt (tm_table md)) of
           Some msg \<Rightarrow> (Some msg, db)
         | None \<Rightarrow>
             let c' = (if tm_mosStorage md then c\<lparr>ct_last_change := g_now env\<rparr>
                  else \<lparr>ct_last_change = g_now env, ct_extent = (case d_rtree db (rtree_name md) of
                    None \<Rightarrow> None | Some ix \<Rightarrow> g_rtree_extent env ix)\<rparr>)
             in (None, db\<lparr>d_contents := (d_contents db)(tm_table md \<mapsto> c')\<rparr>))))"

fun maintainGPKGMetadata :: "gpkg_env \<Rightarrow> nat \<Rightarrow> (string \<times> tableModification) list \<Rightarrow> gpkg_db \<Rightarrow> string option \<times> gpkg_db" where
  "maintainGPKGMetadata env n [] db = (None, db)"
| "maintainGPKGMetadata env n ((_, md) # mods) db = (case maintainRTree env n md db of
     (Some msg, db1) \<Rightarrow> (Some msg, db1)
   | (None, db1) \<Rightarrow> (case touchContents env n md db1 of
       (Some msg, db2) \<Rightarrow> (Some msg, db2)
     | (None, db2) \<Rightarrow> maintainGPKGMetadata env n mods db2))"

definition gpkg_receipt :: "CommitStatus \<Rightarrow> CommitReceipt" where
  "gpkg_receipt s = \<lparr>r_Status = s, r_TransactionID = [], r_Timestamp = [], r_Actor = [], r_Collections = []\<rparr>"

definition gpkg_Commit :: "gpkg_env \<Rightarrow> gpkg_tx \<Rightarrow> gpkg_db \<Rightarrow> (CommitReceipt \<times> go_error option) \<times> gpkg_db" where
  "gpkg_Commit env t db =
     (if t_done t then ((gpkg_receipt CommitUnknown, Some (malformed ''transaction already finished'')), db)
      else (case t_failed t of
          Some e \<Rightarrow> ((gpkg_receipt CommitNotCommitted, Some e), db)
        | None \<Rightarrow> (case maintainGPKGMetadata env (t_step t) (t_modified t) (t_db t) of
            (Some msg, _) \<Rightarrow> ((gpkg_receipt CommitNotCommitted,
              Some (MutationError MutationErrExecutionFailed (Reason (''gpkg metadata maintenance failed: '' @ msg)))), db)
          | (None, db') \<Rightarrow>
              (case g_fault env (t_step t) CommitStmt of
                 Some msg \<Rightarrow> ((gpkg_receipt CommitUnknown,
                   Some (MutationError MutationErrCommitUnknown (Reason (''commit failed: '' @ msg)))), if g_commit_lost env then db' else db)
               | None \<Rightarrow> ((gpkg_receipt CommitCommitted, None), db')))))"

definition gpkg_BeginFeatureTx :: "gpkg_env \<Rightarrow> TxOptions \<Rightarrow> gpkg_db \<Rightarrow> go_error + gpkg_tx" where
  "gpkg_BeginFeatureTx env options db = (case g_fault env 0 BeginStmt of
       Some msg \<Rightarrow> Inl (WrapError ''begin tx'' (OtherError msg))
     | None \<Rightarrow> (case g_fault env 0 SetupStmt of
         Some msg \<Rightarrow> Inl (OtherError msg)
       | None \<Rightarrow> Inr \<lparr>t_failed = None, t_done = False, t_db = db, t_modified = [], t_actor = tx_Actor options,
           t_requestID = tx_RequestID options, t_step = 0\<rparr>))"

definition gpkg_DescribeWritable :: "gpkg_env \<Rightarrow> string \<Rightarrow> go_error + string" where
  "gpkg_DescribeWritable env layer = (case g_mapping env layer of Inl e \<Rightarrow> Inl e | Inr mp \<Rightarrow> Inr (mp_domain mp))"

text \<open>The writer as a mutation provider of the coordinator.\<close>

definition gpkg_Writer :: "gpkg_env \<Rightarrow> nat \<Rightarrow> (gpkg_db, gpkg_tx) MutationProvider" where
  "gpkg_Writer env ptr = \<lparr>provider_ptr = ptr, DescribeWritable = gpkg_DescribeWritable env, BeginFeatureTx = gpkg_BeginFeatureTx env,
     tx_Apply = gpkg_Apply env, tx_Commit = gpkg_Commit env, tx_Rollback = (\<lambda>t db. db)\<rparr>"

end
