(* ===== verification/Revision_Correct.thy ===== *)
theory Revision_Correct
  imports Revision_Store "HOL-Library.Product_Lexorder"
begin

text \<open>
  Revisions are ordered: the incarnation first, then the revision in it. A successful bump moves the
  key it is about strictly up and leaves all others, and a conditional one succeeds only on the
  current revision. This is the contract \<open>revision_log\<close>, which both implementations meet; its
  consequences for histories of writes are proved once.
\<close>

section \<open>Tokens\<close>

lemma FormatInt_inject [simp]: "FormatInt a = FormatInt b \<longleftrightarrow> a = b"
proof -
  have "CHR ''-'' # xs \<noteq> FormatUint n" for xs n
  proof
    assume "CHR ''-'' # xs = FormatUint n"
    then have "list_all is_digit (CHR ''-'' # xs)" using FormatUint_digits [of n] by metis
    then show False by (simp add: is_digit_def)
  qed
  moreover have "FormatUint n \<noteq> CHR ''-'' # xs" for xs n using calculation by metis
  ultimately show ?thesis by (auto simp: FormatInt_def)
qed

lemma FormatInt_no_dot [simp]: "CHR ''.'' \<notin> set (FormatInt a)"
proof -
  have "c \<in> set (FormatUint n) \<Longrightarrow> is_digit c" for c n using FormatUint_digits [of n] by (auto simp: list_all_iff)
  then show ?thesis by (auto simp: FormatInt_def is_digit_def)
qed

lemma revision_token_split: "split_on (CHR ''.'') (revision_token inc rv) = [FormatInt inc, FormatInt rv]"
  by (simp add: revision_token_def)

lemma revision_token_inject [simp]: "revision_token a b = revision_token c d \<longleftrightarrow> a = c \<and> b = d"
proof
  assume "revision_token a b = revision_token c d"
  then have "[FormatInt a, FormatInt b] = [FormatInt c, FormatInt d]" by (metis revision_token_split)
  then show "a = c \<and> b = d" by simp
qed simp

lemma ParseInt_FormatInt:
  assumes "0 \<le> n" "n < 2 ^ 63"
  shows "ParseInt 64 (FormatInt n) = Some n"
proof -
  obtain c cs where u: "FormatUint (nat n) = c # cs" by (metis FormatUint_not_Nil neq_Nil_conv)
  then have "is_digit c" using FormatUint_digits [of "nat n"] by simp
  then have c: "c \<noteq> CHR ''-''" "c \<noteq> CHR ''+''" by (auto simp: is_digit_def)
  have d: "digits_val (c # cs) = nat n" "list_all is_digit (c # cs)" using FormatUint_digits [of "nat n"] u digits_val_FormatUint [of "nat n"] by metis+
  show ?thesis using assms c d by (simp add: ParseInt_def FormatInt_def u Let_def)
qed

lemma ParseRevision_token:
  assumes "0 \<le> inc" "inc < 2 ^ 63" "0 \<le> rv" "rv < 2 ^ 63"
  shows "ParseRevision (revision_token inc rv) = Inr (inc, rv)"
  using assms ParseInt_FormatInt [of inc] ParseInt_FormatInt [of rv] by (simp add: ParseRevision_def Let_def revision_token_split)

section \<open>The contract\<close>

text \<open>The position of a feature in its history; no row is the same as revision zero.\<close>

definition rank :: "rev_table \<Rightarrow> string \<times> u64 \<Rightarrow> int \<times> int" where
  "rank t k = (case t k of None \<Rightarrow> (0, 0) | Some (rv, inc) \<Rightarrow> (inc, rv))"

text \<open>The counters are not negative and have room for one more write.\<close>

definition rev_room :: "rev_table \<Rightarrow> bool" where
  "rev_room t \<longleftrightarrow> (\<forall>k rv inc. t k = Some (rv, inc) \<longrightarrow> 0 \<le> rv \<and> rv < 2 ^ 63 - 1 \<and> 0 \<le> inc \<and> inc < 2 ^ 63 - 1)"

text \<open>The table exists: no statement fails for lack of it.\<close>

definition migrated :: "rev_fault \<Rightarrow> bool" where
  "migrated f \<longleftrightarrow> (\<forall>s msg. f s = Some msg \<longrightarrow> \<not> IsMissingTable msg)"

locale revision_log =
  fixes bump :: "rev_fault \<Rightarrow> rev_table \<Rightarrow> string \<Rightarrow> u64 \<Rightarrow> string \<Rightarrow> (go_error + RevisionBump) \<times> rev_table"
  assumes bump_ok: "migrated f \<Longrightarrow> rev_room t \<Longrightarrow> bump f t c i want = (Inr b, t') \<Longrightarrow>
      rank t (c, i) = (rb_OldInc b, rb_Old b) \<and> rank t' (c, i) = (rb_NewInc b, rb_New b) \<and>
      rb_NewInc b = rb_OldInc b \<and> rb_New b = rb_Old b + 1 \<and> t' (c, i) \<noteq> None \<and> (\<forall>k. k \<noteq> (c, i) \<longrightarrow> t' k = t k)"
    and bump_current: "migrated f \<Longrightarrow> bump f t c i want = (Inr b, t') \<Longrightarrow> want \<noteq> [] \<Longrightarrow> ParseRevision want = Inr (rank t (c, i))"
    and bump_failed: "bump f t c i want = (Inl e, t') \<Longrightarrow> rank t' = rank t"
begin

text \<open>A write, which moves the feature up, and a deletion, which also starts a new incarnation.\<close>

lemma bump_up:
  assumes "migrated f" "rev_room t" "bump f t c i want = (Inr b, t')"
  shows "rank t (c, i) < rank t' (c, i)" "k \<noteq> (c, i) \<Longrightarrow> rank t' k = rank t k"
proof -
  note b = bump_ok [OF assms]
  show "rank t (c, i) < rank t' (c, i)" using b by (simp add: less_prod_def)
  show "rank t' k = rank t k" if "k \<noteq> (c, i)"
  proof -
    from b that have "t' k = t k" by blast
    then show ?thesis by (simp add: rank_def)
  qed
qed

lemma bump_delete_up:
  assumes "migrated f" "rev_room t" "bump f t c i want = (Inr b, t')" "BumpIncarnationOnDelete f t' c i = (None, t'')"
  shows "rank t (c, i) < rank t'' (c, i)" "k \<noteq> (c, i) \<Longrightarrow> rank t'' k = rank t k"
    "rank t'' (c, i) = (rb_NewInc b + 1, 0)"
proof -
  note b = bump_ok [OF assms(1-3)]
  then obtain rv inc where t': "t' (c, i) = Some (rv, inc)" by (metis option.exhaust surj_pair)
  with assms(1,4) have t'': "t'' = t'((c, i) \<mapsto> (0, inc + 1))"
    by (auto simp: BumpIncarnationOnDelete_def migrated_def split: option.splits if_splits)
  then show r: "rank t'' (c, i) = (rb_NewInc b + 1, 0)" using b t' by (simp add: rank_def)
  show "rank t (c, i) < rank t'' (c, i)" using b r by (simp add: less_prod_def)
  show "rank t'' k = rank t k" if "k \<noteq> (c, i)"
  proof -
    from b that have "t' k = t k" by blast
    with that t'' show ?thesis by (simp add: rank_def)
  qed
qed

end

lemma int64_add_one: "0 \<le> n \<Longrightarrow> n < 2 ^ 63 - 1 \<Longrightarrow> int64_add n 1 = n + 1"
  by (simp add: int64_add_def)

lemma rev_roomD: "rev_room t \<Longrightarrow> t k = Some (rv, inc) \<Longrightarrow> 0 \<le> rv \<and> rv < 2 ^ 63 - 1 \<and> 0 \<le> inc \<and> inc < 2 ^ 63 - 1"
  unfolding rev_room_def by blast

interpretation sql_log: revision_log CheckAndBumpRevisionSQL
proof
  fix f t c i want b t'
  assume "migrated f" "rev_room t" "CheckAndBumpRevisionSQL f t c i want = (Inr b, t')"
  then show "rank t (c, i) = (rb_OldInc b, rb_Old b) \<and> rank t' (c, i) = (rb_NewInc b, rb_New b) \<and>
      rb_NewInc b = rb_OldInc b \<and> rb_New b = rb_Old b + 1 \<and> t' (c, i) \<noteq> None \<and> (\<forall>k. k \<noteq> (c, i) \<longrightarrow> t' k = t k)"
    by (auto simp: CheckAndBumpRevisionSQL_def Let_def migrated_def rank_def int64_add_one
        split: option.splits if_splits prod.splits dest!: rev_roomD)
next
  fix f t c i want b t'
  assume "migrated f" "CheckAndBumpRevisionSQL f t c i want = (Inr b, t')" "want \<noteq> []"
  then show "ParseRevision want = Inr (rank t (c, i))"
    by (auto simp: CheckAndBumpRevisionSQL_def Let_def migrated_def rank_def
        split: option.splits if_splits prod.splits sum.splits)
next
  fix f t c i want e t'
  assume "CheckAndBumpRevisionSQL f t c i want = (Inl e, t')"
  then show "rank t' = rank t"
    by (auto simp: CheckAndBumpRevisionSQL_def Let_def split: option.splits if_splits prod.splits)
qed

lemma rank_materialize [simp]: "rank (materialize t k) = rank t"
  by (auto simp: rank_def materialize_def fun_eq_iff split: option.split)

lemma materialize_other [simp]: "k' \<noteq> k \<Longrightarrow> materialize t k k' = t k'"
  by (auto simp: materialize_def split: option.split)

lemma materialize_Some: "materialize t k k = Some (rv, inc) \<Longrightarrow> rank t k = (inc, rv) \<and> (t k = Some (rv, inc) \<or> rv = 0 \<and> inc = 0)"
  by (auto simp: materialize_def rank_def split: option.splits)

interpretation pg_log: revision_log pg_checkAndBumpRevision
proof
  fix f t c i want b t'
  assume a: "migrated f" "rev_room t" "pg_checkAndBumpRevision f t c i want = (Inr b, t')"
  from a(3) obtain cur inc where m: "materialize t (c, i) (c, i) = Some (cur, inc)"
      "b = \<lparr>rb_Old = cur, rb_New = int64_add cur 1, rb_OldInc = inc, rb_NewInc = inc\<rparr>" "t' = (materialize t (c, i))((c, i) \<mapsto> (cur + 1, inc))"
    by (auto simp: pg_checkAndBumpRevision_def Let_def split: option.splits prod.splits if_splits sum.splits)
  have "0 \<le> cur" "cur < 2 ^ 63 - 1" using materialize_Some [OF m(1)] a(2) by (auto dest: rev_roomD)
  with m materialize_Some [OF m(1)]
  show "rank t (c, i) = (rb_OldInc b, rb_Old b) \<and> rank t' (c, i) = (rb_NewInc b, rb_New b) \<and>
      rb_NewInc b = rb_OldInc b \<and> rb_New b = rb_Old b + 1 \<and> t' (c, i) \<noteq> None \<and> (\<forall>k. k \<noteq> (c, i) \<longrightarrow> t' k = t k)"
    by (simp add: int64_add_one) (simp add: rank_def)
next
  fix f t c i want b t'
  assume a: "migrated f" "pg_checkAndBumpRevision f t c i want = (Inr b, t')" "want \<noteq> []"
  then show "ParseRevision want = Inr (rank t (c, i))"
    by (auto simp: pg_checkAndBumpRevision_def Let_def split: option.splits prod.splits if_splits sum.splits dest!: materialize_Some)
next
  fix f t c i want e t'
  assume "pg_checkAndBumpRevision f t c i want = (Inl e, t')"
  then show "rank t' = rank t"
    by (auto simp: pg_checkAndBumpRevision_def Let_def split: option.splits prod.splits if_splits sum.splits)
qed

section \<open>Readers\<close>

lemma zero_token: "revision_token 0 0 = ''0.0''"
  by (simp add: revision_token_def FormatInt_def FormatUint.simps [of 0] digit_char_def char_of_def bit_0)

lemma read_revision_rank:
  "f ReadRevision = None \<Longrightarrow> read_revision f t c i = Inr (revision_token (fst (rank t (c, i))) (snd (rank t (c, i))))"
  by (auto simp: read_revision_def rank_def zero_token split: option.split)

end
