(* ===== verification/Gpkg_Geometry_Correct.thy ===== *)
theory Gpkg_Geometry_Correct
  imports Gpkg_Geometry
begin

text \<open>
  Properties of stored geometries: bounds are tight, and the binary header is read back as it was
  written, with the bounds in it.
\<close>

section \<open>Bytes of numbers\<close>

lemma put_le_Suc: "put_le (Suc n) v = char_of (v mod 256) # put_le n (v div 256)"
proof -
  have "map (\<lambda>k. char_of (v div 256 ^ k mod 256)) [1..<Suc n] = map (\<lambda>k. char_of (v div 256 div 256 ^ k mod 256)) [0..<n]"
    by (simp add: map_Suc_upt [symmetric] o_def div_mult2_eq del: upt_Suc)
  then show ?thesis by (simp add: put_le_def upt_conv_Cons del: upt_Suc)
qed

lemma length_put_le [simp]: "length (put_le n v) = n"
  by (simp add: put_le_def)

lemma get_le_put_le: "get_le (put_le n v) = v mod 256 ^ n"
proof (induction n arbitrary: v)
  case (Suc n)
  then show ?case by (simp add: put_le_Suc mod_mult2_eq)
qed (simp add: put_le_def)

lemma word_put_le:
  "of_nat (get_le (put_le 4 (unat (w :: 32 word)))) = w" "of_nat (get_le (put_le 8 (unat (v :: 64 word)))) = v"
proof -
  have "unat w < 256 ^ 4" "unat v < 256 ^ 8" using unsigned_less [where ?'a = nat, of w] unsigned_less [where ?'a = nat, of v] by simp_all
  then show "of_nat (get_le (put_le 4 (unat w))) = w" "of_nat (get_le (put_le 8 (unat v))) = v"
    by (simp_all add: get_le_put_le)
qed

lemma length_put_floats: "length (concat (map (\<lambda>v. put_le 8 (unat v)) vs)) = length vs * 8"
  by (induction vs) simp_all

lemma drop_put_floats:
  "i < length vs \<Longrightarrow> take 8 (drop (i * 8) (concat (map (\<lambda>v :: float64. put_le 8 (unat v)) vs) @ r)) = put_le 8 (unat (vs ! i))"
proof (induction vs arbitrary: i)
  case (Cons v vs)
  then show ?case by (cases i) simp_all
qed simp

lemma header_floats_put:
  "header_floats get_le (length vs) (concat (map (\<lambda>v. put_le 8 (unat v)) vs) @ r) = vs"
proof (rule nth_equalityI)
  fix i assume "i < length (header_floats get_le (length vs) (concat (map (\<lambda>v. put_le 8 (unat v)) vs) @ r))"
  then have "i < length vs" by (simp add: header_floats_def)
  then show "header_floats get_le (length vs) (concat (map (\<lambda>v. put_le 8 (unat v)) vs) @ r) ! i = vs ! i"
    by (simp add: header_floats_def drop_put_floats word_put_le del: take_append drop_append)
qed (simp add: header_floats_def)

section \<open>The header\<close>

lemma encode_bytes:
  "encodeGPKGGeometry raw srs None = CHR 0x47 # CHR 0x50 # CHR 0x00 # CHR 0x01 # put_le 4 (unat srs) @ raw"
  "encodeGPKGGeometry raw srs (Some vs) =
     CHR 0x47 # CHR 0x50 # CHR 0x00 # CHR 0x03 # put_le 4 (unat srs) @ concat (map (\<lambda>v. put_le 8 (unat v)) vs) @ raw"
  by (simp_all add: encodeGPKGGeometry_def Let_def char_of_def bit_0)

lemma flags_one: "little_endian 1" "Flags_Envelope 1 = EnvelopeTypeNone" "(1 :: headerFlags) AND 0xC0 = 0" "IsStandard 1" "\<not> IsEmpty 1"
  and flags_three: "little_endian 3" "Flags_Envelope 3 = EnvelopeTypeXY" "(3 :: headerFlags) AND 0xC0 = 0" "IsStandard 3" "\<not> IsEmpty 3"
  by (simp_all add: little_endian_def Flags_Envelope_def IsStandard_def IsEmpty_def)

lemma header_encode_none:
  "NewBinaryHeader (encodeGPKGGeometry raw srs None) = Inr \<lparr>bh_flags = 1, bh_srsid = srs, bh_envelope = []\<rparr>"
  by (simp add: NewBinaryHeader_def encode_bytes Let_def flags_one word_put_le)

lemma header_encode_some:
  assumes "length vs = 4"
  shows "NewBinaryHeader (encodeGPKGGeometry raw srs (Some vs)) = Inr \<lparr>bh_flags = 3, bh_srsid = srs, bh_envelope = vs\<rparr>"
proof -
  have "header_floats get_le 4 (concat (map (\<lambda>v. put_le 8 (unat v)) vs) @ raw) = vs"
    using header_floats_put [of vs raw] assms by simp
  with length_put_floats [of vs] assms show ?thesis
    by (simp add: NewBinaryHeader_def encode_bytes Let_def flags_three word_put_le)
qed

lemma encode_drop:
  "drop 8 (encodeGPKGGeometry raw srs None) = raw"
  "length vs = 4 \<Longrightarrow> drop 40 (encodeGPKGGeometry raw srs (Some vs)) = raw"
  using length_put_floats [of vs] by (simp_all add: encode_bytes)

definition bounds_list :: "bounds \<Rightarrow> float64 list" where
  "bounds_list b = (case b of (minx, maxx, miny, maxy) \<Rightarrow> [minx, maxx, miny, maxy])"

lemma envelope_bounds:
  "geometryEnvelope g = (case geometryBounds g of Inl _ \<Rightarrow> None | Inr b \<Rightarrow> Some (bounds_list b))"
  by (auto simp: geometryEnvelope_def geometryBounds_def bounds_list_def split: option.split list.split prod.split)

text \<open>
  C39. A stored geometry is read back: decoding the header of an encoded geometry gives the reference
  system and, as envelope, the bounds of the geometry, or no envelope for a geometry without points;
  the geometry is marked standard and not empty, and behind the header are the bytes that were stored.
\<close>

theorem gpkg_header_roundtrip:
  "case NewBinaryHeader (encodeGPKGGeometry raw srs (geometryEnvelope g)) of
     Inl e \<Rightarrow> False
   | Inr h \<Rightarrow> bh_srsid h = srs \<and> bh_envelope h = (case geometryBounds g of Inl _ \<Rightarrow> [] | Inr b \<Rightarrow> bounds_list b) \<and>
       IsStandard (bh_flags h) \<and> \<not> IsEmpty (bh_flags h) \<and>
       drop (header_Size h) (encodeGPKGGeometry raw srs (geometryEnvelope g)) = raw"
proof (cases "geometryBounds g")
  case (Inr b)
  have "length (bounds_list b) = 4" by (simp add: bounds_list_def split: prod.split)
  with Inr show ?thesis
    by (simp add: envelope_bounds header_encode_some encode_drop flags_three header_Size_def)
qed (simp add: envelope_bounds header_encode_none encode_drop flags_one header_Size_def)

section \<open>Bounds\<close>

definition encloses :: "bounds \<Rightarrow> pt \<Rightarrow> bool" where
  "encloses b p = (case (b, p) of ((minx, maxx, miny, maxy), (x, y)) \<Rightarrow>
     f64_key minx \<le> f64_key x \<and> f64_key x \<le> f64_key maxx \<and> f64_key miny \<le> f64_key y \<and> f64_key y \<le> f64_key maxy)"

definition attained :: "bounds \<Rightarrow> pt set \<Rightarrow> bool" where
  "attained b P = (case b of (minx, maxx, miny, maxy) \<Rightarrow>
     minx \<in> fst ` P \<and> maxx \<in> fst ` P \<and> miny \<in> snd ` P \<and> maxy \<in> snd ` P)"

definition numeric :: "pt \<Rightarrow> bool" where
  "numeric p \<longleftrightarrow> \<not> f64_nan (fst p) \<and> \<not> f64_nan (snd p)"

definition numeric_bounds :: "bounds \<Rightarrow> bool" where
  "numeric_bounds b = (case b of (minx, maxx, miny, maxy) \<Rightarrow>
     \<not> f64_nan minx \<and> \<not> f64_nan maxx \<and> \<not> f64_nan miny \<and> \<not> f64_nan maxy)"

lemma extend_step:
  assumes "numeric_bounds b" "numeric p"
  shows "numeric_bounds (extend_bounds b p) \<and> encloses (extend_bounds b p) p \<and> (encloses b q \<longrightarrow> encloses (extend_bounds b p) q)"
  using assms by (cases b; cases p; cases q) (auto simp: numeric_bounds_def numeric_def extend_bounds_def encloses_def f64_less_def)

lemma extend_fold:
  assumes "numeric_bounds b" "list_all numeric ps" "\<forall>q\<in>Q. encloses b q"
  shows "\<forall>q\<in>Q \<union> set ps. encloses (foldl extend_bounds b ps) q"
  using assms
proof (induction ps arbitrary: b Q)
  case (Cons p ps)
  then have "\<forall>q\<in>insert p Q \<union> set ps. encloses (foldl extend_bounds (extend_bounds b p) ps) q"
    using extend_step [of b p] by (intro Cons.IH) auto
  then show ?case by auto
qed simp

lemma attained_extend: "attained b P \<Longrightarrow> attained (extend_bounds b p) (insert p P)"
  by (cases b; cases p) (auto simp: attained_def extend_bounds_def image_iff)

lemma attained_fold: "attained b P \<Longrightarrow> attained (foldl extend_bounds b ps) (P \<union> set ps)"
proof (induction ps arbitrary: b P)
  case (Cons p ps)
  from Cons.IH [OF attained_extend [OF Cons.prems]] show ?case by simp
qed simp

text \<open>
  C40. Bounds are tight: the bounds of a geometry whose coordinates are numbers enclose every point of
  it, and each of the four sides is the coordinate of a point.
\<close>

theorem geometry_bounds_tight:
  assumes "geometryBounds g = Inr b" and "GetCoordinates g = Some ps" and "list_all numeric ps"
  shows "list_all (encloses b) ps \<and> attained b (set ps)"
proof -
  from assms(1,2) obtain x y qs where ps: "ps = (x, y) # qs" and b: "b = foldl extend_bounds (x, x, y, y) qs"
    by (auto simp: geometryBounds_def split: list.splits)
  from assms(3) ps have n: "numeric_bounds (x, x, y, y)" "list_all numeric qs"
    by (auto simp: numeric_bounds_def numeric_def)
  have "\<forall>q\<in>{(x, y)} \<union> set qs. encloses b q"
    unfolding b by (rule extend_fold [OF n]) (simp add: encloses_def)
  moreover have "attained b ({(x, y)} \<union> set qs)"
    unfolding b by (rule attained_fold) (simp add: attained_def)
  ultimately show ?thesis by (simp add: ps list_all_iff)
qed

theorem geometry_bounds_tight_witness:
  "geometryBounds (GLineString [(1, 2), (0x8000000000000001, 1)]) = Inr (0x8000000000000001, 1, 1, 2) \<and>
   list_all (encloses (0x8000000000000001, 1, 1, 2)) [(1, 2), (0x8000000000000001, 1)]"
proof -
  have b: "geometryBounds (GLineString [(1, 2), (0x8000000000000001, 1)]) = Inr (0x8000000000000001, 1, 1, 2)"
    by (simp add: geometryBounds_def extend_bounds_def f64_less_def f64_nan_def f64_key_def)
  with geometry_bounds_tight [OF b, of "[(1, 2), (0x8000000000000001, 1)]"] show ?thesis
    by (simp add: numeric_def f64_nan_def)
qed

end
