(* ===== verification/Gpkg_Correct.thy ===== *)
theory Gpkg_Correct
  imports Gpkg_Writer Revision_Correct Gpkg_Geometry_Correct Mutation_Correct
begin

text \<open>
  Properties of the GeoPackage writer: its transactions meet the contract of the mutation
  coordinator, and a revision identifies the stored row.
\<close>

section \<open>The contract of a transaction\<close>

text \<open>What a transaction would commit.\<close>

definition gpkg_view :: "gpkg_env \<Rightarrow> gpkg_tx \<Rightarrow> gpkg_db" where
  "gpkg_view env t = snd (maintainGPKGMetadata env (t_step t) (t_modified t) (t_db t))"

lemma r_Status_gpkg_receipt [simp]: "r_Status (gpkg_receipt s) = s"
  by (simp add: gpkg_receipt_def)

lemma gpkg_contract: "tx_contract (gpkg_Writer env ptr) (gpkg_view env)"
  by (auto simp: tx_contract_def gpkg_Writer_def gpkg_BeginFeatureTx_def gpkg_view_def gpkg_Commit_def
      split: option.splits if_splits prod.splits CommitStatus.splits)

section \<open>What an operation changes\<close>

definition same_tx :: "gpkg_tx \<Rightarrow> gpkg_tx \<Rightarrow> bool" where
  "same_tx t t1 \<longleftrightarrow> t_failed t1 = t_failed t \<and> t_done t1 = t_done t \<and> t_actor t1 = t_actor t \<and>
     t_requestID t1 = t_requestID t \<and> t_step t1 = t_step t"

lemma recordMod_simps [simp]:
  "t_db (recordMod mp i b z t) = t_db t" "same_tx t (recordMod mp i b z t1) = same_tx t t1"
  by (simp_all add: recordMod_def same_tx_def Let_def)

lemma same_tx_simps [simp]:
  "same_tx t t" "same_tx t (t1\<lparr>t_db := d\<rparr>) = same_tx t t1"
  by (simp_all add: same_tx_def)

lemma exec_row_simps [simp]:
  "d_revisions (exec_row env s tb i cols r db) = d_revisions db" "d_audit (exec_row env s tb i cols r db) = d_audit db"
  "d_outbox (exec_row env s tb i cols r db) = d_outbox db" "d_contents (exec_row env s tb i cols r db) = d_contents db"
  "d_rows (exec_row env s tb i cols r db) = fst (g_react env s tb i cols ((d_rows db)(tb := (d_rows db tb)(i := r)), d_rtree db))"
  "d_rtree (exec_row env s tb i cols r db) = snd (g_react env s tb i cols ((d_rows db)(tb := (d_rows db tb)(i := r)), d_rtree db))"
  by (simp_all add: exec_row_def split_beta)

lemma o_FeatureID_outcome [simp]: "o_FeatureID (outcome i) = i"
  by (simp add: outcome_def)

text \<open>The data operation writes at most one row by itself, that of the feature.\<close>

definition row_statement :: "gpkg_env \<Rightarrow> string \<Rightarrow> u64 \<Rightarrow> gpkg_db \<Rightarrow> gpkg_db \<Rightarrow> bool" where
  "row_statement env tb i db db' \<longleftrightarrow> db' = db \<or> (\<exists>s cols r. db' = exec_row env s tb i cols r db)"

lemma row_statement_simps [simp]: "row_statement env tb i db db" "row_statement env tb i db (exec_row env s tb i cols r db)"
  by (auto simp: row_statement_def)

lemma row_statement_keeps:
  "row_statement env tb i db db' \<Longrightarrow> d_revisions db' = d_revisions db \<and> d_audit db' = d_audit db \<and> d_outbox db' = d_outbox db"
  by (auto simp: row_statement_def)

lemma gpkg_data_effect:
  assumes "gpkg_data env mp m t = (Inr out, t1)"
  shows "row_statement env (mp_table mp) (o_FeatureID out) (t_db t) (t_db t1) \<and> same_tx t t1 \<and>
    (m_Op m \<noteq> MutationInsert \<longrightarrow> o_FeatureID out = m_FeatureID m)"
proof -
  have u: "row_statement env (mp_table mp) (o_FeatureID out) (t_db t) (t_db t1) \<and> same_tx t t1 \<and> o_FeatureID out = m_FeatureID m"
    if "store_row env mp m r sets b z t = (Inr out, t1)" for r sets b z
    using that by (auto simp: store_row_def split: option.splits)
  show ?thesis
  proof (cases "m_Op m")
    case MutationInsert
    with assms show ?thesis
      by (auto simp: gpkg_data_def gpkg_insert_def Let_def split: if_splits sum.splits option.splits)
  next
    case MutationReplace
    with assms have "out = outcome (m_FeatureID m) \<and> t1 = t \<or> (\<exists>r sets b z. store_row env mp m r sets b z t = (Inr out, t1))"
      by (auto simp: gpkg_data_def gpkg_replace_def Let_def split: if_splits sum.splits option.splits)
    with u show ?thesis by auto
  next
    case MutationUpdate
    with assms show ?thesis
      by (auto simp: gpkg_data_def gpkg_update_def Let_def split: if_splits sum.splits option.splits dest!: u)
  next
    case MutationDelete
    with assms show ?thesis
      by (auto simp: gpkg_data_def gpkg_delete_def split: sum.splits option.splits)
  next
    case (MutationOpOther n)
    with assms show ?thesis by (simp add: gpkg_data_def)
  qed
qed

lemma gpkg_bump_same_tx: "gpkg_bump env mp m out t = (Inr out', t2) \<Longrightarrow> same_tx t t2"
  by (auto simp: gpkg_bump_def Let_def split: prod.splits sum.splits option.splits if_splits)

lemma recordAuditTx_same_tx: "recordAuditTx env entry ev t = (None, t3) \<Longrightarrow> same_tx t t3"
  by (auto simp: recordAuditTx_def Let_def split: option.splits)

text \<open>The parts of a successful operation.\<close>

lemma gpkg_apply_steps_cases:
  assumes "gpkg_apply_steps env m t = (Inr out, t')"
  obtains mp out0 t1 t2 where "g_mapping env (m_Collection m) = Inr mp" "\<not> t_done t"
    "gpkg_data env mp m t = (Inr out0, t1)" "gpkg_bump env mp m out0 t1 = (Inr out, t2)"
    "recordAuditTx env (auditEntryFor (g_now env) (m_Collection m) (m_Op m) out (t_actor t) (t_requestID t) [])
       (outboxEventType (m_Op m)) t2 = (None, t')"
  using assms that by (auto simp: gpkg_apply_steps_def split: if_splits sum.splits option.splits prod.splits)

lemma gpkg_apply_steps_same_tx: "gpkg_apply_steps env m t = (Inr out, t') \<Longrightarrow> same_tx t t'"
proof (erule gpkg_apply_steps_cases)
  fix mp out0 t1 t2
  assume "gpkg_data env mp m t = (Inr out0, t1)" "gpkg_bump env mp m out0 t1 = (Inr out, t2)"
    "recordAuditTx env (auditEntryFor (g_now env) (m_Collection m) (m_Op m) out (t_actor t) (t_requestID t) []) (outboxEventType (m_Op m)) t2 = (None, t')"
  then show ?thesis
    using gpkg_data_effect gpkg_bump_same_tx recordAuditTx_same_tx unfolding same_tx_def by metis
qed

lemma gpkg_Apply_Inr:
  assumes "gpkg_Apply env m t = (Inr out, t')"
  obtains t1 where "t_failed t = None" "gpkg_apply_steps env m t = (Inr out, t1)" "t' = t1\<lparr>t_step := Suc (t_step t)\<rparr>"
  using assms that by (auto simp: gpkg_Apply_def Let_def split: option.splits prod.splits sum.splits)

text \<open>
  C12. A GeoPackage transaction meets the contract the coordinator relies on: it starts from the stored
  data, a reported commit stores exactly its result, a refused one and a rollback store nothing, and
  an unknown one did either. Once an operation has failed, every later operation fails with the same
  error and the transaction cannot be committed.
\<close>

theorem gpkg_transaction_contract:
  "tx_contract (gpkg_Writer env ptr) (gpkg_view env) \<and>
   (case tx_Apply (gpkg_Writer env ptr) m t of
      (Inr out, t') \<Rightarrow> t_failed t' = None
    | (Inl e, t') \<Rightarrow> tx_Apply (gpkg_Writer env ptr) m' t' = (Inl e, t') \<and>
        r_Status (fst (fst (tx_Commit (gpkg_Writer env ptr) t' db))) \<noteq> CommitCommitted)"
proof -
  have "t_failed t' = None" if "gpkg_Apply env m t = (Inr out, t')" for out t'
    using that gpkg_Apply_Inr gpkg_apply_steps_same_tx unfolding same_tx_def by (metis gpkg_tx.select_convs(1) gpkg_tx.surjective gpkg_tx.update_convs(7))
  moreover have "gpkg_Apply env m' t' = (Inl e, t') \<and> r_Status (fst (fst (gpkg_Commit env t' db))) \<noteq> CommitCommitted"
    if "gpkg_Apply env m t = (Inl e, t')" for e t'
  proof -
    from that have "t_failed t' = Some e" by (auto simp: gpkg_Apply_def Let_def split: option.splits prod.splits sum.splits)
    then show ?thesis by (auto simp: gpkg_Apply_def gpkg_Commit_def)
  qed
  ultimately show ?thesis using gpkg_contract by (auto simp: gpkg_Writer_def split: prod.split sum.split)
qed

section \<open>A revision identifies a row\<close>

text \<open>One write: the revision of the feature moves up, and no other feature changes.\<close>

definition row_written :: "string \<times> u64 \<Rightarrow> gpkg_db \<Rightarrow> gpkg_db \<Rightarrow> bool" where
  "row_written k db db' \<longleftrightarrow> rank (d_revisions db) k < rank (d_revisions db') k \<and>
     (\<forall>k'. k' \<noteq> k \<longrightarrow> rank (d_revisions db') k' = rank (d_revisions db) k' \<and> d_rows db' (fst k') (snd k') = d_rows db (fst k') (snd k'))"

lemma row_writtenD:
  "row_written k db db' \<Longrightarrow> rank (d_revisions db) k < rank (d_revisions db') k"
  "row_written k db db' \<Longrightarrow> k' \<noteq> k \<Longrightarrow> rank (d_revisions db') k' = rank (d_revisions db) k'"
  "row_written k db db' \<Longrightarrow> k' \<noteq> k \<Longrightarrow> d_rows db' (fst k') (snd k') = d_rows db (fst k') (snd k')"
  unfolding row_written_def by blast+

definition audit_tables :: "gpkg_env \<Rightarrow> bool" where
  "audit_tables env \<longleftrightarrow> (\<forall>n. migrated (rev_faults env n))"

lemma gpkg_bump_effect:
  assumes env: "audit_tables env" and room: "rev_room (d_revisions (t_db t))" and ok: "gpkg_bump env mp m out t = (Inr out', t2)"
  defines "k \<equiv> (mp_table mp, o_FeatureID out)"
  shows "\<exists>tab. t_db t2 = (t_db t)\<lparr>d_revisions := tab\<rparr> \<and> o_FeatureID out' = o_FeatureID out \<and>
    rank (d_revisions (t_db t)) k < rank tab k \<and> (\<forall>k'. k' \<noteq> k \<longrightarrow> rank tab k' = rank (d_revisions (t_db t)) k') \<and>
    (m_IfRevision m \<noteq> [] \<longrightarrow> ParseRevision (m_IfRevision m) = Inr (rank (d_revisions (t_db t)) k))"
proof -
  let ?f = "rev_faults env (t_step t)" and ?t = "d_revisions (t_db t)"
  have mg: "migrated ?f" using env by (simp add: audit_tables_def)
  from ok obtain b tab where c: "CheckAndBumpRevisionSQL ?f ?t (mp_table mp) (o_FeatureID out) (m_IfRevision m) = (Inr b, tab)"
    by (auto simp: gpkg_bump_def Let_def split: prod.splits sum.splits)
  note up = sql_log.bump_up [OF mg room c] and cur = sql_log.bump_current [OF mg c] and del = sql_log.bump_delete_up [OF mg room c]
  show ?thesis
  proof (cases "m_Op m = MutationDelete")
    case True
    with ok c obtain tab' where d: "BumpIncarnationOnDelete ?f tab (mp_table mp) (o_FeatureID out) = (None, tab')"
      "t_db t2 = (t_db t)\<lparr>d_revisions := tab'\<rparr>" "o_FeatureID out' = o_FeatureID out"
      by (auto simp: gpkg_bump_def Let_def split: prod.splits option.splits)
    with del [OF d(1)] cur show ?thesis unfolding k_def by (intro exI [of _ tab']) simp
  next
    case False
    with ok c have "t_db t2 = (t_db t)\<lparr>d_revisions := tab\<rparr>" "o_FeatureID out' = o_FeatureID out"
      by (auto simp: gpkg_bump_def Let_def split: prod.splits option.splits)
    with up cur show ?thesis unfolding k_def by (intro exI [of _ tab]) simp
  qed
qed

lemma recordAuditTx_effect:
  "recordAuditTx env entry ev t = (None, t3) \<Longrightarrow> \<exists>event. t_db t3 = (t_db t)\<lparr>d_audit := d_audit (t_db t) @ [entry], d_outbox := d_outbox (t_db t) @ [event]\<rparr> \<and>
     oe_Type event = ev \<and> oe_FeatureID event = ae_FeatureID entry \<and> oe_Collection event = ae_Collection entry"
  by (auto simp: recordAuditTx_def Let_def split: option.splits)

lemma gpkg_Apply_bumps:
  assumes env: "audit_tables env" and room: "rev_room (d_revisions (t_db t))" and ok: "gpkg_Apply env m t = (Inr out, t')"
  obtains mp where "g_mapping env (m_Collection m) = Inr mp"
    "rank (d_revisions (t_db t)) (mp_table mp, o_FeatureID out) < rank (d_revisions (t_db t')) (mp_table mp, o_FeatureID out)"
    "\<forall>k. k \<noteq> (mp_table mp, o_FeatureID out) \<longrightarrow> rank (d_revisions (t_db t')) k = rank (d_revisions (t_db t)) k"
    "\<exists>db1. row_statement env (mp_table mp) (o_FeatureID out) (t_db t) db1 \<and> d_rows (t_db t') = d_rows db1"
    "m_Op m \<noteq> MutationInsert \<longrightarrow> o_FeatureID out = m_FeatureID m"
    "m_IfRevision m \<noteq> [] \<longrightarrow> ParseRevision (m_IfRevision m) = Inr (rank (d_revisions (t_db t)) (mp_table mp, o_FeatureID out))"
proof -
  from ok obtain t3 where s: "gpkg_apply_steps env m t = (Inr out, t3)" and t': "t' = t3\<lparr>t_step := Suc (t_step t)\<rparr>" by (rule gpkg_Apply_Inr)
  from s show thesis
  proof (rule gpkg_apply_steps_cases)
    fix mp out0 t1 t2
    assume a: "g_mapping env (m_Collection m) = Inr mp" "gpkg_data env mp m t = (Inr out0, t1)" "gpkg_bump env mp m out0 t1 = (Inr out, t2)"
      "recordAuditTx env (auditEntryFor (g_now env) (m_Collection m) (m_Op m) out (t_actor t) (t_requestID t) []) (outboxEventType (m_Op m)) t2 = (None, t3)"
    from gpkg_data_effect [OF a(2)] have d: "row_statement env (mp_table mp) (o_FeatureID out0) (t_db t) (t_db t1)"
      "m_Op m \<noteq> MutationInsert \<longrightarrow> o_FeatureID out0 = m_FeatureID m" by blast+
    then have rv: "d_revisions (t_db t1) = d_revisions (t_db t)" by (blast dest: row_statement_keeps)
    from gpkg_bump_effect [OF env _ a(3)] room rv obtain tab where b: "t_db t2 = (t_db t1)\<lparr>d_revisions := tab\<rparr>" "o_FeatureID out = o_FeatureID out0"
      "rank (d_revisions (t_db t)) (mp_table mp, o_FeatureID out0) < rank tab (mp_table mp, o_FeatureID out0)"
      "\<forall>k'. k' \<noteq> (mp_table mp, o_FeatureID out0) \<longrightarrow> rank tab k' = rank (d_revisions (t_db t)) k'"
      "m_IfRevision m \<noteq> [] \<longrightarrow> ParseRevision (m_IfRevision m) = Inr (rank (d_revisions (t_db t)) (mp_table mp, o_FeatureID out0))"
      by auto
    from recordAuditTx_effect [OF a(4)] have e: "d_revisions (t_db t3) = d_revisions (t_db t2)" "d_rows (t_db t3) = d_rows (t_db t2)" by auto
    have tab: "d_revisions (t_db t') = tab" and rows: "d_rows (t_db t') = d_rows (t_db t1)" using b(1) e by (simp_all add: t')
    show thesis
    proof (rule that [OF a(1)])
      show "\<exists>db1. row_statement env (mp_table mp) (o_FeatureID out) (t_db t) db1 \<and> d_rows (t_db t') = d_rows db1"
        using d(1) rows unfolding b(2) by blast
    qed (use b d(2) tab in simp_all)
  qed
qed

text \<open>
  Generated columns and triggers confined to the row that is written: no trigger or foreign-key
  action changes another feature.
\<close>

definition local_reactions :: "gpkg_env \<Rightarrow> bool" where
  "local_reactions env \<longleftrightarrow> (\<forall>s tb i cols R X tb' j. (tb', j) \<noteq> (tb, i) \<longrightarrow> fst (g_react env s tb i cols (R, X)) tb' j = R tb' j)"

lemma row_statement_local:
  "local_reactions env \<Longrightarrow> row_statement env tb i db db' \<Longrightarrow> (tb', j) \<noteq> (tb, i) \<Longrightarrow> d_rows db' tb' j = d_rows db tb' j"
  by (auto simp: row_statement_def local_reactions_def)

lemma gpkg_Apply_writes:
  assumes "local_reactions env" "audit_tables env" "rev_room (d_revisions (t_db t))" "gpkg_Apply env m t = (Inr out, t')"
  obtains mp :: writeMapping where "row_written (mp_table mp, o_FeatureID out) (t_db t) (t_db t')"
proof -
  obtain mp :: writeMapping where a: "rank (d_revisions (t_db t)) (mp_table mp, o_FeatureID out) < rank (d_revisions (t_db t')) (mp_table mp, o_FeatureID out)"
    "\<forall>k. k \<noteq> (mp_table mp, o_FeatureID out) \<longrightarrow> rank (d_revisions (t_db t')) k = rank (d_revisions (t_db t)) k"
    "\<exists>db1. row_statement env (mp_table mp) (o_FeatureID out) (t_db t) db1 \<and> d_rows (t_db t') = d_rows db1"
    by (rule gpkg_Apply_bumps [OF assms(2-4)]) (rule that)
  then obtain db1 where r: "row_statement env (mp_table mp) (o_FeatureID out) (t_db t) db1" "d_rows (t_db t') = d_rows db1" by blast
  have "d_rows (t_db t') (fst k) (snd k) = d_rows (t_db t) (fst k) (snd k)" if "k \<noteq> (mp_table mp, o_FeatureID out)" for k
    using row_statement_local [OF assms(1) r(1), of "fst k" "snd k"] that r(2) by simp
  with a(1,2) have "row_written (mp_table mp, o_FeatureID out) (t_db t) (t_db t')" unfolding row_written_def by blast
  then show thesis by (rule that)
qed

lemma maintain_keeps [simp]:
  "d_rows (snd (maintainGPKGMetadata env n mods db)) = d_rows db"
  "d_revisions (snd (maintainGPKGMetadata env n mods db)) = d_revisions db"
  "d_audit (snd (maintainGPKGMetadata env n mods db)) = d_audit db"
  "d_outbox (snd (maintainGPKGMetadata env n mods db)) = d_outbox db"
  by (induction env n mods db rule: maintainGPKGMetadata.induct)
    (auto simp: maintainRTree_def touchContents_def Let_def split: option.splits prod.splits)

text \<open>
  The stored data over time, when every writer is a GeoPackage writer: operations of transactions,
  and the upkeep at their commits. The tables of the service exist, the counters have room, and no
  trigger or foreign-key action of the file changes another feature than the one written.
\<close>

inductive evolves :: "gpkg_db \<Rightarrow> gpkg_db \<Rightarrow> bool" where
  start: "evolves db db"
| operation: "evolves db (t_db t) \<Longrightarrow> local_reactions env \<Longrightarrow> audit_tables env \<Longrightarrow> rev_room (d_revisions (t_db t)) \<Longrightarrow>
    gpkg_Apply env m t = (Inr out, t') \<Longrightarrow> evolves db (t_db t')"
| upkeep: "evolves db db1 \<Longrightarrow> evolves db (snd (maintainGPKGMetadata env n mods db1))"

lemma evolves_rank:
  "evolves db db' \<Longrightarrow> rank (d_revisions db) k \<le> rank (d_revisions db') k \<and>
     (rank (d_revisions db') k = rank (d_revisions db) k \<longrightarrow> d_rows db' (fst k) (snd k) = d_rows db (fst k) (snd k))"
proof (induction rule: evolves.induct)
  case (operation db t env m out t')
  obtain mp :: writeMapping where wr: "row_written (mp_table mp, o_FeatureID out) (t_db t) (t_db t')"
    by (rule gpkg_Apply_writes [OF operation.hyps(2-5)])
  note w = row_writtenD [OF wr]
  show ?case
  proof (cases "k = (mp_table mp, o_FeatureID out)")
    case True
    with w(1) operation.IH have "rank (d_revisions db) k < rank (d_revisions (t_db t')) k" by (metis le_less_trans)
    then show ?thesis by (metis less_imp_le less_irrefl)
  next
    case False
    show ?thesis using operation.IH unfolding w(2) [OF False] w(3) [OF False] .
  qed
qed simp_all

lemma evolves_trans: "evolves db db1 \<Longrightarrow> evolves db1 db2 \<Longrightarrow> evolves db db2"
  by (rotate_tac, induction rule: evolves.induct) (auto intro: evolves.intros)

section \<open>A sample layer\<close>

text \<open>A table of roads with two rows, an empty spatial index and no revisions yet.\<close>

definition sample_mapping :: writeMapping where
  "sample_mapping = \<lparr>mp_createUnsupportedReason = [], mp_isMapplGIS = False, mp_table = ''roads'', mp_idColumn = ''fid'',
     mp_geomColumn = ''geom'', mp_geometry = \<lparr>gl_type = ''point'', gl_format = ''gpkg'', gl_srid = 4326, gl_projection = None\<rparr>,
     mp_bboxColumns = [], mp_columns = [(''lanes'', \<lparr>cd_Type = ''INTEGER'', cd_Nullable = True, cd_IsDefault = False, cd_IsGenerated = False\<rparr>)],
     mp_writable = [(''lanes'', ''lanes'')], mp_readOnly = [], mp_domain = ''roads.gpkg''\<rparr>"

definition sample_env :: gpkg_env where
  "sample_env = \<lparr>g_codecs = \<lparr>wkb_Decode = (\<lambda>_. Inr (GPoint (1, 2))), wkb_Encode = (\<lambda>g. if g = GPoint (1, 2) then Inr ''P'' else Inl []), wkt_Encode = (\<lambda>_. Inl []),
       wkt_Decode = (\<lambda>_. Inl []), proj_Convert = Inr, proj_Inverse = Inr, EncodeMOSStorage = (\<lambda>_. Inl []), mos_Decode = (\<lambda>_. Inl [])\<rparr>,
     g_mapping = (\<lambda>_. Inr sample_mapping), g_fault = (\<lambda>_ _. None), g_commit_lost = False, g_newid = (\<lambda>_. 9), g_default = (\<lambda>_ _. SqlNull),
     g_affinity = (\<lambda>_ _ v. v), g_react = (\<lambda>_ _ _ _ d. d),
     g_Sscanf = (\<lambda>_. None), g_int64 = (\<lambda>_. 0), g_isSystemInfo = (\<lambda>_. False), g_canonical = (\<lambda>_ _ _. None), g_rtree_round = (\<lambda>b. b),
     g_rtree_extent = (\<lambda>_. None), g_now = ''12:00'', g_errorText = (\<lambda>_. [])\<rparr>"

definition sample_row :: row where
  "sample_row = (\<lambda>c. if c = ''lanes'' then SqlInt 2 else SqlNull)"

definition sample_db :: gpkg_db where
  "sample_db = \<lparr>d_rows = (\<lambda>tb. if tb = ''roads'' then [7 \<mapsto> sample_row, 8 \<mapsto> sample_row] else Map.empty), d_revisions = Map.empty, d_audit = [],
     d_outbox = [], d_rtree = [''rtree_roads_geom'' \<mapsto> Map.empty], d_contents = Map.empty\<rparr>"

definition sample_options :: TxOptions where
  "sample_options = \<lparr>tx_ReadOnly = False, tx_Actor = ''ann'', tx_RequestID = ''r1''\<rparr>"

definition sample_tx :: gpkg_tx where
  "sample_tx = \<lparr>t_failed = None, t_done = False, t_db = sample_db, t_modified = [], t_actor = ''ann'', t_requestID = ''r1'', t_step = 0\<rparr>"

text \<open>Feature 8 gets three lanes and a geometry, if it still has revision \<open>0.0\<close>.\<close>

definition sample_change :: Mutation where
  "sample_change = \<lparr>m_Op = MutationUpdate, m_Collection = ''roads'', m_FeatureID = 8,
     m_Properties = [(''lanes'', \<lparr>mv_Null = False, mv_Empty = False, mv_Integer = 3, mv_Decimal = [], mv_String = [], mv_Boolean = False,
       mv_Kind = MutationValueInteger\<rparr>)],
     m_GeometryWKB = Some ''P'', m_GeometryAbsent = False, m_GeometrySRID = 4326, m_GeometryUnchanged = False, m_IfRevision = ''0.0''\<rparr>"

lemma sample_begin: "gpkg_BeginFeatureTx sample_env sample_options sample_db = Inr sample_tx"
  by (simp add: gpkg_BeginFeatureTx_def sample_env_def sample_options_def sample_tx_def)

lemma sample_audit_tables: "audit_tables sample_env"
  by (simp add: audit_tables_def migrated_def rev_faults_def sample_env_def)

lemma sample_parse: "ParseRevision ''0.0'' = Inr (0, 0)"
  using ParseRevision_token [of 0 0] by (simp add: zero_token)

lemma sample_geometry:
  "geometry_assignments sample_env sample_mapping ''P'' 4326 =
     Inr ([(''geom'', SqlBlob (encodeGPKGGeometry ''P'' 4326 (geometryEnvelope (GPoint (1, 2)))))], (1, 1, 2, 2))"
  by (simp add: geometry_assignments_def encodeStorageGeometry_def sample_env_def sample_mapping_def checkGeometryType_def 
      project_geometry_def geometryBounds_def extend_bounds_def store_geometry_def has_bbox_def Let_def)

definition sample_changed :: row where
  "sample_changed = (\<lambda>c. if c = ''lanes'' then SqlInt 3
     else if c = ''geom'' then SqlBlob (encodeGPKGGeometry ''P'' 4326 (geometryEnvelope (GPoint (1, 2)))) else SqlNull)"

definition sample_stored :: gpkg_db where
  "sample_stored = sample_db\<lparr>d_rows := (d_rows sample_db)(''roads'' := (d_rows sample_db ''roads'')(8 \<mapsto> sample_changed))\<rparr>"

lemma sample_update:
  "gpkg_update sample_env sample_mapping sample_change sample_tx = (Inr (outcome 8),
     sample_tx\<lparr>t_db := sample_stored,
       t_modified := [(''roads'', \<lparr>tm_mosStorage = False, tm_table = ''roads'', tm_geomCol = ''geom'', tm_geomChanged = [(8, Some (1, 1, 2, 2))]\<rparr>)]\<rparr>)"
proof -
  have c: "checkRevision sample_env sample_mapping sample_change sample_tx = None"
    by (simp add: checkRevision_def gpkg_checkRevisionCAS_def rev_faults_def sample_env_def sample_change_def sample_tx_def sample_db_def sample_parse Let_def)
  have r: "require_row sample_env sample_mapping True 8 sample_tx = Inr sample_row"
    by (simp add: require_row_def existsInTx_def selectRow_def sample_env_def sample_mapping_def sample_tx_def sample_db_def Let_def)
  have p: "property_assignments sample_env sample_mapping (m_Properties sample_change) = Inr [(''lanes'', SqlInt 3)]"
    by (simp add: sample_change_def sample_mapping_def valueToSQL_def Let_def)
  have g: "geometry_change sample_env sample_mapping sample_change =
      Inr ([(''geom'', SqlBlob (encodeGPKGGeometry ''P'' 4326 (geometryEnvelope (GPoint (1, 2)))))], Some (1, 1, 2, 2), True)"
    by (simp add: geometry_change_def sample_geometry sample_change_def)
  have a: "assign sample_env tb [(''lanes'', SqlInt 3), (''geom'', v)] sample_row = (\<lambda>c. if c = ''lanes'' then SqlInt 3 else if c = ''geom'' then v else SqlNull)" for tb v
    by (auto simp: assign_def sample_row_def sample_env_def)
  have x: "exec_row sample_env s tb i cols r db = db\<lparr>d_rows := (d_rows db)(tb := (d_rows db tb)(i := r))\<rparr>" for s tb i cols r db
    by (simp add: exec_row_def sample_env_def)
  have i: "m_FeatureID sample_change = 8" "g_fault sample_env n s = None" for n s by (simp_all add: sample_change_def sample_env_def)
  show ?thesis
    by (simp add: gpkg_update_def c r p g i a x store_row_def recordMod_def sample_changed_def)
      (simp add: sample_mapping_def sample_tx_def sample_stored_def sample_changed_def)
qed

definition sample_done :: gpkg_tx where
  "sample_done = snd (gpkg_Apply sample_env sample_change sample_tx)"

lemma sample_applied:
  "gpkg_Apply sample_env sample_change sample_tx = (Inr \<lparr>o_FeatureID = 8, o_Revision = ''0.1'', o_RevisionBefore = ''0.0'', o_Affected = 1\<rparr>,
     sample_tx\<lparr>t_db := sample_stored\<lparr>d_revisions := [(''roads'', 8) \<mapsto> (1, 0)],
         d_audit := [\<lparr>ae_Timestamp = ''12:00'', ae_Actor = ''ann'', ae_Collection = ''roads'', ae_Operation = ''update'', ae_FeatureID = 8,
           ae_RevisionBefore = ''0.0'', ae_RevisionAfter = ''0.1'', ae_TransactionID = [], ae_RequestID = ''r1''\<rparr>],
         d_outbox := [\<lparr>oe_Timestamp = ''12:00'', oe_Type = ''feature.updated'', oe_Collection = ''roads'', oe_FeatureID = 8\<rparr>]\<rparr>,
       t_modified := [(''roads'', \<lparr>tm_mosStorage = False, tm_table = ''roads'', tm_geomCol = ''geom'', tm_geomChanged = [(8, Some (1, 1, 2, 2))]\<rparr>)],
       t_step := 1\<rparr>)"
proof -
  have c: "m_Op sample_change = MutationUpdate" "m_IfRevision sample_change = ''0.0''" "m_Collection sample_change = ''roads''" by (simp_all add: sample_change_def)
  have e: "g_mapping sample_env l = Inr sample_mapping" "g_fault sample_env n s = None" "rev_faults sample_env n = (\<lambda>_. None)" "g_now sample_env = ''12:00''"
    "mp_isMapplGIS sample_mapping = False" "mp_table sample_mapping = ''roads''" for l n s
    by (simp_all add: sample_env_def sample_mapping_def rev_faults_def fun_eq_iff)
  have t: "t_failed sample_tx = None" "t_done sample_tx = False" "t_actor sample_tx = ''ann''" "t_requestID sample_tx = ''r1''" "t_step sample_tx = 0"
    "d_revisions sample_stored = Map.empty" "d_audit sample_stored = []" "d_outbox sample_stored = []"
    by (simp_all add: sample_tx_def sample_stored_def sample_db_def)
  have tok: "formatIncarnationRevision 0 0 = ''0.0''" "formatIncarnationRevision 0 1 = ''0.1''"
    by (simp_all add: formatIncarnationRevision_def revision_token_def FormatInt_def FormatUint.simps [of 0] FormatUint.simps [of "Suc 0"] digit_char_def char_of_def bit_0)
  show ?thesis
    by (simp add: gpkg_Apply_def gpkg_apply_steps_def gpkg_data_def sample_update gpkg_bump_def CheckAndBumpRevisionSQL_def recordAuditTx_def
      auditEntryFor_def outcome_def outboxEventType_def Let_def c e t tok sample_parse)
qed


lemma sample_evolves: "evolves sample_db (t_db sample_done)"
proof -
  have "t_db sample_tx = sample_db" "rev_room (d_revisions (t_db sample_tx))" by (simp_all add: sample_tx_def sample_db_def rev_room_def)
  moreover have "local_reactions sample_env" by (simp add: local_reactions_def sample_env_def)
  ultimately show ?thesis using evolves.operation [OF _ _ sample_audit_tables _ sample_applied, of sample_db] evolves.start [of sample_db]
    by (simp add: sample_done_def sample_applied)
qed

text \<open>
  C11. A revision identifies the row: if the revision read for a feature is the same at two moments,
  the row is the same, whatever writes, deletions and re-creations of it or other features happened
  in between, as long as they are made by GeoPackage writers on a file whose triggers and
  foreign-key actions change no other feature than the one written.
\<close>

theorem revision_identifies_row:
  assumes "evolves db db'" and "layers layer = Some table" and "unat i \<le> 9223372036854775807"
    and "f ReadRevision = None" and "f' ReadRevision = None"
    and "gpkg_CurrentRevision layers f (d_revisions db) layer i = gpkg_CurrentRevision layers f' (d_revisions db') layer i"
  shows "d_rows db' table i = d_rows db table i"
  using assms evolves_rank [OF assms(1), of "(table, i)"]
  by (simp add: gpkg_CurrentRevision_def read_revision_rank prod_eq_iff)

theorem revision_identifies_row_witness:
  "gpkg_CurrentRevision (\<lambda>_. Some ''roads'') (\<lambda>_. None) (d_revisions (t_db sample_done)) ''roads'' 7 = Inr ''0.0'' \<and>
   d_rows (t_db sample_done) ''roads'' 8 \<noteq> d_rows sample_db ''roads'' 8 \<and>
   d_rows (t_db sample_done) ''roads'' 7 = d_rows sample_db ''roads'' 7"
proof -
  have r: "gpkg_CurrentRevision (\<lambda>_. Some ''roads'') (\<lambda>_. None) (d_revisions db) ''roads'' 7 = Inr ''0.0''"
    if "db \<in> {sample_db, t_db sample_done}" for db
    using that by (auto simp: gpkg_CurrentRevision_def read_revision_rank rank_def sample_done_def sample_applied sample_stored_def sample_db_def zero_token)
  have "sample_changed ''lanes'' \<noteq> sample_row ''lanes''" by (simp add: sample_changed_def sample_row_def)
  then have "d_rows (t_db sample_done) ''roads'' 8 \<noteq> d_rows sample_db ''roads'' 8"
    by (auto simp: sample_done_def sample_applied sample_stored_def sample_db_def)
  with revision_identifies_row [OF sample_evolves, of "\<lambda>_. Some ''roads''" "''roads''" "''roads''" 7 "\<lambda>_. None" "\<lambda>_. None"] r show ?thesis by simp
qed

end
