(* ===== verification/Gpkg_Rows.thy ===== *)
theory Gpkg_Rows
  imports Gpkg_Correct
begin

text \<open>
  What the GeoPackage writer does to rows: an update changes the columns it names and no
  others, and leaves every other row as it is.
\<close>

section \<open>Assignments\<close>

lemma assign_Nil [simp]: "assign env tb [] r = r"
  by (simp add: assign_def)

lemma assign_Cons [simp]: "assign env tb ((c, v) # sets) r = assign env tb sets (r(c := g_affinity env tb c v))"
  by (simp add: assign_def)

lemma assign_append: "assign env tb (xs @ ys) r = assign env tb ys (assign env tb xs r)"
  by (simp add: assign_def)

lemma assign_other: "c \<notin> fst ` set sets \<Longrightarrow> assign env tb sets r c = r c"
  by (induction sets arbitrary: r) auto

lemma assign_value: "distinct (map fst sets) \<Longrightarrow> (c, v) \<in> set sets \<Longrightarrow> assign env tb sets r c = g_affinity env tb c v"
  by (induction sets arbitrary: r) (auto simp: assign_other image_iff)

text \<open>The columns of a mapping: every public property has its own, apart from the geometry and its bounds.\<close>

definition mapping_ok :: "writeMapping \<Rightarrow> bool" where
  "mapping_ok mp \<longleftrightarrow> distinct (map fst (mp_writable mp)) \<and> distinct (map snd (mp_writable mp)) \<and>
     mp_geomColumn mp \<notin> snd ` set (mp_writable mp) \<and> set (mp_bboxColumns mp) \<inter> snd ` set (mp_writable mp) = {} \<and>
     mp_geomColumn mp \<notin> set (mp_bboxColumns mp)"

lemma property_assignments_cols:
  "property_assignments env mp ps = Inr sets \<Longrightarrow> map (map_of (mp_writable mp) \<circ> fst) ps = map (Some \<circ> fst) sets"
  by (induction env mp ps arbitrary: sets rule: property_assignments.induct) (auto split: option.splits sum.splits)

lemma property_assignments_values:
  "property_assignments env mp ps = Inr sets \<Longrightarrow> (pub, mv) \<in> set ps \<Longrightarrow>
     \<exists>col v. map_of (mp_writable mp) pub = Some col \<and> valueToSQL env mv (column_type mp col) = Inr v \<and> (col, v) \<in> set sets"
  by (induction env mp ps arbitrary: sets rule: property_assignments.induct) (fastforce split: option.splits sum.splits)+

lemma property_assignments_writable:
  assumes "property_assignments env mp ps = Inr sets" "c \<in> fst ` set sets"
  shows "\<exists>pub \<in> fst ` set ps. map_of (mp_writable mp) pub = Some c"
proof -
  from assms(2) have "Some c \<in> set (map (Some \<circ> fst) sets)" by auto
  then have "Some c \<in> set (map (map_of (mp_writable mp) \<circ> fst) ps)" using property_assignments_cols [OF assms(1)] by simp
  then obtain q where "q \<in> set ps" "map_of (mp_writable mp) (fst q) = Some c" by auto
  then show ?thesis by blast
qed

lemma writable_inject:
  assumes "mapping_ok mp" "map_of (mp_writable mp) p = Some c" "map_of (mp_writable mp) q = Some c"
  shows "p = q"
proof -
  from assms(2,3) have "(p, c) \<in> set (mp_writable mp)" "(q, c) \<in> set (mp_writable mp)" by (auto dest: map_of_SomeD)
  moreover have "inj_on snd (set (mp_writable mp))" using assms(1) by (auto simp: mapping_ok_def distinct_map)
  ultimately have "(p, c) = (q, c)" by (elim inj_onD) simp_all
  then show ?thesis by simp
qed

lemma property_assignments_distinct:
  assumes "mapping_ok mp"
  shows "property_assignments env mp ps = Inr sets \<Longrightarrow> distinct (map fst ps) \<Longrightarrow> distinct (map fst sets)"
proof (induction ps arbitrary: sets)
  case (Cons p ps)
  obtain pub mv where p: "p = (pub, mv)" by (cases p)
  from Cons.prems(1) p obtain col v rest where c: "map_of (mp_writable mp) pub = Some col" "property_assignments env mp ps = Inr rest" "sets = (col, v) # rest"
    by (auto split: option.splits sum.splits)
  have "col \<notin> fst ` set rest"
  proof
    assume "col \<in> fst ` set rest"
    then obtain q where "q \<in> fst ` set ps" "map_of (mp_writable mp) q = Some col" using property_assignments_writable [OF c(2)] by blast
    with writable_inject [OF assms c(1)] Cons.prems(2) p show False by auto
  qed
  with Cons c p show ?case by auto
qed simp

lemma bbox_assignments_cols: "fst ` set (bbox_assignments env mp b) \<subseteq> set (mp_bboxColumns mp)"
  by (auto simp: bbox_assignments_def split: prod.splits dest: set_zip_leftD)

lemma geometry_assignments_Inr:
  assumes "geometry_assignments env mp wkb srid = Inr (sets, b)"
  obtains enc encStr rest where "encodeStorageGeometry (g_codecs env) (mp_geometry mp) wkb srid = Inr (enc, encStr, b)"
    "sets = (mp_geomColumn mp, if encStr \<noteq> [] then SqlText encStr else SqlBlob enc) # rest" "fst ` set rest \<subseteq> set (mp_bboxColumns mp)"
proof -
  obtain enc encStr b' where e: "encodeStorageGeometry (g_codecs env) (mp_geometry mp) wkb srid = Inr (enc, encStr, b')"
    using assms by (cases "encodeStorageGeometry (g_codecs env) (mp_geometry mp) wkb srid") (auto simp: geometry_assignments_def)
  let ?g = "(mp_geomColumn mp, if encStr \<noteq> [] then SqlText encStr else SqlBlob enc)"
  show thesis
  proof (cases "has_bbox mp")
    case True
    obtain rw where "nativeMOSBounds (g_codecs env) enc = Inr rw"
      using assms e True by (cases "nativeMOSBounds (g_codecs env) enc") (simp_all add: geometry_assignments_def Let_def)
    with True assms e have s: "sets = ?g # bbox_assignments env mp rw" "b' = b" by (simp_all add: geometry_assignments_def Let_def)
    show thesis by (rule that [OF e [unfolded s(2)] s(1) bbox_assignments_cols])
  next
    case False
    with assms e have s: "sets = [?g]" "b' = b" by (simp_all add: geometry_assignments_def Let_def)
    show thesis by (rule that [OF e [unfolded s(2)] s(1)]) simp
  qed
qed

lemma geometry_assignments_cols:
  assumes "geometry_assignments env mp wkb srid = Inr (sets, b)"
  shows "fst ` set sets \<subseteq> insert (mp_geomColumn mp) (set (mp_bboxColumns mp))"
  using assms by (rule geometry_assignments_Inr) auto

lemma geometry_change_cols:
  "geometry_change env mp m = Inr (sets, b, z) \<Longrightarrow>
     fst ` set sets \<subseteq> (if m_GeometryAbsent m \<or> m_GeometryWKB m \<noteq> None then insert (mp_geomColumn mp) (set (mp_bboxColumns mp)) else {})"
  by (auto simp: geometry_change_def absent_geometry_def split: if_splits option.splits sum.splits dest!: geometry_assignments_cols)

section \<open>Updates\<close>

lemma gpkg_Apply_rows:
  assumes "gpkg_Apply env m t = (Inr out, t')" "g_mapping env (m_Collection m) = Inr mp"
  obtains out0 t1 where "gpkg_data env mp m t = (Inr out0, t1)" "o_FeatureID out = o_FeatureID out0"
    "d_rows (t_db t') = d_rows (t_db t1)" "d_rtree (t_db t') = d_rtree (t_db t1)" "t_modified t' = t_modified t1"
proof -
  from assms(1) obtain t3 where s: "gpkg_apply_steps env m t = (Inr out, t3)" "t' = t3\<lparr>t_step := Suc (t_step t)\<rparr>" by (rule gpkg_Apply_Inr)
  from s(1) show thesis
  proof (rule gpkg_apply_steps_cases)
    fix mp' out0 t1 t2
    assume a: "g_mapping env (m_Collection m) = Inr mp'" "gpkg_data env mp' m t = (Inr out0, t1)" "gpkg_bump env mp' m out0 t1 = (Inr out, t2)"
      "recordAuditTx env (auditEntryFor (g_now env) (m_Collection m) (m_Op m) out (t_actor t) (t_requestID t) []) (outboxEventType (m_Op m)) t2 = (None, t3)"
    have mp: "mp' = mp" using a(1) assms(2) by simp
    from a(3) have b: "d_rows (t_db t2) = d_rows (t_db t1)" "d_rtree (t_db t2) = d_rtree (t_db t1)" "t_modified t2 = t_modified t1" "o_FeatureID out = o_FeatureID out0"
      by (auto simp: gpkg_bump_def Let_def split: prod.splits sum.splits option.splits if_splits)
    from a(4) have "d_rows (t_db t3) = d_rows (t_db t2)" "d_rtree (t_db t3) = d_rtree (t_db t2)" "t_modified t3 = t_modified t2"
      by (auto simp: recordAuditTx_def Let_def split: option.splits)
    with b s(2) show thesis by (intro that [OF a(2) [unfolded mp] b(4)]) simp_all
  qed
qed

text \<open>
  The value in a column of a row, if the row exists, and the cells of the file that the engine leaves
  alone when a statement writes a row: no generated column, trigger or foreign-key action computes them.
\<close>

definition cell :: "table_rows \<Rightarrow> string \<Rightarrow> u64 \<Rightarrow> string \<Rightarrow> sql_value option" where
  "cell R tb j col = map_option (\<lambda>r. r col) (R tb j)"

definition left_alone :: "gpkg_env \<Rightarrow> gpkg_stmt \<Rightarrow> string \<Rightarrow> u64 \<Rightarrow> string \<Rightarrow> u64 \<Rightarrow> string \<Rightarrow> bool" where
  "left_alone env s table i tb j col \<longleftrightarrow> (\<forall>cols R X. cell (fst (g_react env s table i cols (R, X))) tb j col = cell R tb j col)"

definition named_columns :: "writeMapping \<Rightarrow> Mutation \<Rightarrow> string set" where
  "named_columns mp m = {c. \<exists>pub \<in> fst ` set (m_Properties m). map_of (mp_writable mp) pub = Some c}"

definition geometry_columns :: "writeMapping \<Rightarrow> Mutation \<Rightarrow> string set" where
  "geometry_columns mp m = (if m_GeometryAbsent m \<or> m_GeometryWKB m \<noteq> None then insert (mp_geomColumn mp) (set (mp_bboxColumns mp)) else {})"

lemma update_statement:
  assumes "gpkg_data env mp m t = (Inr out, t1)" "m_Op m = MutationUpdate" "mapping_ok mp" "distinct (map fst (m_Properties m))"
  obtains r sets where "d_rows (t_db t) (mp_table mp) (m_FeatureID m) = Some r"
    "t_db t1 = exec_row env UpdateRow (mp_table mp) (m_FeatureID m) (map fst sets) (Some (assign env (mp_table mp) sets r)) (t_db t)"
    "\<And>col. col \<in> named_columns mp m \<Longrightarrow> \<exists>pub mv v. (pub, mv) \<in> set (m_Properties m) \<and> map_of (mp_writable mp) pub = Some col \<and>
        valueToSQL env mv (column_type mp col) = Inr v \<and> assign env (mp_table mp) sets r col = g_affinity env (mp_table mp) col v"
    "\<And>col. col \<notin> named_columns mp m \<Longrightarrow> col \<notin> geometry_columns mp m \<Longrightarrow> assign env (mp_table mp) sets r col = r col"
proof -
  from assms(1,2) obtain r props gsets b z where u: "require_row env mp True (m_FeatureID m) t = Inr r"
      "property_assignments env mp (m_Properties m) = Inr props" "geometry_change env mp m = Inr (gsets, b, z)"
      "store_row env mp m r (props @ gsets) b z t = (Inr out, t1)"
    by (auto simp: gpkg_data_def gpkg_update_def Let_def split: option.splits sum.splits prod.splits if_splits)
  let ?r = "assign env (mp_table mp) (props @ gsets) r"
  show thesis
  proof (rule that [of r "props @ gsets"])
    show "d_rows (t_db t) (mp_table mp) (m_FeatureID m) = Some r"
      using u(1) by (auto simp: require_row_def selectRow_def Let_def split: option.splits sum.splits if_splits)
    show "t_db t1 = exec_row env UpdateRow (mp_table mp) (m_FeatureID m) (map fst (props @ gsets)) (Some ?r) (t_db t)"
      using u(4) by (auto simp: store_row_def split: option.splits)
  next
    fix col assume "col \<in> named_columns mp m"
    then obtain pub mv where p: "(pub, mv) \<in> set (m_Properties m)" "map_of (mp_writable mp) pub = Some col" by (auto simp: named_columns_def)
    from property_assignments_values [OF u(2) p(1)] p(2) obtain v where c: "valueToSQL env mv (column_type mp col) = Inr v" "(col, v) \<in> set props" by auto
    have "col \<in> snd ` set (mp_writable mp)" using p(2) by (force dest: map_of_SomeD)
    then have "col \<notin> insert (mp_geomColumn mp) (set (mp_bboxColumns mp))" using assms(3) unfolding mapping_ok_def by blast
    then have "col \<notin> fst ` set gsets" using geometry_change_cols [OF u(3)] by (simp split: if_splits) blast+
    then have "?r col = g_affinity env (mp_table mp) col v"
      using assign_value [OF property_assignments_distinct [OF assms(3) u(2) assms(4)] c(2)] by (simp add: assign_append assign_other)
    with p c(1) show "\<exists>pub mv v. (pub, mv) \<in> set (m_Properties m) \<and> map_of (mp_writable mp) pub = Some col \<and>
        valueToSQL env mv (column_type mp col) = Inr v \<and> ?r col = g_affinity env (mp_table mp) col v" by blast
  next
    fix col assume "col \<notin> named_columns mp m" "col \<notin> geometry_columns mp m"
    then have "col \<notin> fst ` set props" "col \<notin> fst ` set gsets"
      using property_assignments_writable [OF u(2)] geometry_change_cols [OF u(3)] unfolding named_columns_def geometry_columns_def by blast+
    then show "?r col = r col" by (simp add: assign_append assign_other)
  qed
qed

text \<open>
  C15. An update writes the columns it names. The feature exists, and any column of any row of the
  file that the engine does not compute by itself when the statement runs (no generated column,
  trigger or foreign-key action writes it) ends up as follows: a column of a supplied property in
  the row of the feature holds what that column stores for the converted value; every
  other one, of this or another row, has the value it had, except the geometry and its bounds in the
  row of the feature when a geometry is supplied or removed.
\<close>

theorem update_touches_named:
  assumes "gpkg_Apply env m t = (Inr out, t')" and "m_Op m = MutationUpdate" and "g_mapping env (m_Collection m) = Inr mp"
    and "mapping_ok mp" and "distinct (map fst (m_Properties m))"
    and "left_alone env UpdateRow (mp_table mp) (m_FeatureID m) tb j col"
  shows "d_rows (t_db t) (mp_table mp) (m_FeatureID m) \<noteq> None \<and>
    (if (tb, j) = (mp_table mp, m_FeatureID m) \<and> col \<in> named_columns mp m
     then \<exists>pub mv v. (pub, mv) \<in> set (m_Properties m) \<and> map_of (mp_writable mp) pub = Some col \<and>
       valueToSQL env mv (column_type mp col) = Inr v \<and> cell (d_rows (t_db t')) tb j col = Some (g_affinity env (mp_table mp) col v)
     else (tb, j) = (mp_table mp, m_FeatureID m) \<and> col \<in> geometry_columns mp m \<or>
       cell (d_rows (t_db t')) tb j col = cell (d_rows (t_db t)) tb j col)"
proof -
  from assms(1,3) obtain out0 t1 where d: "gpkg_data env mp m t = (Inr out0, t1)" "d_rows (t_db t') = d_rows (t_db t1)" by (rule gpkg_Apply_rows)
  from d(1) assms(2,4,5) show ?thesis
  proof (rule update_statement)
    fix r sets
    let ?r = "assign env (mp_table mp) sets r"
    let ?R = "(d_rows (t_db t))(mp_table mp := (d_rows (t_db t) (mp_table mp))(m_FeatureID m \<mapsto> ?r))"
    assume r: "d_rows (t_db t) (mp_table mp) (m_FeatureID m) = Some r"
      and t1: "t_db t1 = exec_row env UpdateRow (mp_table mp) (m_FeatureID m) (map fst sets) (Some ?r) (t_db t)"
      and vals: "\<And>col. col \<in> named_columns mp m \<Longrightarrow> \<exists>pub mv v. (pub, mv) \<in> set (m_Properties m) \<and> map_of (mp_writable mp) pub = Some col \<and>
        valueToSQL env mv (column_type mp col) = Inr v \<and> ?r col = g_affinity env (mp_table mp) col v"
      and other: "\<And>col. col \<notin> named_columns mp m \<Longrightarrow> col \<notin> geometry_columns mp m \<Longrightarrow> ?r col = r col"
    have c: "cell (d_rows (t_db t')) tb j col = cell ?R tb j col" using assms(6) by (simp add: d(2) t1 left_alone_def)
    have here: "cell ?R tb j col = Some (?r col)" "cell (d_rows (t_db t)) tb j col = Some (r col)" if "(tb, j) = (mp_table mp, m_FeatureID m)"
      using that r by (simp_all add: cell_def)
    have there: "cell ?R tb j col = cell (d_rows (t_db t)) tb j col" if "(tb, j) \<noteq> (mp_table mp, m_FeatureID m)"
      using that by (auto simp: cell_def)
    show ?thesis
      using r vals [of col] other [of col] c here there by (cases "(tb, j) = (mp_table mp, m_FeatureID m)") auto
  qed
qed

text \<open>A file in which the number of lanes is doubled into a generated column and each update is noted in another table.\<close>

definition noted_env :: gpkg_env where
  "noted_env = sample_env\<lparr>g_react := (\<lambda>s tb i cols (R, X). (case R tb i of
     None \<Rightarrow> (R, X)
   | Some r \<Rightarrow> (R(tb := (R tb)(i \<mapsto> r(''double'' := (case r ''lanes'' of SqlInt n \<Rightarrow> SqlInt (2 * n) | v \<Rightarrow> v))),
        ''notes'' := [1 \<mapsto> (\<lambda>_. SqlInt (uint i))]), X)))\<rparr>"

definition noted_change :: Mutation where
  "noted_change = sample_change\<lparr>m_GeometryWKB := None, m_IfRevision := []\<rparr>"

lemma noted_applied: "\<exists>out t'. gpkg_Apply noted_env noted_change sample_tx = (Inr out, t')"
proof -
  have e: "g_mapping noted_env l = Inr sample_mapping" "g_fault noted_env n s = None" "rev_faults noted_env n = (\<lambda>_. None)"
    "mp_isMapplGIS sample_mapping = False" "mp_table sample_mapping = ''roads''" "gl_format (mp_geometry sample_mapping) = ''gpkg''" for l n s
    by (simp_all add: noted_env_def sample_env_def sample_mapping_def rev_faults_def fun_eq_iff)
  have f: "m_Op noted_change = MutationUpdate" "m_IfRevision noted_change = []" "m_FeatureID noted_change = 8" "m_Collection noted_change = ''roads''" "m_GeometryWKB noted_change = None"
    by (simp_all add: noted_change_def sample_change_def)
  have t: "t_failed sample_tx = None" "t_done sample_tx = False" "t_step sample_tx = 0" "t_db sample_tx = sample_db" "d_rows sample_db ''roads'' 8 = Some sample_row"
    "d_revisions sample_db = Map.empty" by (simp_all add: sample_tx_def sample_db_def)
  have c: "checkRevision noted_env sample_mapping noted_change sample_tx = None"
    by (simp add: checkRevision_def gpkg_checkRevisionCAS_def f)
  have r: "require_row noted_env sample_mapping True 8 sample_tx = Inr sample_row"
    by (simp add: require_row_def existsInTx_def selectRow_def e t Let_def)
  have p: "property_assignments noted_env sample_mapping (m_Properties noted_change) = Inr [(''lanes'', SqlInt 3)]"
    by (simp add: noted_change_def sample_change_def sample_mapping_def valueToSQL_def Let_def)
  have g: "geometry_change noted_env sample_mapping noted_change = Inr ([], None, False)"
    by (simp add: geometry_change_def noted_change_def sample_change_def)
  obtain t1 where t1: "gpkg_data noted_env sample_mapping noted_change sample_tx = (Inr (outcome 8), t1)" "t_step t1 = 0" "d_revisions (t_db t1) = Map.empty"
    by (simp add: gpkg_data_def gpkg_update_def c r p g e f t store_row_def recordMod_def Let_def)
  show ?thesis
    by (simp add: gpkg_Apply_def gpkg_apply_steps_def e f t t1 gpkg_bump_def CheckAndBumpRevisionSQL_def recordAuditTx_def Let_def)
qed

theorem update_touches_named_witness:
  "\<exists>out t'. gpkg_Apply noted_env noted_change sample_tx = (Inr out, t') \<and>
     cell (d_rows (t_db t')) ''roads'' 8 ''lanes'' = Some (SqlInt 3) \<and>
     cell (d_rows (t_db t')) ''roads'' 8 ''name'' = cell (d_rows sample_db) ''roads'' 8 ''name'' \<and>
     cell (d_rows (t_db t')) ''roads'' 7 ''lanes'' = cell (d_rows sample_db) ''roads'' 7 ''lanes''"
proof -
  obtain out t' where a: "gpkg_Apply noted_env noted_change sample_tx = (Inr out, t')" using noted_applied by blast
  have m: "m_Op noted_change = MutationUpdate" "g_mapping noted_env (m_Collection noted_change) = Inr sample_mapping" "mapping_ok sample_mapping"
    "distinct (map fst (m_Properties noted_change))"
    by (simp_all add: mapping_ok_def sample_mapping_def noted_env_def sample_env_def noted_change_def sample_change_def)
  have l: "left_alone noted_env UpdateRow (mp_table sample_mapping) (m_FeatureID noted_change) ''roads'' j col" if "col \<noteq> ''double''" for j col
    using that by (auto simp: left_alone_def cell_def noted_env_def sample_mapping_def split: option.split)
  have n: "named_columns sample_mapping noted_change = {''lanes''}" "geometry_columns sample_mapping noted_change = {}"
    by (auto simp: named_columns_def geometry_columns_def sample_mapping_def noted_change_def sample_change_def)
  have f: "mp_table sample_mapping = ''roads''" "m_FeatureID noted_change = 8" "t_db sample_tx = sample_db"
    by (simp_all add: sample_mapping_def noted_change_def sample_change_def sample_tx_def)
  have v: "(pub, mv) \<in> set (m_Properties noted_change) \<Longrightarrow> valueToSQL noted_env mv ct = Inr v \<Longrightarrow> g_affinity noted_env tb col v = SqlInt 3" for pub mv ct v tb col
    by (auto simp: noted_change_def sample_change_def valueToSQL_def noted_env_def sample_env_def)
  note u = update_touches_named [OF a m l]
  have "cell (d_rows (t_db t')) ''roads'' 8 ''lanes'' = Some (SqlInt 3)"
    using u [of "''lanes''" 8] v by (auto simp: n f)
  moreover have "cell (d_rows (t_db t')) ''roads'' 8 ''name'' = cell (d_rows sample_db) ''roads'' 8 ''name''"
    "cell (d_rows (t_db t')) ''roads'' 7 ''lanes'' = cell (d_rows sample_db) ''roads'' 7 ''lanes''"
    using u [of "''name''" 8] u [of "''lanes''" 7] by (simp_all add: n f)
  ultimately show ?thesis using a by blast
qed

end
