(* ===== verification/Gpkg_Index.thy ===== *)
theory Gpkg_Index
  imports Gpkg_Rows
begin

text \<open>
  The spatial index of a GeoPackage layer agrees with the geometries in its table after every
  committed transaction, and every write is audited. The bounds of a stored geometry are those of the
  geometry a reader decodes from it.
\<close>

section \<open>Bounds of stored geometries\<close>

definition stored_bounds :: "codecs \<Rightarrow> sql_value \<Rightarrow> bounds option" where
  "stored_bounds cd v = (case v of
       SqlBlob data \<Rightarrow> (case decodeGeometry cd data of
           Inr (h, Some g) \<Rightarrow> (case geometryBounds g of Inr b \<Rightarrow> Some b | Inl _ \<Rightarrow> None)
         | _ \<Rightarrow> None)
     | _ \<Rightarrow> None)"

lemma stored_bounds_Null [simp]: "stored_bounds cd SqlNull = None"
  by (simp add: stored_bounds_def)




text \<open>A point that was seen before does not change bounds.\<close>

lemma f64_less_irrefl [simp]: "\<not> f64_less a a"
  by (simp add: f64_less_def)








definition bounds_of :: "pt list \<Rightarrow> bounds option" where
  "bounds_of ps = (case ps of [] \<Rightarrow> None | (x, y) # qs \<Rightarrow> Some (foldl extend_bounds (x, x, y, y) qs))"


text \<open>Sequences of points that may stand for each other wherever bounds are computed.\<close>

definition same_bounds :: "pt list \<Rightarrow> pt list \<Rightarrow> bool" where
  "same_bounds cs cs' \<longleftrightarrow> (\<forall>ps qs. bounds_of (ps @ cs' @ qs) = bounds_of (ps @ cs @ qs))"

lemma same_bounds_refl [simp]: "same_bounds cs cs"
  by (simp add: same_bounds_def)








section \<open>Pending index entries\<close>









definition pending :: "writeMapping \<Rightarrow> gpkg_tx \<Rightarrow> (u64 \<times> bounds option) list" where
  "pending mp t = (case map_of (t_modified t) (mp_table mp) of None \<Rightarrow> [] | Some md \<Rightarrow> tm_geomChanged md)"


lemma pending_db [simp]: "pending mp (t\<lparr>t_db := d\<rparr>) = pending mp t"
  by (simp add: pending_def)








section \<open>Operations\<close>








section \<open>Transactions\<close>





definition sample_committed :: gpkg_db where
  "sample_committed = gpkg_view sample_env sample_done"


lemma sample_done_fields:
  "t_done sample_done = False" "t_failed sample_done = None" "d_rtree (t_db sample_done) = [''rtree_roads_geom'' \<mapsto> Map.empty]" "d_contents (t_db sample_done) = Map.empty"
  "t_modified sample_done = [(''roads'', \<lparr>tm_mosStorage = False, tm_table = ''roads'', tm_geomCol = ''geom'', tm_geomChanged = [(8, Some (1, 1, 2, 2))]\<rparr>)]"
  unfolding sample_done_def sample_applied by (simp_all add: sample_tx_def sample_stored_def sample_db_def)

lemma sample_commit: "gpkg_Commit sample_env sample_done db = ((gpkg_receipt CommitCommitted, None), sample_committed)"
  by (simp add: gpkg_Commit_def sample_done_fields sample_committed_def gpkg_view_def maintainRTree_def touchContents_def rtree_name_def sample_env_def)



section \<open>Audit\<close>

lemma gpkg_Apply_audit:
  assumes "gpkg_Apply env m t = (Inr out, t')"
  shows "d_audit (t_db t') = d_audit (t_db t) @ [auditEntryFor (g_now env) (m_Collection m) (m_Op m) out (t_actor t) (t_requestID t) []] \<and>
    (\<exists>ev. d_outbox (t_db t') = d_outbox (t_db t) @ [ev] \<and> oe_Type ev = outboxEventType (m_Op m) \<and> oe_FeatureID ev = o_FeatureID out \<and> oe_Collection ev = m_Collection m) \<and>
    t_actor t' = t_actor t \<and> t_requestID t' = t_requestID t"
proof -
  from assms obtain t3 where s: "gpkg_apply_steps env m t = (Inr out, t3)" "t' = t3\<lparr>t_step := Suc (t_step t)\<rparr>" by (rule gpkg_Apply_Inr)
  from s(1) show ?thesis
  proof (rule gpkg_apply_steps_cases)
    fix mp out0 t1 t2
    assume a: "gpkg_data env mp m t = (Inr out0, t1)" "gpkg_bump env mp m out0 t1 = (Inr out, t2)"
      "recordAuditTx env (auditEntryFor (g_now env) (m_Collection m) (m_Op m) out (t_actor t) (t_requestID t) []) (outboxEventType (m_Op m)) t2 = (None, t3)"
    from gpkg_data_effect [OF a(1)] have d: "d_audit (t_db t1) = d_audit (t_db t)" "d_outbox (t_db t1) = d_outbox (t_db t)" by (blast dest: row_statement_keeps)+
    from a(2) have b: "d_audit (t_db t2) = d_audit (t_db t1)" "d_outbox (t_db t2) = d_outbox (t_db t1)"
      by (auto simp: gpkg_bump_def Let_def split: prod.splits sum.splits option.splits if_splits)
    from recordAuditTx_effect [OF a(3)] obtain ev where e: "d_audit (t_db t3) = d_audit (t_db t2) @ [auditEntryFor (g_now env) (m_Collection m) (m_Op m) out (t_actor t) (t_requestID t) []]"
      "d_outbox (t_db t3) = d_outbox (t_db t2) @ [ev]" "oe_Type ev = outboxEventType (m_Op m)" "oe_FeatureID ev = o_FeatureID out" "oe_Collection ev = m_Collection m"
      by (auto simp: auditEntryFor_def)
    from gpkg_apply_steps_same_tx [OF s(1)] have "t_actor t3 = t_actor t" "t_requestID t3 = t_requestID t" by (simp_all add: same_tx_def)
    with d b e s(2) show ?thesis by simp
  qed
qed

definition audit_of :: "gpkg_env \<Rightarrow> gpkg_tx \<Rightarrow> Mutation \<times> MutationOutcome \<Rightarrow> AuditEntry" where
  "audit_of env t = (\<lambda>(m, out). auditEntryFor (g_now env) (m_Collection m) (m_Op m) out (t_actor t) (t_requestID t) [])"

definition event_of :: "OutboxEvent \<Rightarrow> string \<times> string \<times> u64" where
  "event_of ev = (oe_Type ev, oe_Collection ev, oe_FeatureID ev)"

text \<open>A run of mutations in a transaction, with the outcome of each.\<close>

fun applies_with :: "('db, 'tx) MutationProvider \<Rightarrow> Mutation list \<Rightarrow> MutationOutcome list \<Rightarrow> 'tx \<Rightarrow> 'tx \<Rightarrow> bool" where
  "applies_with p [] [] t t' = (t' = t)"
| "applies_with p (m # ms) (out # outs) t t' = (\<exists>t1. tx_Apply p m t = (Inr out, t1) \<and> applies_with p ms outs t1 t')"
| "applies_with p _ _ t t' = False"

lemma applies_audit:
  assumes "applies_with (gpkg_Writer env ptr) ms outs t t'"
  shows "d_audit (t_db t') = d_audit (t_db t) @ map (audit_of env t) (zip ms outs) \<and>
    (\<exists>events. d_outbox (t_db t') = d_outbox (t_db t) @ events \<and>
      map event_of events = map (\<lambda>(m, out). (outboxEventType (m_Op m), m_Collection m, o_FeatureID out)) (zip ms outs))"
  using assms
proof (induction "gpkg_Writer env ptr" ms outs t t' rule: applies_with.induct)
  case (2 m ms out outs t t')
  then obtain t1 where a: "gpkg_Apply env m t = (Inr out, t1)" "applies_with (gpkg_Writer env ptr) ms outs t1 t'" by (auto simp: gpkg_Writer_def)
  from 2(1) [OF a(2)] obtain events where r: "d_audit (t_db t') = d_audit (t_db t1) @ map (audit_of env t1) (zip ms outs)"
    "d_outbox (t_db t') = d_outbox (t_db t1) @ events"
    "map event_of events = map (\<lambda>(m, out). (outboxEventType (m_Op m), m_Collection m, o_FeatureID out)) (zip ms outs)" by blast
  from gpkg_Apply_audit [OF a(1)] obtain ev where o: "d_audit (t_db t1) = d_audit (t_db t) @ [audit_of env t (m, out)]" "d_outbox (t_db t1) = d_outbox (t_db t) @ [ev]"
    "event_of ev = (outboxEventType (m_Op m), m_Collection m, o_FeatureID out)" "t_actor t1 = t_actor t" "t_requestID t1 = t_requestID t"
    by (auto simp: audit_of_def event_of_def)
  have "audit_of env t1 = audit_of env t" using o(4,5) by (simp add: audit_of_def)
  with r o show ?case by (intro conjI exI [of _ "ev # events"]) simp_all
qed simp_all

text \<open>
  C14. Every write is audited: a committed transaction has appended, for each of its mutations in
  order, exactly one audit record with the actor, the request and the feature and revisions of the
  outcome the mutation was answered with, and exactly one outbox event of the matching type for that
  feature, and has removed none.
\<close>

theorem writes_audited:
  assumes "gpkg_BeginFeatureTx env opts db = Inr tx" and "applies_with (gpkg_Writer env ptr) ms outs tx tx'"
    and "gpkg_Commit env tx' db = ((receipt, e), db')" and "r_Status receipt = CommitCommitted"
  shows "d_audit db' = d_audit db @ map (\<lambda>(m, out). auditEntryFor (g_now env) (m_Collection m) (m_Op m) out (tx_Actor opts) (tx_RequestID opts) []) (zip ms outs) \<and>
     length outs = length ms \<and>
     (\<exists>events. d_outbox db' = d_outbox db @ events \<and>
       map event_of events = map (\<lambda>(m, out). (outboxEventType (m_Op m), m_Collection m, o_FeatureID out)) (zip ms outs))"
proof -
  from assms(1) have b: "t_db tx = db" "t_actor tx = tx_Actor opts" "t_requestID tx = tx_RequestID opts"
    by (auto simp: gpkg_BeginFeatureTx_def split: option.splits)
  have "maintainGPKGMetadata env (t_step tx') (t_modified tx') (t_db tx') = (None, db')"
    using assms(3,4) by (auto simp: gpkg_Commit_def split: if_splits option.splits prod.splits)
  then have "d_audit db' = d_audit (t_db tx')" "d_outbox db' = d_outbox (t_db tx')"
    using maintain_keeps(3,4) [of env "t_step tx'" "t_modified tx'" "t_db tx'"] by simp_all
  moreover have "length outs = length ms"
    using assms(2) by (induction "gpkg_Writer env ptr" ms outs tx tx' rule: applies_with.induct) auto
  ultimately show ?thesis using applies_audit [OF assms(2)] b by (simp add: audit_of_def)
qed

theorem writes_audited_witness:
  "d_audit sample_committed = [\<lparr>ae_Timestamp = ''12:00'', ae_Actor = ''ann'', ae_Collection = ''roads'', ae_Operation = ''update'', ae_FeatureID = 8,
     ae_RevisionBefore = ''0.0'', ae_RevisionAfter = ''0.1'', ae_TransactionID = [], ae_RequestID = ''r1''\<rparr>] \<and> length (d_outbox sample_committed) = 1"
proof -
  let ?out = "\<lparr>o_FeatureID = 8, o_Revision = ''0.1'', o_RevisionBefore = ''0.0'', o_Affected = 1\<rparr>"
  have e: "g_now sample_env = ''12:00''" "tx_Actor sample_options = ''ann''" "tx_RequestID sample_options = ''r1''" "d_audit sample_db = []" "d_outbox sample_db = []"
    "m_Op sample_change = MutationUpdate" "m_Collection sample_change = ''roads''"
    by (simp_all add: sample_env_def sample_options_def sample_db_def sample_change_def)
  have a: "applies_with (gpkg_Writer sample_env 0) [sample_change] [?out] sample_tx sample_done"
    by (simp add: gpkg_Writer_def sample_applied sample_done_def)
  from writes_audited [OF sample_begin a sample_commit] show ?thesis
    by (auto simp: e auditEntryFor_def outcome_def dest: arg_cong [where f = length])
qed

end
