(* ===== verification/Optimistic_Write.thy ===== *)
theory Optimistic_Write
  imports Feature_Rest_Safety Gpkg_Correct
begin

text \<open>
  The write handlers over the GeoPackage writer: conditional writes and patches while other clients
  write to the same file. What a handler has read of a feature still holds when its transaction
  runs, because the writer compares the revision inside the transaction and a revision identifies
  the row.
\<close>

section \<open>Versioned data\<close>

text \<open>Data that grows with every write, with a version that identifies its content.\<close>

locale versioned =
  fixes later :: "'db \<Rightarrow> 'db \<Rightarrow> bool" and version :: "'db \<Rightarrow> 'v :: order" and content :: "'db \<Rightarrow> 'c"
  assumes later_refl: "later d d"
    and later_trans: "later d d1 \<Longrightarrow> later d1 d2 \<Longrightarrow> later d d2"
    and version_up: "later d d1 \<Longrightarrow> version d \<le> version d1"
    and version_content: "later d d1 \<Longrightarrow> version d = version d1 \<Longrightarrow> content d1 = content d"
begin

lemma moments_later:
  assumes "\<And>k. later (w k) (w (Suc k))" "i \<le> (j :: nat)"
  shows "later (w i) (w j)"
  using assms(2) by (induction rule: dec_induct) (auto intro: later_refl later_trans assms(1))

lemma unchanged_between:
  assumes "\<And>k. later (w k) (w (Suc k))" "i \<le> j" "j \<le> (k :: nat)" "version (w i) = version (w k)"
  shows "content (w k) = content (w j)"
proof -
  have l: "later (w i) (w j)" "later (w j) (w k)" by (auto intro: moments_later assms(1-3))
  have "version (w j) = version (w k)" using version_up [OF l(1)] version_up [OF l(2)] assms(4) by simp
  with version_content [OF l(2)] show ?thesis .
qed

end

text \<open>The row of a feature in a GeoPackage file is versioned by its revision.\<close>

interpretation row_history: versioned evolves "\<lambda>db. rank (d_revisions db) key" "\<lambda>db. d_rows db (fst key) (snd key)"
  for key :: "string \<times> u64"
  by unfold_locales (auto intro: evolves.start evolves_trans dest: evolves_rank [where k = key])

section \<open>Entity tags\<close>

lemma hex_lower_lower: "d < 16 \<Longrightarrow> lower_hex (hex_lower d)"
  by (auto simp: hex_lower_def lower_hex_def is_digit_def byte_char_of)

lemma hex_digits: "list_all lower_hex (hex_encode s)" "length (hex_encode s) = 2 * length s"
proof -
  have "byte c div 16 < 16" for c using byte_lt_256 [of c] by (simp add: less_mult_imp_div_less)
  then show "list_all lower_hex (hex_encode s)" "length (hex_encode s) = 2 * length s"
    by (induction s) (auto simp: hex_encode_def hex_lower_lower)
qed

lemma lower_hex_char: "lower_hex c \<Longrightarrow> c \<noteq> CHR 0x22 \<and> c \<noteq> CHR ''.'' \<and> c \<noteq> CHR '',''"
  by (auto simp: lower_hex_def is_digit_def)

lemma trim_quotes_quoted: "CHR 0x22 \<notin> set h \<Longrightarrow> trim_quotes (CHR 0x22 # h @ [CHR 0x22]) = h"
proof (cases "h = []")
  case False
  assume "CHR 0x22 \<notin> set h"
  with False have "hd h \<noteq> CHR 0x22" "hd (rev h) \<noteq> CHR 0x22" by (metis hd_in_set, metis hd_in_set rev_is_Nil_conv set_rev)
  with False have "dropWhile (\<lambda>c. c = CHR 0x22) (h @ [CHR 0x22]) = h @ [CHR 0x22]" "dropWhile (\<lambda>c. c = CHR 0x22) (rev h) = rev h"
    by (simp_all add: dropWhile_eq_self_iff)
  then show ?thesis by (simp add: trim_quotes_def)
qed (simp add: trim_quotes_def)

lemma etag_form:
  "rv \<noteq> [] \<Longrightarrow> revisionETag sha256 rw rv = CHR 0x22 # (rv @ CHR ''.'' # hex_encode (sha256 rw)) @ [CHR 0x22]"
proof -
  have "CHR 0x22 \<notin> set (hex_encode (sha256 rw))" using hex_digits(1) [of "sha256 rw"] lower_hex_char by (auto simp: list_all_iff)
  then show "rv \<noteq> [] \<Longrightarrow> ?thesis" by (simp add: revisionETag_def strongETag_def trim_quotes_quoted Let_def)
qed

lemma TrimSpace_quoted: "TrimSpace (CHR 0x22 # s @ [CHR 0x22]) = CHR 0x22 # s @ [CHR 0x22]"
  by (simp add: TrimSpace_def TrimLeftSpace.simps [of "CHR 0x22 # s @ [CHR 0x22]"] TrimRightSpace.simps [of "CHR 0x22 # s @ [CHR 0x22]"]
      DecodeLastRune_def IsSpace_def)

lemma etag_matches_tag:
  assumes "rv \<noteq> []" "CHR '','' \<notin> set rv"
  shows "etagMatches (revisionETag sha256 rw rv) current \<longleftrightarrow> current = revisionETag sha256 rw rv"
proof -
  let ?s = "rv @ CHR ''.'' # hex_encode (sha256 rw)"
  have "CHR '','' \<notin> set ?s" using assms(2) hex_digits(1) [of "sha256 rw"] lower_hex_char by (auto simp: list_all_iff)
  then have "split_on (CHR '','') (CHR 0x22 # ?s @ [CHR 0x22]) = [CHR 0x22 # ?s @ [CHR 0x22]]" by (intro split_on_no_sep) simp
  then show ?thesis using TrimSpace_quoted [of ?s] unfolding etag_form [OF assms(1)] etagMatches_def by auto
qed

lemmas etag_matches_itself = etag_matches_tag [THEN iffD2, OF _ _ refl]

lemma token_part:
  assumes "0 \<le> n" "n < 2 ^ 63"
  shows "decimalDigits (FormatInt n) \<and> ParseUint 64 (FormatInt n) \<noteq> None"
proof -
  have "nat n < 2 ^ 64" using assms by (simp add: nat_less_iff)
  then show ?thesis using assms by (simp add: FormatInt_def decimalDigits_def)
qed

lemma revision_of_etag:
  assumes "0 \<le> inc" "inc < 2 ^ 63" "0 \<le> rv" "rv < 2 ^ 63" "length (sha256 rw) = 32"
  shows "revisionFromETag (revisionETag sha256 rw (revision_token inc rv)) = revision_token inc rv"
proof -
  let ?h = "hex_encode (sha256 rw)"
  have h: "CHR ''.'' \<notin> set ?h" "length ?h = 64" "list_all lower_hex ?h"
    using hex_digits [of "sha256 rw"] lower_hex_char assms(5) by (auto simp: list_all_iff)
  have t: "revisionETag sha256 rw (revision_token inc rv) = CHR 0x22 # (FormatInt inc @ CHR ''.'' # FormatInt rv @ CHR ''.'' # ?h) @ [CHR 0x22]"
    by (subst etag_form) (simp_all add: revision_token_def)
  have "CHR ''.'' \<notin> set (FormatInt inc)" "CHR ''.'' \<notin> set (FormatInt rv)" by (simp_all add: FormatInt_def)
  then have "split_on (CHR ''.'') (FormatInt inc @ CHR ''.'' # FormatInt rv @ CHR ''.'' # ?h) = [FormatInt inc, FormatInt rv, ?h]"
    using h(1) by simp
  moreover have "tl (CHR 0x22 # s @ [CHR 0x22]) = s @ [CHR 0x22]" "butlast (s @ [CHR 0x22]) = s" "last (CHR 0x22 # s @ [CHR 0x22]) = CHR 0x22" for s
    by simp_all
  ultimately show ?thesis using h(2,3) token_part [OF assms(1,2)] token_part [OF assms(3,4)]
    unfolding t revisionFromETag_def by (simp only: Let_def) (simp add: revision_token_def)
qed

section \<open>A service on a GeoPackage file\<close>

text \<open>
  The collections are layers of GeoPackage files, read through the revision reader of the provider;
  the audit tables exist, and the feature that is read is determined by its row.
\<close>

definition gpkg_service :: "(gpkg_db, gpkg_tx) FeatureAPI \<Rightarrow> gpkg_env \<Rightarrow> bool" where
  "gpkg_service api env \<longleftrightarrow> audit_tables env \<and>
     (\<forall>coll p layer. a_MutationProviderFor api coll = Inr (p, layer) \<longrightarrow>
        (\<exists>ptr layers fault mp. p = gpkg_Writer env ptr \<and>
           a_RevisionReader api p = Some (\<lambda>db. gpkg_CurrentRevision layers fault (d_revisions db)) \<and> fault ReadRevision = None \<and>
           g_mapping env layer = Inr mp \<and> layers layer = Some (mp_table mp) \<and>
           (\<forall>db db' i crs. d_rows db' (mp_table mp) i = d_rows db (mp_table mp) i \<longrightarrow>
              a_QueryFeature api db' coll i crs = a_QueryFeature api db coll i crs)))"

lemma gpkg_serviceE:
  assumes "gpkg_service api env" "a_MutationProviderFor api c = Inr (p, layer)"
  obtains ptr layers fault mp where "p = gpkg_Writer env ptr"
    "a_RevisionReader api p = Some (\<lambda>db. gpkg_CurrentRevision layers fault (d_revisions db))"
    "fault ReadRevision = None" "g_mapping env layer = Inr mp" "layers layer = Some (mp_table mp)"
    "\<forall>db db' i crs. d_rows db' (mp_table mp) i = d_rows db (mp_table mp) i \<longrightarrow> a_QueryFeature api db' c i crs = a_QueryFeature api db c i crs"
  using assms unfolding gpkg_service_def by metis

text \<open>
  Between two moments other clients write through the same kind of provider, to files whose triggers
  and foreign-key actions change no other feature than the one written.
\<close>

definition concurrent_writes :: "(nat \<Rightarrow> gpkg_db moment) \<Rightarrow> bool" where
  "concurrent_writes w \<longleftrightarrow> (\<forall>k. evolves (mo_db (w k)) (mo_db (w (Suc k))) \<and> rev_room (d_revisions (mo_db (w k))))"

lemma gpkg_service_transactional: "gpkg_service api env \<Longrightarrow> providers_transactional api (gpkg_view env)"
  unfolding gpkg_service_def providers_transactional_def using gpkg_contract by metis

lemma rank_bounds:
  "rev_room t \<Longrightarrow> 0 \<le> fst (rank t k) \<and> fst (rank t k) < 2 ^ 63 \<and> 0 \<le> snd (rank t k) \<and> snd (rank t k) < 2 ^ 63"
  unfolding rev_room_def by (cases "t k") (fastforce simp: rank_def)+

lemma conditional_current:
  assumes svc: "gpkg_service api env" and conc: "concurrent_writes w"
    and ap: "applied_at api (gpkg_view env) m (mo_db (w k)) db'"
    and m: "m_FeatureID m = i" "m_Op m \<noteq> MutationInsert" "m_IfRevision m = rv" "rv \<noteq> []" "unat i \<le> 9223372036854775807"
    and read: "currentRevision api (mo_db (w j)) (m_Collection m) i = Inr rv" and jlk: "j \<le> l" "l \<le> k"
  shows "currentRevision api (mo_db (w k)) (m_Collection m) i = Inr rv \<and>
    a_QueryFeature api (mo_db (w k)) (m_Collection m) i crs = a_QueryFeature api (mo_db (w l)) (m_Collection m) i crs \<and>
    (\<exists>inc n. rv = revision_token inc n \<and> 0 \<le> inc \<and> inc < 2 ^ 63 \<and> 0 \<le> n \<and> n < 2 ^ 63)"
proof -
  let ?c = "m_Collection m"
  from ap obtain p layer tx tx' out where a: "a_MutationProviderFor api ?c = Inr (p, layer)" "gpkg_view env tx = mo_db (w k)"
    "tx_Apply p (m\<lparr>m_Collection := layer\<rparr>) tx = (Inr out, tx')" unfolding applied_at_def by blast
  obtain ptr layers fault mp where s: "p = gpkg_Writer env ptr" "a_RevisionReader api p = Some (\<lambda>db. gpkg_CurrentRevision layers fault (d_revisions db))"
    "fault ReadRevision = None" "g_mapping env layer = Inr mp" "layers layer = Some (mp_table mp)"
    "\<forall>db db' i crs. d_rows db' (mp_table mp) i = d_rows db (mp_table mp) i \<longrightarrow> a_QueryFeature api db' ?c i crs = a_QueryFeature api db ?c i crs"
    by (rule gpkg_serviceE [OF svc a(1)]) (rule that)
  let ?key = "(mp_table mp, i)"
  have room: "rev_room (d_revisions (mo_db (w n)))" and step: "evolves (mo_db (w n)) (mo_db (w (Suc n)))" for n
    using conc by (auto simp: concurrent_writes_def)
  have revs: "d_revisions (t_db tx) = d_revisions (mo_db (w k))" using a(2) [symmetric] by (simp add: gpkg_view_def)
  have at: "audit_tables env" using svc by (simp add: gpkg_service_def)
  have cur: "currentRevision api (mo_db (w n)) ?c i = Inr rv \<longleftrightarrow> rv = revision_token (fst (rank (d_revisions (mo_db (w n))) ?key)) (snd (rank (d_revisions (mo_db (w n))) ?key))" for n
    using read a(1) s(2,3,5) m(4,5) by (auto simp: currentRevision_def gpkg_CurrentRevision_def read_revision_rank split: if_splits)
  have app: "gpkg_Apply env (m\<lparr>m_Collection := layer\<rparr>) tx = (Inr out, tx')" using a(3) s(1) by (simp add: gpkg_Writer_def)
  have "ParseRevision rv = Inr (rank (d_revisions (mo_db (w k))) ?key)"
    by (rule gpkg_Apply_bumps [OF at _ app]) (use room [of k] revs m s(4) in auto)
  moreover have rj: "rv = revision_token (fst (rank (d_revisions (mo_db (w j))) ?key)) (snd (rank (d_revisions (mo_db (w j))) ?key))"
    using read cur by blast
  moreover note b = rank_bounds [OF room [of j], of ?key]
  ultimately have eq: "rank (d_revisions (mo_db (w j))) ?key = rank (d_revisions (mo_db (w k))) ?key"
    by (simp add: ParseRevision_token prod_eq_iff)
  have "d_rows (mo_db (w k)) (mp_table mp) i = d_rows (mo_db (w l)) (mp_table mp) i"
    using row_history.unchanged_between [of "\<lambda>n. mo_db (w n)" j l k ?key, OF step jlk eq] by simp
  from s(6) [rule_format, OF this] have "a_QueryFeature api (mo_db (w k)) ?c i crs = a_QueryFeature api (mo_db (w l)) ?c i crs" .
  moreover have "currentRevision api (mo_db (w k)) ?c i = Inr rv" using cur [of k] rj unfolding eq by blast
  ultimately show ?thesis using rj b by blast
qed

lemma read_token:
  assumes "gpkg_service api env" "a_MutationProviderFor api c = Inr (p, layer)" "AllowsOperation (a_Write api) c oper"
    and "rev_room (d_revisions db)" "unat i \<le> 9223372036854775807" "currentRevision api db c i = Inr rv"
  obtains inc n where "rv = revision_token inc n" "0 \<le> inc" "inc < 2 ^ 63" "0 \<le> n" "n < 2 ^ 63"
proof -
  obtain layers fault tb where s: "a_RevisionReader api p = Some (\<lambda>db. gpkg_CurrentRevision layers fault (d_revisions db))"
    "fault ReadRevision = None" "layers layer = Some tb" by (rule gpkg_serviceE [OF assms(1,2)]) (rule that)
  have "w_Enabled (a_Write api)" "list_ex (\<lambda>w. wc_ID w = c) (w_Collections (a_Write api))"
    using assms(3) by (auto simp: AllowsOperation_def list_ex_iff)
  then have "rv = revision_token (fst (rank (d_revisions db) (tb, i))) (snd (rank (d_revisions db) (tb, i)))"
    using assms(2,5,6) s(1,3) read_revision_rank [of fault, OF s(2)] by (simp add: currentRevision_def gpkg_CurrentRevision_def)
  with rank_bounds [OF assms(4), of "(tb, i)"] that show ?thesis by blast
qed

section \<open>A service to run\<close>

definition sample_gpkg_api :: "(gpkg_db, gpkg_tx) FeatureAPI" where
  "sample_gpkg_api = \<lparr>a_Write = \<lparr>w_Enabled = True,
       w_Collections = [\<lparr>wc_ID = ''roads'', wc_Operations = [''update'', ''delete'']\<rparr>], w_RequireIfMatch = False, w_AuthMode = ''dev''\<rparr>,
     a_Authenticator = None, a_SchemaDescriptorFor = (\<lambda>_. Inr sample_schema),
     a_MutationProviderFor = (\<lambda>c. Inr (gpkg_Writer sample_env 1, c)),
     a_RevisionReader = (\<lambda>_. Some (\<lambda>db. gpkg_CurrentRevision (\<lambda>_. Some ''roads'') (\<lambda>_. None) (d_revisions db))),
     a_QueryFeature = (\<lambda>db c i crs. case d_rows db ''roads'' i of
       None \<Rightarrow> Inl (FeatureNotFoundError c i) | Some r \<Rightarrow> Inr stored_feature),
     a_resolveFeatureCRS = (\<lambda>_ _. Inr CRS84),
     a_renderRepresentation = (\<lambda>_ _ _ _ _. Inr ''{}''),
     a_OnMutate = None, a_tileCacheInvalidate = None, a_encode = (\<lambda>_. None), a_sha256 = (\<lambda>_. replicate 32 (CHR 0x00)),
     a_uriPrefix = [], a_BasePath = ''/ogc'', a_URLString = (\<lambda>scheme host path. scheme @ ''://'' @ host @ path)\<rparr>"

lemma sample_api_fields: "a_resolveFeatureCRS sample_gpkg_api = (\<lambda>_ _. Inr CRS84)" "a_renderRepresentation sample_gpkg_api = (\<lambda>_ _ _ _ _. Inr ''{}'')"
  "a_sha256 sample_gpkg_api = (\<lambda>_. replicate 32 (CHR 0x00))" "w_RequireIfMatch (a_Write sample_gpkg_api) = False"
  "AllowsOperation (a_Write sample_gpkg_api) ''roads'' ''delete''" "AllowsOperation (a_Write sample_gpkg_api) ''roads'' ''update''"
  "a_SchemaDescriptorFor sample_gpkg_api = (\<lambda>_. Inr sample_schema)" "a_encode sample_gpkg_api = (\<lambda>_. None)"
  by (simp_all add: sample_gpkg_api_def AllowsOperation_def ToLower_def)

text \<open>Another client changes feature 8 while the handler runs.\<close>

definition sample_history :: "nat \<Rightarrow> gpkg_db moment" where
  "sample_history k = \<lparr>mo_db = (if k < 2 then sample_db else t_db sample_done), mo_locks = MemoryStore [], mo_now = 0, mo_fault = (\<lambda>_. False)\<rparr>"

lemma sample_mapping_fields: "g_mapping sample_env l = Inr sample_mapping" "mp_table sample_mapping = ''roads''" "g_fault sample_env n s = None"
  "rev_faults sample_env n = (\<lambda>_. None)" "mp_isMapplGIS sample_mapping = False" "gl_format (mp_geometry sample_mapping) = ''gpkg''"
  by (simp_all add: sample_env_def sample_mapping_def rev_faults_def fun_eq_iff)

lemma sample_service: "gpkg_service sample_gpkg_api sample_env"
  unfolding gpkg_service_def
proof (intro conjI allI impI)
  fix coll p layer
  assume "a_MutationProviderFor sample_gpkg_api coll = Inr (p, layer)"
  then show "\<exists>ptr layers fault mp. p = gpkg_Writer sample_env ptr \<and>
      a_RevisionReader sample_gpkg_api p = Some (\<lambda>db. gpkg_CurrentRevision layers fault (d_revisions db)) \<and> fault ReadRevision = None \<and>
      g_mapping sample_env layer = Inr mp \<and> layers layer = Some (mp_table mp) \<and>
      (\<forall>db db' i crs. d_rows db' (mp_table mp) i = d_rows db (mp_table mp) i \<longrightarrow>
        a_QueryFeature sample_gpkg_api db' coll i crs = a_QueryFeature sample_gpkg_api db coll i crs)"
    by (intro exI [of _ 1] exI [of _ "\<lambda>_. Some ''roads''"] exI [of _ "\<lambda>_. None"] exI [of _ sample_mapping])
      (simp add: sample_gpkg_api_def sample_mapping_fields)
qed (rule sample_audit_tables)

lemma sample_done_db: "d_revisions (t_db sample_done) = [(''roads'', 8) \<mapsto> (1, 0)]" "d_rows (t_db sample_done) ''roads'' 7 = Some sample_row"
  unfolding sample_done_def sample_applied by (simp_all add: sample_stored_def sample_db_def)

lemma sample_concurrent: "concurrent_writes sample_history"
proof -
  have "rev_room (d_revisions (t_db sample_done))" "rev_room (d_revisions sample_db)"
    unfolding sample_done_db(1) by (auto simp: rev_room_def sample_db_def split: if_splits)
  then show ?thesis using sample_evolves by (auto simp: concurrent_writes_def sample_history_def intro: evolves.start)
qed

lemma maintain_no_fault: "(\<And>n s. g_fault env n s = None) \<Longrightarrow> fst (maintainGPKGMetadata env n mods db) = None"
  by (induction env n mods db rule: maintainGPKGMetadata.induct) (auto simp: maintainRTree_def touchContents_def Let_def split: option.splits prod.splits)

lemma sample_gpkg_execute:
  assumes "gpkg_Apply sample_env m \<lparr>t_failed = None, t_done = False, t_db = db, t_modified = [], t_actor = [], t_requestID = [], t_step = 0\<rparr> = (Inr out, tx')"
    and "m_Collection m = ''roads''" "m_Op m \<in> {MutationUpdate, MutationDelete}" "validateMutationInput sample_schema m = Inr ()"
    and "rq_Cancelled rq = False" "rq_RequestID rq = []" "mo_locks mo = MemoryStore []" "mo_db mo = db"
  shows "r_Status (x_receipt (execute_at sample_gpkg_api rq mo m)) = CommitCommitted"
proof -
  have c: "gpkg_Commit sample_env tx' db = ((gpkg_receipt CommitCommitted, None), gpkg_view sample_env tx')"
  proof -
    from assms(1) obtain t3 where "gpkg_apply_steps sample_env m \<lparr>t_failed = None, t_done = False, t_db = db, t_modified = [], t_actor = [], t_requestID = [], t_step = 0\<rparr> = (Inr out, t3)"
      "tx' = t3\<lparr>t_step := Suc 0\<rparr>" by (auto elim: gpkg_Apply_Inr)
    from gpkg_apply_steps_same_tx [OF this(1)] this(2) have "t_failed tx' = None" "t_done tx' = False" by (simp_all add: same_tx_def)
    moreover have "maintainGPKGMetadata sample_env (t_step tx') (t_modified tx') (t_db tx') = (None, gpkg_view sample_env tx')"
      using maintain_no_fault [OF sample_mapping_fields(3)] by (simp add: gpkg_view_def prod_eq_iff)
    ultimately show ?thesis by (simp add: gpkg_Commit_def sample_mapping_fields(3))
  qed
  have m: "m\<lparr>m_Collection := ''roads''\<rparr> = m" using assms(2) by (cases m) simp
  from assms show ?thesis
    by (auto simp: execute_at_def ExecuteAll_def mutationCoordinator_def bind_one_def policyActionFor_def effective_policy_def m c
      sample_gpkg_api_def writePolicy_def IsProductionAuth_def principal_of_def gpkg_Writer_def gpkg_BeginFeatureTx_def gpkg_DescribeWritable_def sample_mapping_fields
      operation_name_def AllowsOperation_def ToLower_def resolve_schema_def
      finish_commit_def Let_def IsLocked_def mem_IsLocked_def bound_key_def notifyMutationCommit_def errors_Join_def)
qed

lemma sample_current: "currentRevision sample_gpkg_api (mo_db (sample_history k)) ''roads'' 7 = Inr ''0.0''"
  "a_QueryFeature sample_gpkg_api (mo_db (sample_history k)) ''roads'' 7 crs = Inr stored_feature"
proof -
  have "d_rows sample_db ''roads'' 7 = Some sample_row" "d_revisions sample_db = Map.empty" by (simp_all add: sample_db_def)
  then show "currentRevision sample_gpkg_api (mo_db (sample_history k)) ''roads'' 7 = Inr ''0.0''"
    "a_QueryFeature sample_gpkg_api (mo_db (sample_history k)) ''roads'' 7 crs = Inr stored_feature"
    using sample_done_db by (simp_all add: sample_history_def sample_gpkg_api_def currentRevision_def gpkg_CurrentRevision_def read_revision_rank rank_def zero_token)
qed

lemma sample_query: "queryFeatureRevision sample_gpkg_api sample_history ''roads'' 7 crs k = (Inr (stored_feature, ''0.0''), k + 3)"
  by (simp add: queryFeatureRevision_def eval_nat_numeral sample_current)

definition sample_etag :: string where
  "sample_etag = revisionETag (\<lambda>_. replicate 32 (CHR 0x00)) ''{}'' ''0.0''"

lemma sample_etag_revision: "revisionFromETag sample_etag = ''0.0''"
  using revision_of_etag [of 0 0 "\<lambda>_. replicate 32 (CHR 0x00)" "''{}''"] by (simp add: sample_etag_def zero_token)

definition sample_if_match :: request where
  "sample_if_match = sample_request\<lparr>rq_IfMatch := sample_etag\<rparr>"

lemma sample_etag_matches: "etagMatches sample_etag sample_etag" "sample_etag \<notin> {[], ''*''}"
  unfolding sample_etag_def by (rule etag_matches_itself) (simp_all add: etag_form)

lemma sample_item: "parseFeatureIDParam ''7'' = Some 7"
  by (simp add: parseFeatureIDParam_def decimalDigits_def is_digit_def ParseUint_def digits_val_def digit_val_def)

lemma sample_precondition:
  "checkPrecondition sample_gpkg_api sample_if_match sample_history ''roads'' 7 1 = (Inr sample_etag, 4)"
proof -
  have "currentETag sample_gpkg_api sample_if_match sample_history ''roads'' 7 1 = (Inr sample_etag, 4)"
    by (simp add: currentETag_def querySelectedFeatureRevision_def selectedItemQuery_def sample_query sample_if_match_def sample_request_def sample_etag_def sample_api_fields)
  then show ?thesis using sample_etag_matches by (simp add: checkPrecondition_def sample_if_match_def sample_request_def sample_etag_revision)
qed

definition sample_if_match_delete :: Mutation where
  "sample_if_match_delete = sample_delete\<lparr>m_IfRevision := ''0.0''\<rparr>"


abbreviation sample_begun :: gpkg_tx where
  "sample_begun \<equiv> \<lparr>t_failed = None, t_done = False, t_db = t_db sample_done, t_modified = [], t_actor = [], t_requestID = [], t_step = 0\<rparr>"

lemma sample_bump: "\<exists>b tab rv inc. CheckAndBumpRevisionSQL (\<lambda>_. None) [(''roads'', 8) \<mapsto> (1, 0)] ''roads'' 7 ''0.0'' = (Inr b, tab) \<and> tab (''roads'', 7) = Some (rv, inc)"
  by (simp add: CheckAndBumpRevisionSQL_def sample_parse Let_def)

lemma sample_delete_applied: "\<exists>out tx'. gpkg_Apply sample_env sample_if_match_delete sample_begun = (Inr out, tx')"
proof -
  have f: "m_Collection sample_if_match_delete = ''roads''" "m_Op sample_if_match_delete = MutationDelete" "m_FeatureID sample_if_match_delete = 7"
    "m_IfRevision sample_if_match_delete = ''0.0''" by (simp_all add: sample_if_match_delete_def sample_delete_def)
  have c: "checkRevision sample_env sample_mapping sample_if_match_delete sample_begun = None"
    by (simp add: checkRevision_def gpkg_checkRevisionCAS_def f sample_mapping_fields sample_done_db)
  have r: "require_row sample_env sample_mapping False 7 sample_begun = Inr sample_row"
    by (simp add: require_row_def selectRow_def f sample_mapping_fields sample_done_db)
  obtain t1 where t1: "gpkg_data sample_env sample_mapping sample_if_match_delete sample_begun = (Inr (outcome 7), t1)" "t_step t1 = 0"
    "d_revisions (t_db t1) = [(''roads'', 8) \<mapsto> (1, 0)]"
    by (simp add: gpkg_data_def gpkg_delete_def f c r sample_mapping_fields recordMod_def Let_def sample_done_db)
  obtain b tab rv inc where b: "CheckAndBumpRevisionSQL (\<lambda>_. None) [(''roads'', 8) \<mapsto> (1, 0)] ''roads'' 7 ''0.0'' = (Inr b, tab)" "tab (''roads'', 7) = Some (rv, inc)"
    using sample_bump by blast
  obtain out t2 where t2: "gpkg_bump sample_env sample_mapping sample_if_match_delete (outcome 7) t1 = (Inr out, t2)"
    using b by (simp add: gpkg_bump_def sample_mapping_fields t1 f BumpIncarnationOnDelete_def Let_def)
  show ?thesis
    by (simp add: gpkg_Apply_def gpkg_apply_steps_def f sample_mapping_fields t1 t2 recordAuditTx_def Let_def)
qed

lemma sample_if_match_run:
  "run_Write (mutation_entry serveDeleteItem sample_gpkg_api sample_if_match sample_history) =
     Some (sample_if_match_delete, 4, execute_at sample_gpkg_api sample_if_match (sample_history 4) sample_if_match_delete)"
proof -
  have q: "rq_Collection sample_if_match = ''roads''" "rq_Feature sample_if_match = ''7''" "rq_ContentCrs sample_if_match = []"
    "selectedItemQuery sample_gpkg_api sample_if_match ''roads'' = Inr ([], CRS84)" "checkWFSLock sample_if_match (sample_history 0) ''roads'' 7 = None"
    by (simp_all add: sample_if_match_def sample_request_def selectedItemQuery_def sample_api_fields param_get_def checkWFSLock_def sample_history_def IsLocked_def mem_IsLocked_def)
  have "(base_mutation MutationDelete ''roads'' [])\<lparr>m_FeatureID := 7, m_IfRevision := ''0.0''\<rparr> = sample_if_match_delete"
    by (simp add: base_mutation_def sample_if_match_delete_def sample_delete_def)
  then show ?thesis
    by (simp add: mutation_entry_def serveDeleteItem_def q sample_item sample_precondition [simplified] sample_etag_revision sample_api_fields Let_def)
qed

text \<open>A merge patch of feature 7.\<close>

definition sample_patch_body :: string where
  "sample_patch_body = ''{'' @ [CHR 0x22] @ ''properties'' @ [CHR 0x22] @ '':{'' @ [CHR 0x22] @ ''lanes'' @ [CHR 0x22] @ '':1}}''"

definition sample_patch_request :: request where
  "sample_patch_request = sample_request\<lparr>rq_ContentType := ''application/merge-patch+json'', rq_ContentLength := 25, rq_Body := Some sample_patch_body\<rparr>"

definition sample_patch :: Mutation where
  "sample_patch = (base_mutation MutationUpdate ''roads'' [(''lanes'', zero_mv\<lparr>mv_Kind := MutationValueInteger, mv_Integer := 1\<rparr>)])
     \<lparr>m_FeatureID := 7, m_IfRevision := ''0.0''\<rparr>"

lemma sample_body_parsed: "parse_json sample_patch_body = Some (RObject [(''properties'', RObject [(''lanes'', RNumber ''1'')])], [])"
  by code_simp

lemma sample_body_decoded:
  "rejectDuplicateKeys sample_patch_body = None" "readMutationBody sample_patch_request = Some sample_patch_body"
  "decode_merge sample_patch_body = Some (Some (fmap_of_list [(''properties'', JObject (fmap_of_list [(''lanes'', JNumber ''1'')]))]))"
    apply (simp add: rejectDuplicateKeys_def sample_body_parsed reject_step_def parse_small)
   apply (simp add: readMutationBody_def sample_patch_request_def sample_request_def sample_patch_body_def maxMutationBody_def)
  apply (simp add: sample_body_parsed decode_merge_def json_Decode_def)
  done

lemma lane_number: "isValidNumber ''1''" "ParseInt 64 ''1'' = Some 1"
  by (simp_all add: isValidNumber_def scan_number_def scan_int_def scan_frac_def scan_exp_def is_digit_def
      ParseInt_def digits_val_def digit_val_def)

lemma sample_merge:
  "applyMergePatch (patchFeatureDocument stored_feature) (fmap_of_list [(''properties'', JObject (fmap_of_list [(''lanes'', JNumber ''1'')]))]) =
     fmap_of_list [(''type'', JString ''Feature''), (''id'', id_value 7), (''properties'', JObject (fmap_of_list [(''lanes'', JNumber ''1'')])), (''geometry'', JNull)]"
proof -
  have "merge_members (fmmap merge_value (fmap_of_list [(''lanes'', JNumber ''1'')])) (fmap_of_list [(''lanes'', JNative False (Some (RNumber ''2'')))]) = fmap_of_list [(''lanes'', JNumber ''1'')]"
    by (rule fmap_ext) (simp add: fmlookup_merge_members)
  moreover have "fmmap (\<lambda>v. v) m = m" for m :: "(string, json) fmap" by (rule fmap_ext) (simp add: option.map_ident)
  ultimately show ?thesis
    by (intro fmap_ext) (auto simp: applyMergePatch_def fmlookup_merge_members patchFeatureDocument_def has_geometry_def stored_feature_def copyProps_def)
qed

lemma sample_patch_built:
  "build_patch sample_gpkg_api False sample_schema ''roads'' 7 stored_feature sample_patch_body = Some (sample_patch\<lparr>m_IfRevision := []\<rparr>)"
proof -
  let ?merged = "fmap_of_list [(''type'', JString ''Feature''), (''id'', id_value 7), (''properties'', JObject (fmap_of_list [(''lanes'', JNumber ''1'')])), (''geometry'', JNull)]"
  have c: "changed_properties (ft_Properties stored_feature) (fmap_of_list [(''lanes'', JNumber ''1'')]) = fmupd ''lanes'' (JNumber ''1'') fmempty"
    by (rule fmap_ext) (simp add: changed_properties_lookup stored_feature_def jsonEqual_def json_Marshal_def lane_number)
  have f: "List.find (\<lambda>k. k \<notin> set feature_members) (sorted_list_of_fset (fmdom ?merged)) = None"
    by (rule find_member_None) (auto simp: feature_members_def)
  have j: "jsonEqual (id_value 7) (id_value (ft_ID stored_feature))" by (simp add: stored_feature_def jsonEqual_def json_Marshal_def id_value_def)
  have i: "mutationInputToProvider sample_schema (fmupd ''lanes'' (JNumber ''1'') fmempty) =
      Inr [(''lanes'', zero_mv\<lparr>mv_Kind := MutationValueInteger, mv_Integer := 1\<rparr>)]"
    by (simp add: mutationInputToProvider_def convert_property_def sample_schema_def Property_def jsonValueToMutation_def lane_number)
  have p: "merged_properties ?merged = Inr (fmap_of_list [(''lanes'', JNumber ''1'')])" by (simp add: merged_properties_def)
  have "geometry_update (\<lambda>_. None) stored_feature ?merged m = Inr m" for m
    by (simp add: geometry_update_def has_geometry_def stored_feature_def)
  with f j c i have "buildMutationFromMerged (\<lambda>_. None) sample_schema ''roads'' 7 stored_feature ?merged = Inr (sample_patch\<lparr>m_IfRevision := []\<rparr>)"
    unfolding buildMutationFromMerged_def p sample_patch_def by (simp add: base_mutation_def)
  then show ?thesis by (simp add: build_patch_def sample_body_decoded buildPatchMutation_def sample_merge [simplified] sample_api_fields)
qed

lemma sample_patch_applied: "\<exists>out tx'. gpkg_Apply sample_env sample_patch sample_begun = (Inr out, tx')"
proof -
  have f: "m_Collection sample_patch = ''roads''" "m_Op sample_patch = MutationUpdate" "m_FeatureID sample_patch = 7" "m_GeometryWKB sample_patch = None"
    "m_IfRevision sample_patch = ''0.0''" by (simp_all add: sample_patch_def base_mutation_def)
  have c: "checkRevision sample_env sample_mapping sample_patch sample_begun = None"
    by (simp add: checkRevision_def gpkg_checkRevisionCAS_def f sample_mapping_fields sample_done_db)
  have r: "require_row sample_env sample_mapping True 7 sample_begun = Inr sample_row"
    by (simp add: require_row_def selectRow_def existsInTx_def f sample_mapping_fields sample_done_db)
  have p: "property_assignments sample_env sample_mapping (m_Properties sample_patch) = Inr [(''lanes'', SqlInt 1)]"
    by (simp add: sample_patch_def base_mutation_def sample_mapping_def valueToSQL_def zero_mv_def Let_def)
  have g: "geometry_change sample_env sample_mapping sample_patch = Inr ([], None, False)"
    by (simp add: geometry_change_def sample_patch_def base_mutation_def)
  obtain t1 where t1: "gpkg_data sample_env sample_mapping sample_patch sample_begun = (Inr (outcome 7), t1)" "t_step t1 = 0"
    "d_revisions (t_db t1) = [(''roads'', 8) \<mapsto> (1, 0)]"
    by (simp add: gpkg_data_def gpkg_update_def f c r p g store_row_def sample_mapping_fields recordMod_def Let_def sample_done_db)
  obtain b tab rv inc where b: "CheckAndBumpRevisionSQL (\<lambda>_. None) [(''roads'', 8) \<mapsto> (1, 0)] ''roads'' 7 ''0.0'' = (Inr b, tab)" "tab (''roads'', 7) = Some (rv, inc)"
    using sample_bump by blast
  obtain out t2 where t2: "gpkg_bump sample_env sample_mapping sample_patch (outcome 7) t1 = (Inr out, t2)"
    using b by (simp add: gpkg_bump_def sample_mapping_fields t1 f Let_def)
  show ?thesis
    by (simp add: gpkg_Apply_def gpkg_apply_steps_def f sample_mapping_fields t1 t2 recordAuditTx_def Let_def)
qed

lemma sample_patch_run:
  "run_Write (mutation_entry servePatchItem sample_gpkg_api sample_patch_request sample_history) =
     Some (sample_patch, 4, execute_at sample_gpkg_api sample_patch_request (sample_history 4) sample_patch)"
proof -
  have q: "rq_Collection sample_patch_request = ''roads''" "rq_Feature sample_patch_request = ''7''" "rq_ContentCrs sample_patch_request = []"
    "selectedItemQuery sample_gpkg_api sample_patch_request ''roads'' = Inr ([], CRS84)" "checkWFSLock sample_patch_request (sample_history 0) ''roads'' 7 = None"
    "checkPrecondition sample_gpkg_api sample_patch_request sample_history ''roads'' 7 1 = (Inr [], 1)"
    "media_is (rq_ContentType sample_patch_request) ''application/merge-patch+json''" "\<not> media_is (rq_ContentType sample_patch_request) ''application/json-patch+json''"
    by (simp_all add: sample_patch_request_def sample_request_def selectedItemQuery_def sample_api_fields param_get_def checkWFSLock_def sample_history_def
      IsLocked_def mem_IsLocked_def checkPrecondition_def media_is_def)
  have "sample_patch\<lparr>m_IfRevision := ''0.0''\<rparr> = sample_patch" by (simp add: sample_patch_def)
  then show ?thesis
    by (simp add: mutation_entry_def servePatchItem_def q [simplified] sample_item sample_body_decoded sample_query revisionFromETag_def sample_api_fields sample_patch_built)
qed

section \<open>Properties\<close>

text \<open>
  C8. No lost update: a patch that commits was computed from the feature as it is stored when its
  transaction runs, whatever other clients wrote between the reads of the handler and the commit
  through GeoPackage writers, on files whose triggers and foreign-key actions change no other
  feature than the one written.
\<close>

theorem patch_no_lost_update:
  assumes "gpkg_service api env" and "concurrent_writes w"
    and "run_Write (mutation_entry servePatchItem api rq w) = Some (m, k, r)" and "r_Status (x_receipt r) = CommitCommitted"
    and "unat (m_FeatureID m) \<le> 9223372036854775807"
  shows "\<exists>current schema body m0. a_QueryFeature api (mo_db (w k)) (rq_Collection rq) (m_FeatureID m) [] = Inr current \<and>
    a_SchemaDescriptorFor api (rq_Collection rq) = Inr schema \<and> readMutationBody rq = Some body \<and>
    build_patch api (media_is (rq_ContentType rq) ''application/json-patch+json'') schema (rq_Collection rq) (m_FeatureID m) current body = Some m0 \<and>
    m = m0\<lparr>m_IfRevision := m_IfRevision m\<rparr> \<and> applied_at api (gpkg_view env) m (mo_db (w k)) (x_db r)"
proof -
  have pw: "run_Write (servePatchItem api rq w) = Some (m, k, r)" using assms(3) by (rule entry_write)
  then obtain i k0 current rv schema body m0 where q: "queryFeatureRevision api w (rq_Collection rq) i [] k0 = (Inr (current, rv), k)"
    and h: "a_SchemaDescriptorFor api (rq_Collection rq) = Inr schema" "readMutationBody rq = Some body"
    "build_patch api (media_is (rq_ContentType rq) ''application/json-patch+json'') schema (rq_Collection rq) i current body = Some m0"
    "m = m0\<lparr>m_IfRevision := rv\<rparr>" "rv \<noteq> []"
    by (auto simp: servePatchItem_def Let_def refuse_def split: if_splits option.splits sum.splits prod.splits)
  from build_patch_target [OF h(3)] h(4) have t: "m_Collection m = rq_Collection rq" "m_FeatureID m = i" "m_Op m \<noteq> MutationInsert" "m_IfRevision m = rv" by simp_all
  have "r = execute_at api rq (w k) m" using any_execute [OF _ assms(3)] by simp
  with execute_at_outcome [OF gpkg_service_transactional [OF assms(1)], of rq "w k" m] assms(4)
  have ap: "applied_at api (gpkg_view env) m (mo_db (w k)) (x_db r)" by simp
  from q obtain j where j: "k = j + 3" "currentRevision api (mo_db (w j)) (rq_Collection rq) i = Inr rv"
    "a_QueryFeature api (mo_db (w (j + 1))) (rq_Collection rq) i [] = Inr current"
    unfolding queryFeatureRevision_def by (blast dest: query_attempts_Inr)
  have "a_QueryFeature api (mo_db (w k)) (rq_Collection rq) i [] = Inr current"
    using conditional_current [OF assms(1,2) ap t(2,3,4) h(5), of j "j + 1" "[]"] assms(5) j t(1,2) by simp
  with h ap t show ?thesis by (intro exI [of _ current] exI [of _ schema] exI [of _ body] exI [of _ m0]) simp
qed

theorem patch_no_lost_update_witness:
  "\<exists>m0. build_patch sample_gpkg_api False sample_schema ''roads'' 7 stored_feature sample_patch_body = Some m0 \<and> sample_patch = m0\<lparr>m_IfRevision := ''0.0''\<rparr> \<and>
    applied_at sample_gpkg_api (gpkg_view sample_env) sample_patch (t_db sample_done)
      (x_db (execute_at sample_gpkg_api sample_patch_request (sample_history 4) sample_patch))"
proof -
  obtain out tx' where ap: "gpkg_Apply sample_env sample_patch sample_begun = (Inr out, tx')" using sample_patch_applied by blast
  have v: "validateMutationInput sample_schema sample_patch = Inr ()"
    by (simp add: sample_patch_def base_mutation_def validateMutationInput_def ValidateInputValue_def mutationValueToTyped_def
      Property_def check_typed_def zero_mv_def zero_value_def sample_schema_def Let_def)
  have c: "r_Status (x_receipt (execute_at sample_gpkg_api sample_patch_request (sample_history 4) sample_patch)) = CommitCommitted"
    by (rule sample_gpkg_execute [OF ap _ _ v])
      (simp_all add: sample_patch_def base_mutation_def sample_patch_request_def sample_request_def sample_history_def)
  have f: "m_FeatureID sample_patch = 7" "m_IfRevision sample_patch = ''0.0''" "rq_Collection sample_patch_request = ''roads''"
    "\<not> media_is (rq_ContentType sample_patch_request) ''application/json-patch+json''" "mo_db (sample_history 4) = t_db sample_done"
    by (simp_all add: sample_patch_def sample_patch_request_def sample_request_def media_is_def sample_history_def)
  from patch_no_lost_update [OF sample_service sample_concurrent sample_patch_run c] show ?thesis
    by (simp add: f [simplified] sample_current [of 4, unfolded f] sample_api_fields sample_body_decoded)
qed

text \<open>
  C9. Conditional writes are atomic: a replacement, update or deletion with an entity tag in
  \<^verbatim>\<open>If-Match\<close> commits only if the tag is that of the feature as it is stored, at the revision it
  has, when its transaction runs, with other clients as above.
\<close>

theorem if_match_atomic:
  assumes "gpkg_service api env" and "concurrent_writes w" and "h \<in> {serveReplaceItem, servePatchItem, serveDeleteItem}"
    and "run_Write (mutation_entry h api rq w) = Some (m, k, r)" and "r_Status (x_receipt r) = CommitCommitted"
    and "rq_IfMatch rq \<notin> {[], ''*''}" and "unat (m_FeatureID m) \<le> 9223372036854775807" and "\<forall>s. length (a_sha256 api s) = 32"
  shows "\<exists>crs f rw revision. a_QueryFeature api (mo_db (w k)) (rq_Collection rq) (m_FeatureID m) crs = Inr f \<and>
    a_renderRepresentation api rq 200 (rq_Collection rq) (m_FeatureID m) f = Inr rw \<and>
    currentRevision api (mo_db (w k)) (rq_Collection rq) (m_FeatureID m) = Inr revision \<and>
    etagMatches (rq_IfMatch rq) (revisionETag (a_sha256 api) rw revision)"
proof -
  obtain oper where "checked_write api rq w oper m k" using checked_any [OF assms(3,4)] by blast
  then obtain etag k0 where al: "AllowsOperation (a_Write api) (rq_Collection rq) oper" and c: "m_Op m \<noteq> MutationInsert" "m_Collection m = rq_Collection rq" "k0 \<le> k"
    "checkPrecondition api rq w (rq_Collection rq) (m_FeatureID m) 1 = (Inr etag, k0)"
    "revisionFromETag etag \<noteq> [] \<longrightarrow> m_IfRevision m = revisionFromETag etag" by (auto simp: checked_write_def)
  let ?i = "m_FeatureID m"
  from c(4) assms(6) obtain crs f rv rw where p: "queryFeatureRevision api w (rq_Collection rq) ?i crs 1 = (Inr (f, rv), k0)"
    "a_renderRepresentation api rq 200 (rq_Collection rq) ?i f = Inr rw" "etag = revisionETag (a_sha256 api) rw rv"
    "etagMatches (rq_IfMatch rq) etag" "revisionFromETag etag \<noteq> []"
    by (auto simp: checkPrecondition_def currentETag_def querySelectedFeatureRevision_def Let_def split: if_splits sum.splits prod.splits)
  from p(1) obtain j where j: "k0 = j + 3" "currentRevision api (mo_db (w j)) (rq_Collection rq) ?i = Inr rv"
    "a_QueryFeature api (mo_db (w (j + 1))) (rq_Collection rq) ?i crs = Inr f"
    unfolding queryFeatureRevision_def by (blast dest: query_attempts_Inr)
  have "r = execute_at api rq (w k) m" using any_execute [OF assms(3,4)] .
  with execute_at_outcome [OF gpkg_service_transactional [OF assms(1)], of rq "w k" m] assms(5)
  have ap: "applied_at api (gpkg_view env) m (mo_db (w k)) (x_db r)" by simp
  from ap c(2) obtain pr layer where pr: "a_MutationProviderFor api (rq_Collection rq) = Inr (pr, layer)" unfolding applied_at_def by auto
  have room: "rev_room (d_revisions (mo_db (w j)))" using assms(2) by (simp add: concurrent_writes_def)
  obtain inc n where tok: "rv = revision_token inc n" "0 \<le> inc" "inc < 2 ^ 63" "0 \<le> n" "n < 2 ^ 63"
    by (rule read_token [OF assms(1) pr al room assms(7) j(2)])
  have rv: "m_IfRevision m = rv" "rv \<noteq> []"
    using revision_of_etag [OF tok(2-5), of "a_sha256 api" rw] assms(8) c(5) p(3,5) tok(1) by simp_all
  note cc = conditional_current [OF assms(1,2) ap refl c(1) rv assms(7), of j "j + 1" crs]
  from cc j(2,3) c(2,3) j(1) have "currentRevision api (mo_db (w k)) (rq_Collection rq) ?i = Inr rv"
    "a_QueryFeature api (mo_db (w k)) (rq_Collection rq) ?i crs = Inr f" by simp_all
  with p(2,3,4) show ?thesis by blast
qed

theorem if_match_atomic_witness:
  "etagMatches (rq_IfMatch sample_if_match) (revisionETag (a_sha256 sample_gpkg_api) ''{}'' ''0.0'') \<and>
   r_Status (x_receipt (execute_at sample_gpkg_api sample_if_match (sample_history 4) sample_if_match_delete)) = CommitCommitted"
proof -
  obtain out tx' where ap: "gpkg_Apply sample_env sample_if_match_delete sample_begun = (Inr out, tx')" using sample_delete_applied by blast
  have c: "r_Status (x_receipt (execute_at sample_gpkg_api sample_if_match (sample_history 4) sample_if_match_delete)) = CommitCommitted"
    by (rule sample_gpkg_execute [OF ap])
      (simp_all add: sample_if_match_delete_def sample_delete_def validateMutationInput_def sample_if_match_def sample_request_def sample_history_def)
  have "unat (m_FeatureID sample_if_match_delete) = 7" by (simp add: sample_if_match_delete_def sample_delete_def)
  with if_match_atomic [OF sample_service sample_concurrent _ sample_if_match_run c] sample_etag_matches(2) c show ?thesis
    by (simp add: sample_api_fields sample_current sample_if_match_def sample_request_def sample_if_match_delete_def sample_delete_def)
qed

text \<open>
  C36. A served entity tag names one revision of one representation: for the revisions a provider hands
  out (counters from 0 below \<open>2 ^ 63\<close>) and a digest of 32 bytes, the tag sent with one response, given back
  in an \<^verbatim>\<open>If-Match\<close> header, matches the tag of another response exactly when the two have the same
  incarnation, the same revision and the same digest of their bodies; and the revision the tag
  carries is read back from it. Tags without a revision (a provider with no revision reader) are not
  covered.
\<close>

theorem served_tag_exact:
  assumes "\<forall>x \<in> {inc, n, inc', n'}. 0 \<le> x \<and> x < 2 ^ 63" and "\<forall>s. length (sha256 s) = 32"
  shows "(etagMatches (revisionETag sha256 rw (revision_token inc n)) (revisionETag sha256 rw' (revision_token inc' n')) \<longleftrightarrow>
      inc = inc' \<and> n = n' \<and> sha256 rw = sha256 rw') \<and>
    revisionFromETag (revisionETag sha256 rw (revision_token inc n)) = revision_token inc n"
proof -
  let ?rv = "revision_token inc n" and ?rv' = "revision_token inc' n'"
  have b: "revisionFromETag (revisionETag sha256 rw ?rv) = ?rv" "revisionFromETag (revisionETag sha256 rw' ?rv') = ?rv'"
    using assms by (simp_all add: revision_of_etag)
  have ne: "?rv \<noteq> []" "?rv' \<noteq> []" by (simp_all add: revision_token_def)
  have "CHR '','' \<notin> set (FormatUint k)" for k using FormatUint_digits [of k] by (auto simp: list_all_iff is_digit_def)
  with assms(1) have "CHR '','' \<notin> set ?rv" by (simp add: revision_token_def FormatInt_def)
  note m = etag_matches_tag [OF ne(1) this, of sha256 rw "revisionETag sha256 rw' ?rv'"]
  have "inc = inc' \<and> n = n' \<and> sha256 rw = sha256 rw'" if e: "revisionETag sha256 rw' ?rv' = revisionETag sha256 rw ?rv"
  proof -
    from e b have t: "?rv' = ?rv" by simp
    with e have "hex_encode (sha256 rw') = hex_encode (sha256 rw)" by (simp add: etag_form [OF ne(1)] etag_form [OF ne(2)])
    with t show ?thesis by (simp add: hex_encode_inject)
  qed
  moreover have "revisionETag sha256 rw' ?rv' = revisionETag sha256 rw ?rv" if "inc = inc'" "n = n'" "sha256 rw = sha256 rw'"
    using that by (simp add: etag_form [OF ne(1)] etag_form [OF ne(2)])
  ultimately show ?thesis using b(1) m by blast
qed

theorem served_tag_exact_witness:
  "revisionETag (\<lambda>_. replicate 32 (CHR 0x00)) ''{}'' (revision_token 0 0) \<noteq> revisionETag (\<lambda>_. replicate 32 (CHR 0x00)) ''{}'' (revision_token 0 1) \<and>
   revisionFromETag (revisionETag (\<lambda>_. replicate 32 (CHR 0x00)) ''{}'' (revision_token 0 0)) = ''0.0''"
  using served_tag_exact [of 0 0 0 1 "\<lambda>_. replicate 32 (CHR 0x00)" "''{}''" "''{}''"]
    served_tag_exact [of 0 0 0 0 "\<lambda>_. replicate 32 (CHR 0x00)" "''{}''" "''{}''"]
  by (auto simp: zero_token)

end
