(* ===== verification/Spec2Isabelle.thy ===== *)
theory Spec2Isabelle
  imports Feature_Identity Wfs_Lock_Live Provider_Temporal Mutation_Correct Cql2_Sound Mutation_Build Sql_Substitution
    Feature_Rest_Safety Gpkg_Index Optimistic_Write
begin

text \<open>
  Verification development for Tegola, a Go server that publishes spatial databases as vector tiles,
  through OGC API Features and through WFS. The development is about the write path and what it
  rests on: which requests are admitted, what is written, what a client is told, and what
  concurrent clients can and cannot do to each other.

  \<^bold>\<open>How the parts interact.\<close> A write request reaches a handler of \<^verbatim>\<open>src/server\<close>. The handler reads the body
  (GeoJSON, merge patch or JSON Patch), compares \<^verbatim>\<open>If-Match\<close> with the entity tag of the stored feature,
  asks the WFS lock store whether the feature is locked, builds a mutation and gives it to the
  coordinator of \<^verbatim>\<open>src/feature\<close>. The coordinator checks policy and schema, opens a transaction of the
  provider, executes the mutations and commits or rolls back. The provider modelled in full is the
  GeoPackage writer, which compares and bumps revisions, stores rows and geometries, keeps the spatial
  index and writes the audit log. Read requests carry filters; the CQL2 parser and the temporal
  parser produce them, and providers substitute tokens in configured SQL.

  \<^bold>\<open>Conventions.\<close> Go strings and byte slices are lists of characters, each one byte. Go's 64-bit
  integers are \<^typ>\<open>64 word\<close> where they can wrap and \<^typ>\<open>int\<close> with the bounds written out where the code
  checks them. Results with an error are sums, the error on the left. Mutable state is passed and
  returned; every SQL statement that can fail takes a failure as an argument, so the theorems
  hold for every pattern of storage failures. What other clients do between two steps of a handler is a
  sequence of moments of the database. Vendored code, digests, projections and codecs are
  arguments, and what is assumed of them is a hypothesis of the theorem.

  \<^bold>\<open>The theories.\<close>
  \<^item> \<open>Go_Prelude\<close>, \<open>Go_Utf8\<close>: shared lemmas and types; \<^verbatim>\<open>strconv\<close>, \<^verbatim>\<open>strings\<close> and \<^verbatim>\<open>unicode/utf8\<close> as far as
    the code calls them.
  \<^item> \<open>Feature_Identity\<close> (\<^verbatim>\<open>src/feature/identity.go\<close>): physical keys and WFS feature identifiers, with the round
    trip of the encoding.
  \<^item> \<open>Wfs_Lock\<close>, \<open>Wfs_Lock_Live\<close> (\<^verbatim>\<open>src/ogc/wfs/lockstore.go\<close>, \<^verbatim>\<open>lockfeature.go\<close>): the memory and the database
    lock store, both instances of the contract \<open>lock_store\<close>. Mutual exclusion in every reachable
    state, leases honoured until they expire, refusal on storage failures, refinement of the memory
    store by the database store, and progress of a client that retries (\<open>expiring_store\<close>). Times in
    the database are \<^verbatim>\<open>UnixNano\<close> values that wrap (\<open>unix_nano\<close>), and a driver may refuse a statement
    because of the identifier bound to it (\<open>sqlite_driver\<close>); the refinement is stated for times in
    range (\<open>clock_range\<close>), identifiers below \<open>2 ^ 63\<close> and lists without duplicates, since outside
    them the two stores differ.
  \<^item> \<open>Provider_Temporal\<close> (\<^verbatim>\<open>src/provider/temporal*.go\<close>): exact time values with unbounded fractions and leap
    seconds.
  \<^item> \<open>Query_Filter\<close>, \<open>Filter_Correct\<close> (\<^verbatim>\<open>src/provider/query_filter.go\<close>, \<^verbatim>\<open>query.go\<close>): filter trees, their limits,
    queryables and resolution; acceptance characterised and resolution sound.
  \<^item> \<open>Cql2\<close>, \<open>Cql2_Correct\<close>, \<open>Cql2_Sound\<close> (\<^verbatim>\<open>src/ogc/cql2\<close>): lexer and parser, against a grammar given as
    inductive predicates.
  \<^item> \<open>Sql_Token\<close>, \<open>Sql_Token_Correct\<close>, \<open>Sql_Substitution\<close> (\<^verbatim>\<open>src/internal/sqltoken/sqltoken.go\<close>): the scanner of
    SQL text; segments partition the text, and a value that is \<open>inert\<close> (conditions on its bytes, its
    ends and its not being empty) cannot change the segmentation.
  \<^item> \<open>Json_Text\<close>, \<open>Json_Codec\<close>: JSON values, the decoder and the encoder of \<^verbatim>\<open>encoding/json\<close>, inverse to
    each other. \<open>Json_Patch\<close>, \<open>Json_Patch_Correct\<close> (\<^verbatim>\<open>src/server/jsonpatch.go\<close>): RFC 6902.
    \<open>Geojson_Input\<close>, \<open>Geojson_Correct\<close> (\<^verbatim>\<open>src/server/mutation_geojson.go\<close>): bodies, geometries, property
    conversion, merge patch and the digest in entity tags. \<open>Mutation_Build\<close> (\<^verbatim>\<open>src/server/mutation_build.go\<close>): from features
    to mutations.
  \<^item> \<open>Feature_Schema\<close>, \<open>Feature_Mutation\<close>, \<open>Mutation_Correct\<close> (\<^verbatim>\<open>src/feature/schema.go\<close>, \<^verbatim>\<open>mutation.go\<close>,
    \<^verbatim>\<open>policy.go\<close>): the coordinator as a program over the operations of a transaction, with a trace of its
    calls. Admission before any write, the protocol of calls, atomicity over a provider that meets
    the transaction contract, and what the receipt says. Input validation is characterised as it is,
    which includes that it does not compare the kind of a value with the declared type.
  \<^item> \<open>Feature_Config\<close> (\<^verbatim>\<open>src/config/features.go\<close>, \<^verbatim>\<open>wfs.go\<close>): defaults and validation of the settings.
  \<^item> \<open>Feature_Rest\<close>, \<open>Feature_Rest_Correct\<close>, \<open>Feature_Rest_Safety\<close>
    (\<^verbatim>\<open>src/server/handle_features_mutations.go\<close>, \<^verbatim>\<open>feature_revision.go\<close>, \<^verbatim>\<open>mutation_receipt.go\<close>): the handlers for
    POST, PUT, PATCH and DELETE. Truthful responses, and locks.
  \<^item> \<open>Revision_Store\<close>, \<open>Revision_Correct\<close> (\<^verbatim>\<open>src/provider/audit/revision.go\<close> and the checks of the providers):
    the table of revisions; the SQL and the PostGIS bump both meet the contract \<open>revision_log\<close>.
  \<^item> \<open>Gpkg_Geometry\<close>, \<open>Gpkg_Geometry_Correct\<close> (\<^verbatim>\<open>src/provider/gpkg/binary_header.go\<close>): bounds and headers.
    \<open>Gpkg_Writer\<close>, \<open>Gpkg_Correct\<close>, \<open>Gpkg_Rows\<close>, \<open>Gpkg_Index\<close> (\<^verbatim>\<open>src/provider/gpkg/mutation.go\<close>,
    \<^verbatim>\<open>mutation_ops.go\<close>, \<^verbatim>\<open>audit.go\<close>): the transaction, its contract, the rows, the spatial index and the log.
    What SQLite does around a statement by itself is in two arguments: \<open>g_affinity\<close>, the value a column
    stores for a bound value, and \<open>g_react\<close>, the effect of generated columns, triggers and
    foreign-key actions on all rows and indexes. The theorem on updates is about cells these leave
    alone (\<open>left_alone\<close>), those on revisions about files where they change no other feature
    (\<open>local_reactions\<close>), and that on the index about files where they set no geometries
    (\<open>index_reactions\<close>); the bounds of a stored geometry are those of the geometry read back from it.
  \<^item> \<open>Optimistic_Write\<close>: the handlers over the GeoPackage writer. A conditional write or a patch that
    commits was computed from the feature as stored when its transaction runs; the argument is
    made once in the locale \<open>versioned\<close> for any content that a growing version identifies. A served tag
    names one revision and one digest of a response.

  \<^bold>\<open>Bounds.\<close> The parser of CQL2 takes fuel, three units per token and three more; \<open>parse_terminates\<close>
  shows that this is always enough. The bounds of the code (depth and nodes of filters, sizes of bodies,
  attempts at a consistent read, levels of JSON nesting) are in the model with the values of the source. All
  other loops are total functions.

  \<^bold>\<open>Not modelled.\<close> Tile encoding, caches and routing of HTTP; reading of features and the SQL text sent
  to databases, whose meaning is the engine's; the row operations of the PostGIS, MySQL and HANA
  providers; documents in XML, HTML and OpenAPI; projections and geometry algorithms on floats, of
  which only the order is used here; configuration files and the command line; the function
  \<^verbatim>\<open>canonicalFeatureBytes\<close>, which nothing calls. The theorem on the spatial index is about layers whose
  tables have one geometry column, in GeoPackage encoding, without bounds columns and default
  geometry, and an index that agrees with the table to begin with.
\<close>

end
